(* ===== verification/Prelude.thy ===== *)
theory Prelude
  imports Complex_Main "HOL-Library.Word" "HOL-Library.Char_ord" "HOL-Library.List_Lexorder"
    "HOL-Library.Multiset" "HOL-Library.Sublist"
begin

text \<open>
  What every theory of the development shares: the development's collections of rewrite rules,
  the type of fallible results, and lemmas on lists that the components use.

  A Go string is a sequence of bytes and is modelled as \<^verbatim>\<open>string\<close>, a list of 8-bit characters;
  \<^verbatim>\<open>strings.Compare\<close> is the lexicographic order on it, which \<^verbatim>\<open>List_Lexorder\<close> and \<^verbatim>\<open>Char_ord\<close>
  provide.
\<close>

named_theorems go_simps \<open>definitions that unfold in the proofs about handlers and services\<close>

type_synonym ('e, 'a) result = "'e + 'a"

text \<open>A search for the only element that qualifies finds it.\<close>

lemma find_unique:
  assumes "r \<in> set xs" "P r" "\<And>k. k \<in> set xs \<Longrightarrow> P k \<Longrightarrow> k = r"
  shows "find P xs = Some r"
proof (cases "find P xs")
  case None
  then show ?thesis using assms(1,2) by (auto simp: find_None_iff)
next
  case (Some k)
  then have "k \<in> set xs" "P k" by (auto simp: find_Some_iff)
  then show ?thesis using Some assms(3) by metis
qed

end
