(* ===== verification/Base64.thy ===== *)
theory Base64
  imports Prelude
begin

text \<open>
  \<^verbatim>\<open>base64.RawURLEncoding\<close> of Go's standard library as the cursor uses it: three bytes to four
  characters without padding.  The decoder skips line breaks and does not look at the bits that
  the last character leaves over.
\<close>

section \<open>Characters\<close>

definition urlAlphabet :: string where
  "urlAlphabet = ''ABCDEFGHIJKLMNOPQRSTUVWXYZabcdefghijklmnopqrstuvwxyz0123456789-_''"

definition enc6 :: "nat \<Rightarrow> char" where
  "enc6 n = urlAlphabet ! n"

fun index_of :: "'a list \<Rightarrow> 'a \<Rightarrow> nat option" where
  "index_of [] c = None"
| "index_of (x # xs) c = (if x = c then Some 0 else map_option Suc (index_of xs c))"

definition dec6 :: "char \<Rightarrow> nat option" where
  "dec6 c = index_of urlAlphabet c"

section \<open>Encoding\<close>

fun encodeBytes :: "nat list \<Rightarrow> nat list" where
  "encodeBytes [] = []"
| "encodeBytes [a] = [a div 4, (a mod 4) * 16]"
| "encodeBytes [a, b] = [a div 4, (a mod 4) * 16 + b div 16, (b mod 16) * 4]"
| "encodeBytes (a # b # c # r) =
     [a div 4, (a mod 4) * 16 + b div 16, (b mod 16) * 4 + c div 64, c mod 64] @ encodeBytes r"

definition EncodeToString :: "string \<Rightarrow> string" where
  "EncodeToString s = map enc6 (encodeBytes (map of_char s))"

fun decodeQuanta :: "nat list \<Rightarrow> nat list option" where
  "decodeQuanta [] = Some []"
| "decodeQuanta [x] = None"
| "decodeQuanta [x, y] = Some [x * 4 + y div 16]"
| "decodeQuanta [x, y, z] = Some [x * 4 + y div 16, (y mod 16) * 16 + z div 4]"
| "decodeQuanta (x # y # z # v # r) =
     map_option (\<lambda>bs. [x * 4 + y div 16, (y mod 16) * 16 + z div 4, (z mod 4) * 64 + v] @ bs) (decodeQuanta r)"

fun those_list :: "'a option list \<Rightarrow> 'a list option" where
  "those_list [] = Some []"
| "those_list (None # xs) = None"
| "those_list (Some x # xs) = map_option ((#) x) (those_list xs)"

definition DecodeString :: "string \<Rightarrow> string option" where
  "DecodeString s =
     (case those_list (map dec6 (filter (\<lambda>c. c \<noteq> char_of (10::nat) \<and> c \<noteq> char_of (13::nat)) s)) of
        None \<Rightarrow> None
      | Some vs \<Rightarrow> map_option (map char_of) (decodeQuanta vs))"

section \<open>Round trip\<close>

lemma index_of_nth: "distinct xs \<Longrightarrow> i < length xs \<Longrightarrow> index_of xs (xs ! i) = Some i"
proof (induction xs arbitrary: i)
  case (Cons x xs)
  then show ?case by (cases i) auto
qed simp

lemma alphabet: "distinct urlAlphabet" "length urlAlphabet = 64"
  "char_of (10::nat) \<notin> set urlAlphabet" "char_of (13::nat) \<notin> set urlAlphabet"
  unfolding urlAlphabet_def by code_simp+

lemma dec6_enc6: "n < 64 \<Longrightarrow> dec6 (enc6 n) = Some n"
  unfolding dec6_def enc6_def by (rule index_of_nth) (simp_all add: alphabet)

lemma enc6_visible: "n < 64 \<Longrightarrow> enc6 n \<noteq> char_of (10::nat) \<and> enc6 n \<noteq> char_of (13::nat)"
  using alphabet nth_mem[of n urlAlphabet] by (metis enc6_def)

lemma encodeBytes_bound: "\<forall>b \<in> set bs. b < 256 \<Longrightarrow> \<forall>v \<in> set (encodeBytes bs). v < 64"
proof (induction bs rule: encodeBytes.induct)
  case (4 a b c r)
  then have "a < 256" "b < 256" "c < 256" by auto
  then show ?case using 4 by (simp, linarith)
qed (simp_all, linarith+)

lemma those_list_some: "\<forall>v \<in> set vs. f (g v) = Some v \<Longrightarrow> those_list (map (f \<circ> g) vs) = Some vs"
  by (induction vs) auto

lemma decode_encode_bytes: "\<forall>b \<in> set bs. b < 256 \<Longrightarrow> decodeQuanta (encodeBytes bs) = Some bs"
proof (induction bs rule: encodeBytes.induct)
  case (4 a b c r)
  then have "b < 256" "c < 256" by auto
  then have "b div 16 < 16" "c div 64 < 4" by linarith+
  then show ?case using 4 by (simp add: div_mult_mod_eq)
next
  case (3 a b)
  then have "b < 256" by simp
  then have "b div 16 < 16" by linarith
  then show ?case by (simp add: div_mult_mod_eq)
qed (simp_all add: div_mult_mod_eq)

lemma DecodeString_EncodeToString: "DecodeString (EncodeToString s) = Some s"
proof -
  let ?bs = "map of_char s :: nat list"
  have b: "\<forall>x \<in> set ?bs. x < 256" using of_char_of by (auto simp: of_char_def intro: horner_sum_of_bool_2_less[THEN order.strict_trans2])
  have v: "\<forall>v \<in> set (encodeBytes ?bs). v < 64" by (rule encodeBytes_bound[OF b])
  have f: "filter (\<lambda>c. c \<noteq> char_of (10::nat) \<and> c \<noteq> char_of (13::nat)) (EncodeToString s) = EncodeToString s"
    unfolding EncodeToString_def using v enc6_visible by (intro filter_True) auto
  have d: "those_list (map dec6 (EncodeToString s)) = Some (encodeBytes ?bs)"
    unfolding EncodeToString_def list.map_comp using v dec6_enc6 by (intro those_list_some) auto
  have "map char_of ?bs = s" by (simp add: comp_def map_idI)
  then show ?thesis unfolding DecodeString_def f d using decode_encode_bytes[OF b] by simp
qed

end
