(* ===== verification/Go_Errors.thy ===== *)
theory Go_Errors
  imports Prelude
begin

text \<open>
  Error values.  A Go error is compared by identity and unwrapped along the \<^verbatim>\<open>%w\<close> operands of
  \<^verbatim>\<open>fmt.Errorf\<close>, so an error is a tree: the package-level error variables, the errors the
  libraries return, and the wrappers.  \<^verbatim>\<open>errors.Is\<close> and \<^verbatim>\<open>errors.AsType\<close> search the tree.
\<close>

section \<open>The package-level error variables\<close>

datatype sentinel =
    ErrNotFound | ErrUserNotFound | ErrTokenNotFound
  | ErrDuplicateNickname | ErrNestedTx
  | ErrInvalidColorSort | ErrInvalidSortOrder
  | ColorErrQuotaFull | CollectionErrQuotaFull | ErrDeleteDefault
  | ErrInvalidCredentials | ErrInvalidPassword | ErrUnusableHash
  | ErrUnknownHarmony | ErrUnknownSpace | ErrInvalidPaletteSort | ErrUnknownIcon
  | ErrInvalidCursor | ErrConfig | ErrMissingCreds
  | ErrServer | ErrServe | ErrShutdown
  | ErrNoRows | ErrMismatchedHashAndPassword

datatype go_error =
    Sentinel sentinel
  | NewError string                     \<comment> \<open>an \<^verbatim>\<open>errors.New\<close> at the place it is returned\<close>
  | Errorf string "go_error list"       \<comment> \<open>\<^verbatim>\<open>fmt.Errorf\<close>: its text and its \<^verbatim>\<open>%w\<close> operands\<close>
  | PgError string                      \<comment> \<open>\<^verbatim>\<open>*pgconn.PgError\<close> with its SQLSTATE\<close>
  | MaxBytesError                       \<comment> \<open>\<^verbatim>\<open>*http.MaxBytesError\<close>\<close>
  | Foreign string                      \<comment> \<open>any other error of a library\<close>

text \<open>The variables that are themselves made with \<^verbatim>\<open>%w\<close>.\<close>

fun sentinel_parent :: "sentinel \<Rightarrow> sentinel option" where
  "sentinel_parent ErrUserNotFound = Some ErrNotFound"
| "sentinel_parent ErrTokenNotFound = Some ErrNotFound"
| "sentinel_parent ErrServe = Some ErrServer"
| "sentinel_parent ErrShutdown = Some ErrServer"
| "sentinel_parent _ = None"

text \<open>\<^verbatim>\<open>errors.Is(err, target)\<close> for a package-level target; the chains of variables have length one.\<close>

fun errors_is :: "go_error \<Rightarrow> sentinel \<Rightarrow> bool" where
  "errors_is (Sentinel s) t = (s = t \<or> sentinel_parent s = Some t)"
| "errors_is (Errorf _ es) t = (\<exists>e \<in> set es. errors_is e t)"
| "errors_is _ t = False"

text \<open>\<^verbatim>\<open>errors.AsType[*http.MaxBytesError]\<close>.\<close>

fun as_max_bytes :: "go_error \<Rightarrow> bool" where
  "as_max_bytes MaxBytesError = True"
| "as_max_bytes (Errorf _ es) = (\<exists>e \<in> set es. as_max_bytes e)"
| "as_max_bytes _ = False"

end
