(* ===== verification/Go_Float.thy ===== *)
theory Go_Float
  imports Prelude
begin

text \<open>
  Go's \<^verbatim>\<open>float64\<close> and the part of package \<^verbatim>\<open>math\<close> that \<^verbatim>\<open>internal/color\<close> uses.

  A \<^verbatim>\<open>float64\<close> is the real number it denotes; every arithmetic operation computes the exact result
  and rounds it once.  What Go leaves to the platform is collected in a record: the rounding
  function and the elementary functions, whose last bits differ between architectures.  The
  locale \<^verbatim>\<open>ieee\<close> states what IEEE 754 guarantees of the rounding, the locale \<^verbatim>\<open>go_math\<close> the
  documented behaviour of the elementary functions with an error bound; both are interpreted on
  \<^verbatim>\<open>binary64_env\<close>, IEEE binary64 with round-to-nearest-even.  Infinities, NaNs, the sign of zero
  and fused multiply-add are outside the model: the code's values stay far below overflow, and
  the divisions are shown to have a non-zero divisor where they matter.
\<close>

section \<open>The float environment\<close>

record fenv =
  f_rnd :: "real \<Rightarrow> real"
  f_pow :: "real \<Rightarrow> real \<Rightarrow> real"
  f_cbrt :: "real \<Rightarrow> real"
  f_hypot :: "real \<Rightarrow> real \<Rightarrow> real"
  f_atan2 :: "real \<Rightarrow> real \<Rightarrow> real"
  f_cos :: "real \<Rightarrow> real"
  f_sin :: "real \<Rightarrow> real"

text \<open>A constant of the source is exact until it is converted to \<^verbatim>\<open>float64\<close>, once.\<close>

definition lit :: "fenv \<Rightarrow> real \<Rightarrow> real" where
  "lit m c = f_rnd m c"

definition fadd :: "fenv \<Rightarrow> real \<Rightarrow> real \<Rightarrow> real" where
  "fadd m x y = f_rnd m (x + y)"

definition fsub :: "fenv \<Rightarrow> real \<Rightarrow> real \<Rightarrow> real" where
  "fsub m x y = f_rnd m (x - y)"

definition fmul :: "fenv \<Rightarrow> real \<Rightarrow> real \<Rightarrow> real" where
  "fmul m x y = f_rnd m (x * y)"

definition fdiv :: "fenv \<Rightarrow> real \<Rightarrow> real \<Rightarrow> real" where
  "fdiv m x y = f_rnd m (x / y)"

text \<open>\<^verbatim>\<open>math.Sqrt\<close> is correctly rounded by IEEE 754.\<close>

definition fsqrt :: "fenv \<Rightarrow> real \<Rightarrow> real" where
  "fsqrt m x = f_rnd m (sqrt x)"

text \<open>
  The conversion \<^verbatim>\<open>int(x)\<close> truncates towards zero, \<^verbatim>\<open>math.Round\<close> rounds halves away from zero,
  \<^verbatim>\<open>math.Mod\<close> has the sign of its first argument.  All three are exact on floats.
\<close>

definition go_trunc :: "real \<Rightarrow> int" where
  "go_trunc x = (if x < 0 then - \<lfloor>- x\<rfloor> else \<lfloor>x\<rfloor>)"

definition go_round :: "real \<Rightarrow> int" where
  "go_round x = (if x < 0 then - \<lfloor>- x + 1 / 2\<rfloor> else \<lfloor>x + 1 / 2\<rfloor>)"

definition go_mod :: "real \<Rightarrow> real \<Rightarrow> real" where
  "go_mod x y = x - y * of_int (go_trunc (x / y))"

subsection \<open>Facts that need no rounding law\<close>

lemma go_round_of_int [simp]: "go_round (of_int k) = k"
proof -
  have "\<lfloor>(of_int j :: real) + 1 / 2\<rfloor> = j" for j :: int
    by (simp add: floor_eq_iff)
  from this[of k] this[of "- k"] show ?thesis
    by (simp add: go_round_def)
qed

lemma go_round_mono: "x \<le> y \<Longrightarrow> go_round x \<le> go_round y"
proof -
  assume le: "x \<le> y"
  consider "x < 0" "y < 0" | "x < 0" "0 \<le> y" | "0 \<le> x" "0 \<le> y" using le by linarith
  then show ?thesis
  proof cases
    case 1
    have "\<lfloor>- y + 1 / 2\<rfloor> \<le> \<lfloor>- x + 1 / 2\<rfloor>" using le by (intro floor_mono) simp
    then show ?thesis using 1 by (simp add: go_round_def)
  next
    case 2
    have "0 \<le> \<lfloor>- x + 1 / 2\<rfloor>" "0 \<le> \<lfloor>y + 1 / 2\<rfloor>" using 2 by auto
    then have "- \<lfloor>- x + 1 / 2\<rfloor> \<le> \<lfloor>y + 1 / 2\<rfloor>" by linarith
    then show ?thesis using 2 by (simp add: go_round_def)
  next
    case 3
    have "\<lfloor>x + 1 / 2\<rfloor> \<le> \<lfloor>y + 1 / 2\<rfloor>" using le by (intro floor_mono) simp
    then show ?thesis using 3 by (simp add: go_round_def)
  qed
qed

lemma go_round_between:
  assumes "of_int a \<le> x" and "x \<le> of_int b"
  shows "a \<le> go_round x \<and> go_round x \<le> b"
  using go_round_mono[OF assms(1)] go_round_mono[OF assms(2)] by simp

lemma go_round_close: "\<bar>of_int (go_round x) - x\<bar> \<le> 1 / 2"
proof (cases "x < 0")
  case True
  have "of_int \<lfloor>- x + 1 / 2\<rfloor> \<le> - x + 1 / 2" "- x + 1 / 2 < of_int \<lfloor>- x + 1 / 2\<rfloor> + 1" by linarith+
  then have "\<bar>- of_int \<lfloor>- x + 1 / 2\<rfloor> - x\<bar> \<le> 1 / 2" by linarith
  then show ?thesis using True by (simp add: go_round_def)
next
  case False
  have "of_int \<lfloor>x + 1 / 2\<rfloor> \<le> x + 1 / 2" "x + 1 / 2 < of_int \<lfloor>x + 1 / 2\<rfloor> + 1" by linarith+
  then have "\<bar>of_int \<lfloor>x + 1 / 2\<rfloor> - x\<bar> \<le> 1 / 2" by linarith
  then show ?thesis using False by (simp add: go_round_def)
qed

lemma go_round_unique:
  assumes "\<bar>x - of_int k\<bar> < 1 / 2"
  shows "go_round x = k"
proof -
  have "\<bar>of_int (go_round x) - (of_int k :: real)\<bar> < 1"
    using assms go_round_close[of x] by linarith
  then have "\<bar>of_int (go_round x - k) :: real\<bar> < 1" by simp
  then show ?thesis by linarith
qed

lemma go_trunc_of_int [simp]: "go_trunc (of_int k) = k"
  by (simp add: go_trunc_def)

lemma go_trunc_mono: "x \<le> y \<Longrightarrow> go_trunc x \<le> go_trunc y"
proof -
  assume le: "x \<le> y"
  consider "x < 0" "y < 0" | "x < 0" "0 \<le> y" | "0 \<le> x" "0 \<le> y" using le by linarith
  then show ?thesis
  proof cases
    case 1
    have "\<lfloor>- y\<rfloor> \<le> \<lfloor>- x\<rfloor>" using le by (intro floor_mono) simp
    then show ?thesis using 1 by (simp add: go_trunc_def)
  next
    case 2
    have "0 \<le> \<lfloor>- x\<rfloor>" "0 \<le> \<lfloor>y\<rfloor>" using 2 by auto
    then have "- \<lfloor>- x\<rfloor> \<le> \<lfloor>y\<rfloor>" by linarith
    then show ?thesis using 2 by (simp add: go_trunc_def)
  next
    case 3
    then show ?thesis using le by (simp add: go_trunc_def floor_mono)
  qed
qed

lemma go_trunc_nonneg: "0 \<le> x \<Longrightarrow> go_trunc x = \<lfloor>x\<rfloor>"
  by (simp add: go_trunc_def)

lemma go_trunc_le: "0 \<le> x \<Longrightarrow> of_int (go_trunc x) \<le> x"
  by (simp add: go_trunc_def)

lemma go_mod_nonneg_range:
  assumes "0 \<le> x" and "0 < y"
  shows "0 \<le> go_mod x y \<and> go_mod x y < y"
proof -
  have q: "go_trunc (x / y) = \<lfloor>x / y\<rfloor>" using assms by (simp add: go_trunc_nonneg)
  have "of_int \<lfloor>x / y\<rfloor> \<le> x / y" "x / y < of_int \<lfloor>x / y\<rfloor> + 1" by linarith+
  then have "of_int \<lfloor>x / y\<rfloor> * y \<le> x" "x < (of_int \<lfloor>x / y\<rfloor> + 1) * y"
    using assms by (simp_all only: pos_le_divide_eq pos_divide_less_eq)
  then show ?thesis by (simp add: go_mod_def q algebra_simps)
qed

lemma go_mod_small:
  assumes "\<bar>x\<bar> < y"
  shows "go_mod x y = x"
proof -
  have y: "0 < y" using assms by linarith
  then have "- 1 < x / y" "x / y < 1" using assms by (auto simp: less_divide_eq)
  then have "go_trunc (x / y) = 0" by (auto simp: go_trunc_def floor_eq_iff simp del: divide_less_0_iff)
  then show ?thesis by (simp add: go_mod_def)
qed

lemma go_mod_add_period:
  assumes "0 \<le> x" "x < y"
  shows "go_mod (x + y) y = x"
proof -
  have "(x + y) / y = x / y + 1" using assms by (simp add: field_simps)
  moreover have "0 \<le> x / y" "x / y < 1" using assms by auto
  ultimately have "go_trunc ((x + y) / y) = 1"
    by (simp add: go_trunc_def floor_eq_iff)
  then show ?thesis by (simp add: go_mod_def)
qed

section \<open>What IEEE 754 guarantees of the rounding\<close>

text \<open>The least positive normal double.\<close>

definition min_normal :: real where
  "min_normal = 1 / 2 ^ 1022"

lemma min_normal_pos: "0 < min_normal"
  by (simp add: min_normal_def)

lemma min_normal_le: "n \<le> 1022 \<Longrightarrow> min_normal \<le> 1 / 2 ^ n"
  unfolding min_normal_def by (intro divide_left_mono power_increasing) auto

locale ieee =
  fixes m :: fenv
  assumes rnd_mono: "x \<le> y \<Longrightarrow> f_rnd m x \<le> f_rnd m y"
    and rnd_dyadic: "\<bar>k\<bar> \<le> 2 ^ 53 \<Longrightarrow> j \<le> 1022 \<Longrightarrow> f_rnd m (of_int k / 2 ^ j) = of_int k / 2 ^ j"
    and rnd_minus: "f_rnd m (- x) = - f_rnd m x"
    and rnd_rel: "min_normal \<le> \<bar>x\<bar> \<Longrightarrow> \<bar>f_rnd m x - x\<bar> \<le> \<bar>x\<bar> / 2 ^ 53"
begin

lemma rnd_of_int: "\<bar>k\<bar> \<le> 2 ^ 53 \<Longrightarrow> f_rnd m (of_int k) = of_int k"
  using rnd_dyadic[of k 0] by simp

lemma rnd_0 [simp]: "f_rnd m 0 = 0"
  using rnd_of_int[of 0] by simp

lemma rnd_1 [simp]: "f_rnd m 1 = 1"
  using rnd_of_int[of 1] by simp

lemma rnd_numeral: "(numeral n :: int) \<le> 2 ^ 53 \<Longrightarrow> f_rnd m (numeral n) = numeral n"
  using rnd_of_int[of "numeral n"] by simp

lemma rnd_nonneg: "0 \<le> x \<Longrightarrow> 0 \<le> f_rnd m x"
  using rnd_mono[of 0 x] by simp

lemma rnd_nonpos: "x \<le> 0 \<Longrightarrow> f_rnd m x \<le> 0"
  using rnd_mono[of x 0] by simp

lemma rnd_le_of_int: "\<bar>k\<bar> \<le> 2 ^ 53 \<Longrightarrow> x \<le> of_int k \<Longrightarrow> f_rnd m x \<le> of_int k"
  using rnd_mono[of x "of_int k"] by (simp add: rnd_of_int)

lemma rnd_ge_of_int: "\<bar>k\<bar> \<le> 2 ^ 53 \<Longrightarrow> of_int k \<le> x \<Longrightarrow> of_int k \<le> f_rnd m x"
  using rnd_mono[of "of_int k" x] by (simp add: rnd_of_int)

lemma rnd_unit: "0 \<le> x \<Longrightarrow> x \<le> 1 \<Longrightarrow> 0 \<le> f_rnd m x \<and> f_rnd m x \<le> 1"
  using rnd_mono[of 0 x] rnd_mono[of x 1] by simp

lemma rnd_err: "\<bar>f_rnd m x - x\<bar> \<le> \<bar>x\<bar> / 2 ^ 53 + min_normal"
proof (cases "min_normal \<le> \<bar>x\<bar>")
  case True
  then have "\<bar>f_rnd m x - x\<bar> \<le> \<bar>x\<bar> / 2 ^ 53" by (rule rnd_rel)
  then show ?thesis using min_normal_pos by linarith
next
  case False
  have t: "f_rnd m min_normal = min_normal" "f_rnd m (- min_normal) = - min_normal"
    using rnd_dyadic[of 1 1022] by (simp_all add: min_normal_def rnd_minus del: power_divide)
  have x: "- min_normal \<le> x" "x \<le> min_normal" "\<bar>x\<bar> < min_normal" using False by auto
  have r: "- min_normal \<le> f_rnd m x" "f_rnd m x \<le> min_normal"
    using rnd_mono[OF x(1)] rnd_mono[OF x(2)] t by auto
  have s: "0 \<le> x \<Longrightarrow> 0 \<le> f_rnd m x" "x \<le> 0 \<Longrightarrow> f_rnd m x \<le> 0"
    by (auto intro: rnd_nonneg rnd_nonpos)
  have "\<bar>f_rnd m x - x\<bar> \<le> min_normal" using x r s by (cases "0 \<le> x") auto
  moreover have "0 \<le> \<bar>x\<bar> / 2 ^ 53" by simp
  ultimately show ?thesis by linarith
qed

text \<open>The bound most proofs use: below \<open>2 ^ 13\<close>, one operation errs by at most \<open>2 ^ -40\<close>.\<close>

lemma rnd_abs_err:
  assumes "\<bar>x\<bar> \<le> 2 ^ 12"
  shows "\<bar>f_rnd m x - x\<bar> \<le> 1 / 2 ^ 40"
proof -
  have "\<bar>x\<bar> / 2 ^ 53 \<le> 2 ^ 12 / 2 ^ 53" using assms by (intro divide_right_mono) auto
  moreover have "min_normal \<le> 1 / 2 ^ 41" by (rule min_normal_le) simp
  moreover have "(2 :: real) ^ 12 / 2 ^ 53 = 1 / 2 ^ 41" by simp
  moreover have "(1 :: real) / 2 ^ 41 + 1 / 2 ^ 41 = 1 / 2 ^ 40" by simp
  ultimately show ?thesis using rnd_err[of x] by linarith
qed

end

section \<open>What the code relies on from package \<^verbatim>\<open>math\<close>\<close>

text \<open>
  Each elementary function is within a relative error of \<open>2 ^ -50\<close> of the function it is
  documented to compute (\<open>2 ^ -50\<close> absolute for sine and cosine); \<^verbatim>\<open>math.Atan2\<close> stays within
  \<^verbatim>\<open>[-Pi, Pi]\<close> and \<^verbatim>\<open>math.Pow\<close> is exact on the small powers of ten the code scales by.
\<close>

definition near :: "real \<Rightarrow> real \<Rightarrow> bool" where
  "near v x \<longleftrightarrow> \<bar>v - x\<bar> \<le> \<bar>x\<bar> / 2 ^ 50 + min_normal"

locale go_math = ieee +
  assumes cbrt_near: "0 \<le> x \<Longrightarrow> near (f_cbrt m x) (root 3 x)"
    and cbrt_nonneg: "0 \<le> x \<Longrightarrow> 0 \<le> f_cbrt m x"
    and hypot_near: "near (f_hypot m x y) (sqrt (x\<^sup>2 + y\<^sup>2))"
    and hypot_nonneg: "0 \<le> f_hypot m x y"
    and pow_near: "0 < x \<Longrightarrow> near (f_pow m x y) (x powr y)"
    and pow_ten: "n \<le> 3 \<Longrightarrow> f_pow m 10 (of_nat n) = 10 ^ n"
    and atan2_range: "\<bar>f_atan2 m y x\<bar> \<le> f_rnd m pi"
    and cos_near: "\<bar>f_cos m x - cos x\<bar> \<le> 1 / 2 ^ 50"
    and sin_near: "\<bar>f_sin m x - sin x\<bar> \<le> 1 / 2 ^ 50"
begin

lemma near_le: "near v x \<Longrightarrow> \<bar>x\<bar> \<le> 2 ^ 9 \<Longrightarrow> \<bar>v - x\<bar> \<le> 1 / 2 ^ 40"
proof -
  assume v: "near v x" and x: "\<bar>x\<bar> \<le> 2 ^ 9"
  have "\<bar>x\<bar> / 2 ^ 50 \<le> 2 ^ 9 / 2 ^ 50" using x by (intro divide_right_mono) auto
  moreover have "min_normal \<le> 1 / 2 ^ 41" by (rule min_normal_le) simp
  moreover have "(2 :: real) ^ 9 / 2 ^ 50 = 1 / 2 ^ 41" by simp
  moreover have "(1 :: real) / 2 ^ 41 + 1 / 2 ^ 41 = 1 / 2 ^ 40" by simp
  ultimately show ?thesis using v unfolding near_def by linarith
qed

end

end
