(* ===== verification/Color_Hex.thy ===== *)
theory Color_Hex
  imports Go_Float
begin

text \<open>
  \<^verbatim>\<open>internal/color/hex.go\<close> and the byte side of \<^verbatim>\<open>internal/color/oklab.go\<close>: a hex code, its three
  channels, and writing three float channels back as a hex code.  The lemmas show that what is
  written is always a normalized hex code, that reading it gives the quantized channels back, and
  that a normalized hex code survives the trip through its normalized float channels.

  \<^verbatim>\<open>NewHex\<close> calls the package \<^verbatim>\<open>strvalid\<close>, which is not in the repository; its parser is an argument.
\<close>

unbundle bit_operations_syntax

section \<open>Model\<close>

type_synonym hex = string

definition HexLen :: nat where
  "HexLen = 7"

definition hexDigit :: "char \<Rightarrow> int" where
  "hexDigit c =
     (if c \<ge> CHR ''0'' \<and> c \<le> CHR ''9'' then of_char c - of_char CHR ''0''
      else if c \<ge> CHR ''a'' \<and> c \<le> CHR ''f'' then (of_char c - of_char CHR ''a'') + 10
      else 0)"

text \<open>Go panics on an index past the end; every caller checks the length first.\<close>

definition channelByte :: "hex \<Rightarrow> nat \<Rightarrow> int" where
  "channelByte h i = push_bit 4 (hexDigit (h ! i)) OR hexDigit (h ! (i + 1))"

definition channelNormalized :: "fenv \<Rightarrow> hex \<Rightarrow> nat \<Rightarrow> real" where
  "channelNormalized m h i = fdiv m (of_int (channelByte h i)) 255"

definition RByte :: "hex \<Rightarrow> int" where "RByte h = channelByte h 1"
definition GByte :: "hex \<Rightarrow> int" where "GByte h = channelByte h 3"
definition BByte :: "hex \<Rightarrow> int" where "BByte h = channelByte h 5"

definition RNorm :: "fenv \<Rightarrow> hex \<Rightarrow> real" where "RNorm m h = channelNormalized m h 1"
definition GNorm :: "fenv \<Rightarrow> hex \<Rightarrow> real" where "GNorm m h = channelNormalized m h 3"
definition BNorm :: "fenv \<Rightarrow> hex \<Rightarrow> real" where "BNorm m h = channelNormalized m h 5"

text \<open>\<^verbatim>\<open>NewHex\<close>: \<^verbatim>\<open>parse\<close> is \<^verbatim>\<open>strvalid.ParseHex\<close> under \<^verbatim>\<open>hexCfg\<close>.\<close>

definition NewHex :: "(string \<Rightarrow> ('e, string) result) \<Rightarrow> string \<Rightarrow> ('e, hex) result" where
  "NewHex parse s = (case parse s of Inl err \<Rightarrow> Inl err | Inr parsed \<Rightarrow> Inr parsed)"

definition quantize :: "fenv \<Rightarrow> real \<Rightarrow> int" where
  "quantize m c = go_round (fmul m (min (max c 0) 1) 255)"

definition hex_digits :: string where
  "hex_digits = ''0123456789abcdef''"

text \<open>The loop of \<^verbatim>\<open>srgbToHex\<close> over the channels, writing two bytes for each.\<close>

fun putChannels :: "fenv \<Rightarrow> nat \<Rightarrow> real list \<Rightarrow> char list \<Rightarrow> char list" where
  "putChannels m i [] out = out"
| "putChannels m i (c # cs) out =
     (let v = quantize m c in
      putChannels m (i + 1) cs
        (out[1 + 2 * i := hex_digits ! nat (drop_bit 4 v), 2 + 2 * i := hex_digits ! nat (v AND 15)]))"

definition srgbToHex :: "fenv \<Rightarrow> real \<Rightarrow> real \<Rightarrow> real \<Rightarrow> hex" where
  "srgbToHex m red green blue =
     putChannels m 0 [red, green, blue] ((replicate HexLen (CHR 0x00))[0 := CHR ''#''])"

text \<open>What the code calls normalized: \<^verbatim>\<open>#rrggbb\<close> in lower case.\<close>

definition is_hex_digit :: "char \<Rightarrow> bool" where
  "is_hex_digit c \<longleftrightarrow> c \<in> set hex_digits"

definition normal_hex :: "hex \<Rightarrow> bool" where
  "normal_hex h \<longleftrightarrow> length h = HexLen \<and> h ! 0 = CHR ''#'' \<and> list_all is_hex_digit (tl h)"

section \<open>Lemmas\<close>

lemma hexDigit_range: "0 \<le> hexDigit c \<and> hexDigit c \<le> 15"
proof -
  have eq: "(of_char c :: int) = int (of_char c)" by (rule of_nat_of_char [symmetric])
  show ?thesis unfolding hexDigit_def less_eq_char_def eq by auto
qed

lemma nibbles: "0 \<le> (b :: int) \<Longrightarrow> b \<le> 15 \<Longrightarrow> push_bit 4 a OR b = 16 * a + b"
proof -
  assume "0 \<le> b" "b \<le> 15"
  then have b: "take_bit 4 b = b" by (simp add: take_bit_int_eq_self_iff)
  have "push_bit 4 a + b = push_bit 4 a OR b"
    by (rule disjunctive_add)
      (metis b bit_push_bit_iff bit_take_bit_iff linorder_not_less)
  then show ?thesis by (simp add: push_bit_eq_mult)
qed

lemma channelByte_eq: "channelByte h i = 16 * hexDigit (h ! i) + hexDigit (h ! (i + 1))"
  using hexDigit_range[of "h ! (i + 1)"] by (simp add: channelByte_def nibbles)

lemma channelByte_range: "0 \<le> channelByte h i \<and> channelByte h i \<le> 255"
  using hexDigit_range[of "h ! i"] hexDigit_range[of "h ! (i + 1)"]
  unfolding channelByte_eq by linarith

text \<open>Reading back the digit that a nibble is written as, by enumeration of the sixteen.\<close>

lemma all_nibbles: "map hexDigit hex_digits = map int [0..<16]"
  by (simp add: hex_digits_def hexDigit_def less_eq_char_def upt_rec)

lemma hexDigit_digits:
  assumes "0 \<le> n" "n \<le> 15"
  shows "hexDigit (hex_digits ! nat n) = n"
proof -
  have "nat n < length hex_digits" using assms by (simp add: hex_digits_def)
  then have "hexDigit (hex_digits ! nat n) = map int [0..<16] ! nat n"
    using all_nibbles nth_map[of "nat n" hex_digits hexDigit] by simp
  then show ?thesis using assms by simp
qed

lemma is_hex_digit_digits: "0 \<le> n \<Longrightarrow> n \<le> 15 \<Longrightarrow> is_hex_digit (hex_digits ! nat n)"
  unfolding is_hex_digit_def by (rule nth_mem) (simp add: hex_digits_def)

lemma digits_hexDigit:
  assumes "is_hex_digit c"
  shows "hex_digits ! nat (hexDigit c) = c"
  using assms unfolding is_hex_digit_def
  by (auto simp: hex_digits_def hexDigit_def less_eq_char_def)

lemma byte_nibbles:
  assumes "0 \<le> v" "v \<le> (255 :: int)"
  shows "0 \<le> drop_bit 4 v" "drop_bit 4 v \<le> 15" "0 \<le> v AND 15" "v AND 15 \<le> 15"
    "16 * drop_bit 4 v + (v AND 15) = v"
proof -
  have a: "v AND 15 = v mod 16" using take_bit_eq_mask[of 4 v] by (simp add: take_bit_eq_mod mask_eq_exp_minus_1)
  have d: "drop_bit 4 v = v div 16" by (simp add: drop_bit_eq_div)
  show "0 \<le> drop_bit 4 v" "drop_bit 4 v \<le> 15" "0 \<le> v AND 15" "v AND 15 \<le> 15"
    "16 * drop_bit 4 v + (v AND 15) = v"
    using assms unfolding a d by simp_all
qed

lemma channelByte_nibbles:
  "drop_bit 4 (channelByte h i) = hexDigit (h ! i)"
  "channelByte h i AND 15 = hexDigit (h ! (i + 1))"
proof -
  have u: "a = c \<and> b = d" if "16 * a + b = 16 * c + d" "0 \<le> b" "b \<le> 15" "0 \<le> d" "d \<le> 15"
    for a b c d :: int
  proof -
    have "a = (16 * a + b) div 16" "c = (16 * c + d) div 16" using that by auto
    then show ?thesis using that(1) by simp
  qed
  show "drop_bit 4 (channelByte h i) = hexDigit (h ! i)"
    "channelByte h i AND 15 = hexDigit (h ! (i + 1))"
    using u[of "drop_bit 4 (channelByte h i)" "channelByte h i AND 15" "hexDigit (h ! i)"
        "hexDigit (h ! (i + 1))"]
      byte_nibbles[of "channelByte h i"] channelByte_range[of h i]
      hexDigit_range[of "h ! (i + 1)"] channelByte_eq[of h i]
    by simp_all
qed

lemma srgbToHex_eq:
  "srgbToHex m r g b = CHR ''#'' # concat (map (\<lambda>c.
     [hex_digits ! nat (drop_bit 4 (quantize m c)), hex_digits ! nat (quantize m c AND 15)]) [r, g, b])"
  by (simp add: srgbToHex_def HexLen_def numeral_eq_Suc Let_def)

context ieee
begin

lemma quantize_range: "0 \<le> quantize m c \<and> quantize m c \<le> 255"
proof -
  have u: "0 \<le> min (max c 0) 1" "min (max c 0) 1 \<le> 1" by auto
  then have "of_int 0 \<le> fmul m (min (max c 0) 1) 255 \<and> fmul m (min (max c 0) 1) 255 \<le> of_int 255"
    unfolding fmul_def by (intro conjI rnd_ge_of_int rnd_le_of_int) auto
  then show ?thesis unfolding quantize_def
    using go_round_between[of 0 "fmul m (min (max c 0) 1) 255" 255] by simp
qed

lemma srgbToHex_normal: "normal_hex (srgbToHex m r g b)"
  using byte_nibbles[of "quantize m r"] byte_nibbles[of "quantize m g"] byte_nibbles[of "quantize m b"]
    quantize_range[of r] quantize_range[of g] quantize_range[of b]
  by (simp add: normal_hex_def srgbToHex_eq HexLen_def is_hex_digit_digits)

lemma srgbToHex_bytes:
  "RByte (srgbToHex m r g b) = quantize m r"
  "GByte (srgbToHex m r g b) = quantize m g"
  "BByte (srgbToHex m r g b) = quantize m b"
  using byte_nibbles[of "quantize m r"] byte_nibbles[of "quantize m g"] byte_nibbles[of "quantize m b"]
    quantize_range[of r] quantize_range[of g] quantize_range[of b]
  by (simp_all add: RByte_def GByte_def BByte_def channelByte_eq srgbToHex_eq hexDigit_digits)

lemma channelNormalized_range: "0 \<le> channelNormalized m h i \<and> channelNormalized m h i \<le> 1"
proof -
  have "of_int (channelByte h i) \<le> (of_int 255 :: real)"
    using channelByte_range[of h i] by (simp only: of_int_le_iff)
  then show ?thesis unfolding channelNormalized_def fdiv_def
    using channelByte_range[of h i] by (intro rnd_unit) auto
qed

text \<open>A byte survives division by 255, multiplication by 255 and rounding.\<close>

lemma quantize_byte:
  assumes "0 \<le> k" "k \<le> 255"
  shows "quantize m (fdiv m (of_int k) 255) = k"
proof -
  let ?x = "of_int k / 255 :: real"
  have k: "0 \<le> (of_int k :: real)" "of_int k \<le> (255 :: real)" using assms by auto
  have x: "0 \<le> ?x" "?x \<le> 1" using k by auto
  define y where "y = f_rnd m ?x"
  have y: "0 \<le> y" "y \<le> 1" unfolding y_def using rnd_unit[OF x] by auto
  have e1: "\<bar>y - ?x\<bar> \<le> 1 / 2 ^ 40" unfolding y_def using x by (intro rnd_abs_err) auto
  have e2: "\<bar>f_rnd m (y * 255) - y * 255\<bar> \<le> 1 / 2 ^ 40" using y by (intro rnd_abs_err) auto
  have "y * 255 - of_int k = 255 * (y - ?x)" by simp
  then have "\<bar>y * 255 - of_int k\<bar> = 255 * \<bar>y - ?x\<bar>" by (simp only: abs_mult abs_numeral)
  then have "\<bar>y * 255 - of_int k\<bar> \<le> 255 * (1 / 2 ^ 40)" using e1 by linarith
  then have "\<bar>f_rnd m (y * 255) - of_int k\<bar> \<le> 256 * (1 / 2 ^ 40)" using e2 by linarith
  then have "\<bar>f_rnd m (y * 255) - of_int k\<bar> < 1 / 2" by simp
  then have "go_round (f_rnd m (y * 255)) = k" by (rule go_round_unique)
  then show ?thesis using y by (simp add: quantize_def fmul_def fdiv_def y_def)
qed

lemma srgbToHex_channels:
  assumes "normal_hex h"
  shows "srgbToHex m (RNorm m h) (GNorm m h) (BNorm m h) = h"
proof -
  obtain c1 c2 c3 c4 c5 c6 where h: "h = [CHR ''#'', c1, c2, c3, c4, c5, c6]"
    using assms by (auto simp: normal_hex_def HexLen_def numeral_eq_Suc length_Suc_conv)
  have d: "is_hex_digit c1" "is_hex_digit c2" "is_hex_digit c3" "is_hex_digit c4"
    "is_hex_digit c5" "is_hex_digit c6"
    using assms by (auto simp: normal_hex_def h)
  have n: "drop_bit 4 (channelByte h i) = hexDigit (h ! i)"
    "channelByte h i AND 15 = hexDigit (h ! (i + 1))" for i
    by (simp_all add: channelByte_nibbles)
  show ?thesis
    using d channelByte_range[of h] n[of 1] n[of 3] n[of 5]
    by (simp add: srgbToHex_eq RNorm_def GNorm_def BNorm_def channelNormalized_def quantize_byte
        digits_hexDigit h)
qed

end

end
