(* ===== verification/Domain.thy ===== *)
theory Domain
  imports Go_Errors Color_Hex
begin

text \<open>
  The data of the application: \<^verbatim>\<open>internal/user\<close>, \<^verbatim>\<open>internal/clt\<close>, \<^verbatim>\<open>internal/icon\<close>, the token of
  \<^verbatim>\<open>internal/auth\<close> and the colour entry of \<^verbatim>\<open>internal/color\<close>, with the functions that validate
  what a client sends.  Package \<^verbatim>\<open>strvalid\<close> is not in the repository: its functions are the fields
  of a record that the validating functions take, and the configurations the code passes to it
  are modelled as the code writes them.
\<close>

section \<open>Time and identifiers\<close>

text \<open>A \<^verbatim>\<open>time.Time\<close>: nanoseconds since the Unix epoch and the offset of its location, in minutes.\<close>

datatype gotime = Time (unix_nano: int) (zone_min: int)

definition UTC :: "gotime \<Rightarrow> gotime" where
  "UTC t = Time (unix_nano t) 0"

type_synonym user_id = int
type_synonym uuid = "128 word"
type_synonym clt_id = uuid
type_synonym bytes = string

section \<open>Entities\<close>

record user =
  user_ID :: user_id
  user_Nickname :: string
  user_PasswordHash :: bytes
  user_CreatedAt :: gotime

record collection =
  col_ID :: clt_id
  col_Name :: string
  col_IconSlug :: string
  col_IconAccent :: hex
  col_IsDefault :: bool
  col_CreatedAt :: gotime

record create_params =
  cp_Name :: string
  cp_Icon :: string
  cp_Accent :: hex
  cp_IsDefault :: bool

text \<open>A nil pointer is \<^verbatim>\<open>None\<close>.\<close>

record update_params =
  up_Name :: "string option"
  up_Icon :: "string option"
  up_Accent :: "hex option"

record color =
  color_Hex :: hex
  color_CreatedAt :: gotime

record token =
  tok_Plaintext :: string
  tok_Hash :: bytes
  tok_UserID :: user_id
  tok_Expiry :: gotime

section \<open>Icons\<close>

type_synonym slug = string

definition icon_Default :: slug where "icon_Default = ''square''"

definition slugs :: "slug list" where
  "slugs =
    [''anchor'', ''blend'', ''brush'', ''camera'', ''cat'', ''coffee'', ''crown'', ''droplet'',
     ''fish'', ''flower'', ''heart'', ''landmark'', ''layers'', ''leaf'', ''moon'', ''mountain'',
     ''music'', ''paintbrush'', ''palette'', ''pipette'', ''snowflake'', ''square'', ''star'',
     ''sun'', ''tag'']"

text \<open>
  \<^verbatim>\<open>slices.BinarySearch\<close> of the standard library: the least index whose element is not below the
  target, and whether the target is there.
\<close>

function searchLoop :: "('a::linorder) list \<Rightarrow> 'a \<Rightarrow> nat \<Rightarrow> nat \<Rightarrow> nat" where
  "searchLoop xs t i j =
     (if i < j then
        let h = (i + j) div 2 in
        if xs ! h < t then searchLoop xs t (h + 1) j else searchLoop xs t i h
      else i)"
  by pat_completeness auto
termination
  by (relation "measure (\<lambda>(xs, t, i, j). j - i)") auto

declare searchLoop.simps [simp del]

definition BinarySearch :: "('a::linorder) list \<Rightarrow> 'a \<Rightarrow> nat \<times> bool" where
  "BinarySearch xs t =
     (let i = searchLoop xs t 0 (length xs) in (i, i < length xs \<and> xs ! i = t))"

definition ParseSlug :: "string \<Rightarrow> (go_error, slug) result" where
  "ParseSlug s =
     (case BinarySearch slugs s of (_, found) \<Rightarrow>
        if \<not> found then Inl (Errorf s [Sentinel ErrUnknownIcon]) else Inr s)"

section \<open>Validation\<close>

text \<open>Where a separator may stand in a string that \<^verbatim>\<open>strvalid\<close> accepts.\<close>

datatype sep_rule = SepNone | SepInner

record sv_config =
  svc_Subject :: string
  svc_MinLen :: nat
  svc_MaxLen :: nat
  svc_Digits :: bool
  svc_Underscore :: sep_rule
  svc_Dash :: sep_rule
  svc_AllowRepeatSep :: bool
  svc_EchoValue :: bool

record sv_unicode_config =
  svu_Subject :: string
  svu_MinRunes :: nat
  svu_MaxRunes :: nat

record sv_normalize_config =
  svn_TrimSpaces :: bool
  svn_Lowercase :: bool

record sv_parse_config =
  svp_Subject :: string
  svp_EchoValue :: bool

record strvalid =
  sv_ParseHex :: "sv_parse_config \<Rightarrow> string \<Rightarrow> (go_error, string) result"
  sv_ParseUUID :: "sv_parse_config \<Rightarrow> string \<Rightarrow> (go_error, uuid) result"
  sv_Normalize :: "sv_normalize_config \<Rightarrow> string \<Rightarrow> string"
  sv_Validate :: "sv_config \<Rightarrow> string \<Rightarrow> go_error option"
  sv_ValidateUnicode :: "sv_unicode_config \<Rightarrow> string \<Rightarrow> go_error option"

definition hexCfg :: sv_parse_config where
  "hexCfg = \<lparr>svp_Subject = ''hex color'', svp_EchoValue = True\<rparr>"

definition NewHexSV :: "strvalid \<Rightarrow> string \<Rightarrow> (go_error, hex) result" where
  "NewHexSV sv s = NewHex (sv_ParseHex sv hexCfg) s"

definition idCfg :: sv_parse_config where
  "idCfg = \<lparr>svp_Subject = ''collection id'', svp_EchoValue = True\<rparr>"

definition ParseID :: "strvalid \<Rightarrow> string \<Rightarrow> (go_error, clt_id) result" where
  "ParseID sv s =
     (case sv_ParseUUID sv idCfg s of Inl err \<Rightarrow> Inl err | Inr parsed \<Rightarrow> Inr parsed)"

definition MinNicknameLen :: nat where "MinNicknameLen = 3"
definition MaxNicknameLen :: nat where "MaxNicknameLen = 30"

definition nicknameCfg :: sv_config where
  "nicknameCfg = \<lparr>svc_Subject = ''nickname'', svc_MinLen = MinNicknameLen, svc_MaxLen = MaxNicknameLen,
     svc_Digits = True, svc_Underscore = SepInner, svc_Dash = SepInner,
     svc_AllowRepeatSep = True, svc_EchoValue = False\<rparr>"

definition NormalizeNickname :: "strvalid \<Rightarrow> string \<Rightarrow> (go_error, string) result" where
  "NormalizeNickname sv s =
     (let nick = sv_Normalize sv \<lparr>svn_TrimSpaces = True, svn_Lowercase = True\<rparr> s in
      case sv_Validate sv nicknameCfg nick of Some err \<Rightarrow> Inl err | None \<Rightarrow> Inr nick)"

definition MinNameLen :: nat where "MinNameLen = 1"
definition MaxNameLen :: nat where "MaxNameLen = 60"

definition nameCfg :: sv_unicode_config where
  "nameCfg = \<lparr>svu_Subject = ''collection name'', svu_MinRunes = MinNameLen, svu_MaxRunes = MaxNameLen\<rparr>"

definition NormalizeName :: "strvalid \<Rightarrow> string \<Rightarrow> (go_error, string) result" where
  "NormalizeName sv s =
     (let name = sv_Normalize sv \<lparr>svn_TrimSpaces = True, svn_Lowercase = False\<rparr> s in
      case sv_ValidateUnicode sv nameCfg name of Some err \<Rightarrow> Inl err | None \<Rightarrow> Inr name)"

definition DefIconSlug :: slug where "DefIconSlug = icon_Default"
definition DefIconAccent :: hex where "DefIconAccent = ''#dbd7d0''"

section \<open>Lemmas on the search\<close>

lemma searchLoop_stop: "\<not> i < j \<Longrightarrow> searchLoop xs t i j = i"
  by (subst searchLoop.simps) simp

lemma searchLoop_bounds:
  "i \<le> j \<Longrightarrow> i \<le> searchLoop xs t i j \<and> searchLoop xs t i j \<le> j"
proof (induction xs t i j rule: searchLoop.induct)
  case (1 xs t i j)
  show ?case
  proof (cases "i < j")
    case True
    let ?h = "(i + j) div 2"
    have h: "i \<le> ?h" "?h < j" using True by auto
    show ?thesis
    proof (cases "xs ! ?h < t")
      case less: True
      have "?h + 1 \<le> searchLoop xs t (?h + 1) j \<and> searchLoop xs t (?h + 1) j \<le> j"
        using "1.IH"(1)[OF True refl less] h by simp
      then show ?thesis using True less h by (simp add: searchLoop.simps[of xs t i j] Let_def)
    next
      case ge: False
      have "i \<le> searchLoop xs t i ?h \<and> searchLoop xs t i ?h \<le> ?h"
        using "1.IH"(2)[OF True refl ge] h by simp
      then show ?thesis using True ge h by (simp add: searchLoop.simps[of xs t i j] Let_def)
    qed
  next
    case False
    then show ?thesis using "1.prems" by (simp add: searchLoop_stop)
  qed
qed

text \<open>Everything before the answer is below the target, everything from it on is not.\<close>

lemma searchLoop_split:
  assumes "sorted xs" and "i \<le> j" and "j \<le> length xs"
    and "\<forall>k < i. xs ! k < t" and "\<forall>k. j \<le> k \<and> k < length xs \<longrightarrow> t \<le> xs ! k"
  shows "(\<forall>k < searchLoop xs t i j. xs ! k < t) \<and>
    (\<forall>k. searchLoop xs t i j \<le> k \<and> k < length xs \<longrightarrow> t \<le> xs ! k)"
  using assms
proof (induction xs t i j rule: searchLoop.induct)
  case (1 xs t i j)
  show ?case
  proof (cases "i < j")
    case True
    let ?h = "(i + j) div 2"
    have h: "i \<le> ?h" "?h < j" "?h < length xs" using True "1.prems" by auto
    show ?thesis
    proof (cases "xs ! ?h < t")
      case less: True
      have "\<forall>k < ?h + 1. xs ! k < t"
      proof (intro allI impI)
        fix k assume "k < ?h + 1"
        then have "xs ! k \<le> xs ! ?h" using h "1.prems"(1) by (intro sorted_nth_mono) auto
        then show "xs ! k < t" using less by simp
      qed
      moreover have "searchLoop xs t i j = searchLoop xs t (?h + 1) j"
        using True less by (subst searchLoop.simps) (simp add: Let_def)
      ultimately show ?thesis
        using "1.IH"(1)[OF True refl less "1.prems"(1) _ "1.prems"(3) _ "1.prems"(5)] h by simp
    next
      case ge: False
      have "\<forall>k. ?h \<le> k \<and> k < length xs \<longrightarrow> t \<le> xs ! k"
      proof (intro allI impI)
        fix k assume "?h \<le> k \<and> k < length xs"
        then have "xs ! ?h \<le> xs ! k" using "1.prems"(1) by (intro sorted_nth_mono) auto
        then show "t \<le> xs ! k" using ge by simp
      qed
      moreover have "searchLoop xs t i j = searchLoop xs t i ?h"
        using True ge by (subst searchLoop.simps) (simp add: Let_def)
      ultimately show ?thesis
        using "1.IH"(2)[OF True refl ge "1.prems"(1) h(1) _ "1.prems"(4)] h by simp
    qed
  next
    case False
    then have "j \<le> i" by simp
    then show ?thesis unfolding searchLoop_stop[OF False]
      using "1.prems"(4,5) le_trans by blast
  qed
qed

lemma BinarySearch_found:
  assumes "sorted xs"
  shows "snd (BinarySearch xs t) \<longleftrightarrow> t \<in> set xs"
proof -
  let ?i = "searchLoop xs t 0 (length xs)"
  have s: "(\<forall>k < ?i. xs ! k < t) \<and> (\<forall>k. ?i \<le> k \<and> k < length xs \<longrightarrow> t \<le> xs ! k)"
    using assms by (intro searchLoop_split) auto
  have "xs ! ?i = t" if k: "k < length xs" "xs ! k = t" for k
  proof -
    have "?i \<le> k" using s k by (metis less_irrefl linorder_not_less)
    then have "xs ! ?i \<le> t" "t \<le> xs ! ?i" using s k assms sorted_nth_mono[of xs ?i k] by auto
    then show ?thesis by simp
  qed
  moreover have "?i < length xs" if k: "k < length xs" "xs ! k = t" for k
    using s k by (metis less_irrefl linorder_not_less order.strict_trans1)
  ultimately show ?thesis
    by (auto simp: BinarySearch_def Let_def in_set_conv_nth)
qed

lemma slugs_sorted: "sorted slugs"
  unfolding slugs_def by code_simp

end
