(* ===== verification/Go_Time.thy ===== *)
theory Go_Time
  imports Domain "HOL-Library.Monad_Syntax"
begin

text \<open>
  \<^verbatim>\<open>Time.Format\<close> and \<^verbatim>\<open>time.Parse\<close> of Go's standard library for the layout \<^verbatim>\<open>RFC3339Nano\<close>, which the
  cursor uses: the civil date of a day count, the printed form with its trimmed fraction and zone,
  and the parser with what it accepts beyond that form (a one-digit hour, a comma before the
  fraction, more than nine fractional digits, offsets up to 24:60).
\<close>

section \<open>Civil dates\<close>

text \<open>Days from 0001-01-01 to the first day of year \<^verbatim>\<open>z + 1\<close>.\<close>

definition yearDays :: "int \<Rightarrow> int" where
  "yearDays z = 365 * z + z div 4 - z div 100 + z div 400"

definition isLeap :: "int \<Rightarrow> bool" where
  "isLeap y \<longleftrightarrow> y mod 4 = 0 \<and> (y mod 100 \<noteq> 0 \<or> y mod 400 = 0)"

definition monthLens :: "bool \<Rightarrow> nat list" where
  "monthLens leap = [31, if leap then 29 else 28, 31, 30, 31, 30, 31, 31, 30, 31, 30, 31]"

definition daysIn :: "nat \<Rightarrow> int \<Rightarrow> nat" where
  "daysIn mo y = monthLens (isLeap y) ! (mo - 1)"

fun pickMonth :: "nat \<Rightarrow> nat \<Rightarrow> nat list \<Rightarrow> nat \<times> nat" where
  "pickMonth k yd [] = (k, yd)"
| "pickMonth k yd (d # ds) = (if yd < d then (k, yd) else pickMonth (Suc k) (yd - d) ds)"

definition yearOf :: "int \<Rightarrow> int" where
  "yearOf n = (let z = (400 * n) div 146097 in if yearDays (z + 1) \<le> n then z + 2 else z + 1)"

text \<open>Year, month and day of a count of days since 0001-01-01, and back.\<close>

definition civil :: "int \<Rightarrow> int \<times> nat \<times> nat" where
  "civil n =
     (let y = yearOf n in
      case pickMonth 1 (nat (n - yearDays (y - 1))) (monthLens (isLeap y)) of (mo, d) \<Rightarrow> (y, mo, d + 1))"

definition dayNumber :: "int \<Rightarrow> nat \<Rightarrow> nat \<Rightarrow> int" where
  "dayNumber y mo d = yearDays (y - 1) + int (sum_list (take (mo - 1) (monthLens (isLeap y)))) + int d - 1"

definition epochDays :: int where "epochDays = 719162"

lemma yearOf_bounds: "yearDays (yearOf n - 1) \<le> n \<and> n < yearDays (yearOf n)"
proof -
  define z where "z = (400 * n) div 146097"
  have z: "146097 * z \<le> 400 * n" "400 * n < 146097 * z + 146097"
    unfolding z_def using pos_mod_bound[of 146097 "400 * n"] pos_mod_sign[of 146097 "400 * n"]
      mult_div_mod_eq[of 146097 "400 * n"] by linarith+
  have q: "4 * (x div 4) \<le> x" "x \<le> 4 * (x div 4) + 3" "100 * (x div 100) \<le> x" "x \<le> 100 * (x div 100) + 99"
    "400 * (x div 400) \<le> x" "x \<le> 400 * (x div 400) + 399" for x :: int by linarith+
  have up: "400 * (365 * x + a - b + c) \<le> 146097 * x + 396"
    if "4 * a \<le> x" "x \<le> 100 * b + 99" "400 * c \<le> x" for a b c x :: int
  proof -
    have "400 * a \<le> 100 * x" "4 * x \<le> 400 * b + 396" using that by linarith+
    then show ?thesis using that by (simp add: algebra_simps)
  qed
  have down: "146097 * x - 699 \<le> 400 * (365 * x + a - b + c)"
    if "x \<le> 4 * a + 3" "100 * b \<le> x" "x \<le> 400 * c + 399" for a b c x :: int
  proof -
    have "100 * x \<le> 400 * a + 300" "400 * b \<le> 4 * x" using that by linarith+
    then show ?thesis using that by (simp add: algebra_simps)
  qed
  have lo: "400 * yearDays x \<le> 146097 * x + 396" for x
    unfolding yearDays_def by (rule up[OF q(1,4,5)])
  have hi: "146097 * x - 699 \<le> 400 * yearDays x" for x
    unfolding yearDays_def by (rule down[OF q(2,3,6)])
  have "yearDays z \<le> n" using lo[of z] z by linarith
  moreover have "400 * n < 400 * yearDays (z + 2)" using hi[of "z + 2"] z(2) by (simp add: algebra_simps)
  then have "n < yearDays (z + 2)" by simp
  moreover have "z + 2 - 1 = z + 1" "z + 1 - 1 = z" by simp_all
  ultimately show ?thesis unfolding yearOf_def Let_def z_def[symmetric] by (metis linorder_not_le)
qed

lemma div_step:
  assumes "0 < k"
  shows "y div k - (y - 1) div k = (if k dvd y then 1 else (0::int))"
proof (cases "k dvd y")
  case True
  then obtain q where q: "y = k * q" by (elim dvdE)
  have "(y - 1) div k = q - 1"
    by (rule int_div_pos_eq[where r = "k - 1"]) (use assms q in \<open>simp_all add: algebra_simps\<close>)
  then show ?thesis using True q assms by simp
next
  case False
  then have "y mod k \<noteq> 0" "0 \<le> y mod k" "y mod k < k" using assms by (simp_all add: dvd_eq_mod_eq_0)
  then have "(y - 1) div k = y div k"
    by (intro int_div_pos_eq[where r = "y mod k - 1"]) simp_all
  then show ?thesis using False by simp
qed

lemma year_length: "yearDays y - yearDays (y - 1) = int (sum_list (monthLens (isLeap y)))"
proof -
  have "yearDays y - yearDays (y - 1) = 365 + (if 4 dvd y then 1 else 0) - (if 100 dvd y then 1 else 0)
      + (if 400 dvd y then 1 else 0)"
    using div_step[of 4 y] div_step[of 100 y] div_step[of 400 y] by (simp add: yearDays_def)
  moreover have "400 dvd y \<Longrightarrow> 100 dvd y" by (rule dvd_trans[of 100 400 y]) simp_all
  moreover have "100 dvd y \<Longrightarrow> 4 dvd y" by (rule dvd_trans[of 4 100 y]) simp_all
  moreover have "isLeap y \<longleftrightarrow> 4 dvd y \<and> (\<not> 100 dvd y \<or> 400 dvd y)"
    by (simp only: isLeap_def dvd_eq_mod_eq_0)
  ultimately show ?thesis
    by (cases "4 dvd y"; cases "100 dvd y"; cases "400 dvd y") (simp_all add: monthLens_def)
qed

lemma pickMonth_correct:
  "yd < sum_list ds \<Longrightarrow> \<exists>i < length ds. \<exists>r < ds ! i. pickMonth k yd ds = (k + i, r) \<and> sum_list (take i ds) + r = yd"
proof (induction ds arbitrary: k yd)
  case (Cons d ds)
  show ?case
  proof (cases "yd < d")
    case False
    then have "yd - d < sum_list ds" using Cons.prems by simp
    from Cons.IH[OF this, of "Suc k"] obtain i r where "i < length ds" "r < ds ! i"
      "pickMonth (Suc k) (yd - d) ds = (Suc k + i, r)" "sum_list (take i ds) + r = yd - d" by blast
    then show ?thesis using False by (intro exI[of _ "Suc i"] conjI exI[of _ r]) auto
  qed auto
qed simp

text \<open>A day count and its civil date determine each other.\<close>

lemma civil_correct:
  assumes "civil n = (y, mo, d)"
  shows "dayNumber y mo d = n" "1 \<le> mo" "mo \<le> 12" "1 \<le> d" "d \<le> daysIn mo y" "y = yearOf n"
proof -
  let ?y = "yearOf n"
  let ?yd = "nat (n - yearDays (?y - 1))"
  have b: "yearDays (?y - 1) \<le> n" "n < yearDays ?y" using yearOf_bounds by auto
  then have "int ?yd < int (sum_list (monthLens (isLeap ?y)))" unfolding year_length[symmetric] by simp
  then have "?yd < sum_list (monthLens (isLeap ?y))" by linarith
  then obtain i r where i: "i < length (monthLens (isLeap ?y))" "r < monthLens (isLeap ?y) ! i"
    "pickMonth 1 ?yd (monthLens (isLeap ?y)) = (1 + i, r)" "sum_list (take i (monthLens (isLeap ?y))) + r = ?yd"
    using pickMonth_correct[of ?yd "monthLens (isLeap ?y)" 1] by blast
  have e: "y = ?y" "mo = Suc i" "d = Suc r" using assms i(3) by (auto simp: civil_def Let_def)
  show "y = yearOf n" by (rule e(1))
  have "int (sum_list (take i (monthLens (isLeap ?y)))) + int r = n - yearDays (?y - 1)"
    using i(4) b(1) by (metis int_nat_eq of_nat_add diff_ge_0_iff_ge)
  then show "dayNumber y mo d = n" by (simp add: dayNumber_def e)
  show "1 \<le> mo" "mo \<le> 12" "1 \<le> d" "d \<le> daysIn mo y"
    using i(1,2) by (simp_all add: e daysIn_def monthLens_def split: if_splits)
qed

section \<open>Digits\<close>

definition digit :: "nat \<Rightarrow> char" where
  "digit n = char_of (48 + n mod 10)"

definition isDigit :: "char \<Rightarrow> bool" where
  "isDigit c \<longleftrightarrow> 48 \<le> (of_char c :: nat) \<and> (of_char c :: nat) \<le> 57"

definition digitVal :: "char \<Rightarrow> nat" where
  "digitVal c = of_char c - 48"

fun fixed :: "nat \<Rightarrow> nat \<Rightarrow> string" where
  "fixed 0 n = []"
| "fixed (Suc w) n = fixed w (n div 10) @ [digit n]"

fun decimal :: "nat \<Rightarrow> string" where
  "decimal n = (if n < 10 then [digit n] else decimal (n div 10) @ [digit n])"

declare decimal.simps [simp del]

definition atoi :: "string \<Rightarrow> nat" where
  "atoi s = foldl (\<lambda>a c. 10 * a + digitVal c) 0 s"

text \<open>\<^verbatim>\<open>appendInt(x, width)\<close>: zero-padded, longer when the number is.\<close>

definition appendInt :: "int \<Rightarrow> nat \<Rightarrow> string" where
  "appendInt x width =
     (let n = nat \<bar>x\<bar> in
      (if x < 0 then ''-'' else []) @ (if n < 10 ^ width then fixed width n else decimal n))"

section \<open>Format\<close>

definition fraction :: "nat \<Rightarrow> string" where
  "fraction nano = (if nano = 0 then []
     else CHR ''.'' # rev (dropWhile (\<lambda>c. c = CHR ''0'') (rev (fixed 9 nano))))"

definition zoneText :: "int \<Rightarrow> string" where
  "zoneText z = (if z = 0 then ''Z''
     else (if z < 0 then ''-'' else ''+'') @ fixed 2 (nat \<bar>z\<bar> div 60) @ '':'' @ fixed 2 (nat \<bar>z\<bar> mod 60))"

definition Format :: "gotime \<Rightarrow> string" where
  "Format t =
     (let sec = unix_nano t div 1000000000 + zone_min t * 60;
          sod = nat (sec mod 86400) in
      case civil (sec div 86400 + epochDays) of (y, mo, d) \<Rightarrow>
        appendInt y 4 @ ''-'' @ fixed 2 mo @ ''-'' @ fixed 2 d @ ''T'' @
        fixed 2 (sod div 3600) @ '':'' @ fixed 2 (sod div 60 mod 60) @ '':'' @ fixed 2 (sod mod 60) @
        fraction (nat (unix_nano t mod 1000000000)) @ zoneText (zone_min t))"

section \<open>Parse\<close>

type_synonym 'a scanner = "string \<Rightarrow> ('a \<times> string) option"

definition literal :: "char \<Rightarrow> unit scanner" where
  "literal c s = (case s of [] \<Rightarrow> None | x # r \<Rightarrow> if x = c then Some ((), r) else None)"

text \<open>One or two digits; two when \<^verbatim>\<open>two\<close> is set.\<close>

definition getnum :: "bool \<Rightarrow> nat scanner" where
  "getnum two s =
     (case s of
        [] \<Rightarrow> None
      | c # r \<Rightarrow>
          if \<not> isDigit c then None
          else (case r of
                  d # r' \<Rightarrow> if isDigit d then Some (digitVal c * 10 + digitVal d, r')
                           else if two then None else Some (digitVal c, r)
                | [] \<Rightarrow> if two then None else Some (digitVal c, r)))"

definition getYear :: "nat scanner" where
  "getYear s = (if length s \<ge> 4 \<and> list_all isDigit (take 4 s) then Some (atoi (take 4 s), drop 4 s) else None)"

text \<open>A separator with at least one digit; digits past the ninth are dropped.\<close>

definition getFraction :: "nat scanner" where
  "getFraction s =
     (case s of
        c # d # r \<Rightarrow>
          if (c = CHR ''.'' \<or> c = CHR '','') \<and> isDigit d
          then let ds = takeWhile isDigit (d # r); kept = take 9 ds in
               Some (atoi kept * 10 ^ (9 - length kept), dropWhile isDigit (d # r))
          else Some (0, s)
      | _ \<Rightarrow> Some (0, s))"

definition getZone :: "int scanner" where
  "getZone s =
     (case s of
        [] \<Rightarrow> None
      | c # r \<Rightarrow>
          if c = CHR ''Z'' then Some (0, r)
          else if length s < 6 \<or> s ! 3 \<noteq> CHR '':'' then None
          else do {
            (hr, _) \<leftarrow> getnum True (take 2 r);
            (mm, _) \<leftarrow> getnum True (take 2 (drop 4 s));
            if hr > 24 \<or> mm > 60 then None
            else if c = CHR ''+'' then Some (int (hr * 60 + mm), drop 6 s)
            else if c = CHR ''-'' then Some (- int (hr * 60 + mm), drop 6 s)
            else None
          })"

definition guard_opt :: "bool \<Rightarrow> unit option" where
  "guard_opt b = (if b then Some () else None)"

definition ParseTime :: "string \<Rightarrow> gotime option" where
  "ParseTime s = do {
     (y, s) \<leftarrow> getYear s;
     (_, s) \<leftarrow> literal (CHR ''-'') s;
     (mo, s) \<leftarrow> getnum True s;
     _ \<leftarrow> guard_opt (1 \<le> mo \<and> mo \<le> 12);
     (_, s) \<leftarrow> literal (CHR ''-'') s;
     (d, s) \<leftarrow> getnum True s;
     (_, s) \<leftarrow> literal (CHR ''T'') s;
     (h, s) \<leftarrow> getnum False s;
     _ \<leftarrow> guard_opt (h < 24);
     (_, s) \<leftarrow> literal (CHR '':'') s;
     (mi, s) \<leftarrow> getnum True s;
     _ \<leftarrow> guard_opt (mi < 60);
     (_, s) \<leftarrow> literal (CHR '':'') s;
     (se, s) \<leftarrow> getnum True s;
     _ \<leftarrow> guard_opt (se < 60);
     (nano, s) \<leftarrow> getFraction s;
     (z, s) \<leftarrow> getZone s;
     _ \<leftarrow> guard_opt (s = []);
     _ \<leftarrow> guard_opt (1 \<le> d \<and> d \<le> daysIn mo (int y));
     Some (Time (((dayNumber (int y) mo d - epochDays) * 86400 + int (h * 3600 + mi * 60 + se) - z * 60)
       * 1000000000 + int nano) z)
   }"

section \<open>Round trip\<close>

lemma of_char_digit: "(of_char (digit n) :: nat) = 48 + n mod 10"
  by (simp add: digit_def)

lemma digit_simps [simp]: "isDigit (digit n)" "digitVal (digit n) = n mod 10"
  by (simp_all add: isDigit_def digitVal_def of_char_digit)

lemma digit_zero: "digit n = CHR ''0'' \<longleftrightarrow> n mod 10 = 0"
proof
  assume "digit n = CHR ''0''"
  then have "(of_char (digit n) :: nat) = of_char (CHR ''0'')" by simp
  then show "n mod 10 = 0" by (simp only: of_char_digit) simp
next
  have "char_of (48 :: nat) = CHR ''0''" by code_simp
  then show "digit n = CHR ''0''" if "n mod 10 = 0" using that by (simp add: digit_def)
qed

lemma fixed_length [simp]: "length (fixed w n) = w"
  by (induction w n rule: fixed.induct) auto

lemma fixed_digits: "list_all isDigit (fixed w n)"
  by (induction w n rule: fixed.induct) auto

lemma atoi_append: "atoi (s @ [c]) = 10 * atoi s + digitVal c"
  by (simp add: atoi_def)

lemma atoi_fixed: "atoi (fixed w n) = n mod 10 ^ w"
proof (induction w n rule: fixed.induct)
  case (1 n)
  then show ?case by (simp add: atoi_def)
next
  case (2 w n)
  have "n mod 10 ^ Suc w = 10 * (n div 10 mod 10 ^ w) + n mod 10"
    by (simp add: mod_mult2_eq mult.commute)
  then show ?case using 2 by (simp add: atoi_append)
qed

lemma getYear_fixed: "y < 10000 \<Longrightarrow> getYear (fixed 4 y @ s) = Some (y, s)"
  using fixed_digits[of 4 y] by (simp add: getYear_def atoi_fixed)

lemma fixed_2: "fixed 2 n = [digit (n div 10), digit n]"
  by (simp add: numeral_2_eq_2)

lemma getnum_fixed: "n < 100 \<Longrightarrow> getnum two (fixed 2 n @ s) = Some (n, s)"
  by (simp add: fixed_2 getnum_def)

lemma literal_Cons: "literal c (c # s) = Some ((), s)"
  by (simp add: literal_def)

lemma atoi_zeros: "atoi (s @ replicate k (CHR ''0'')) = atoi s * 10 ^ k"
proof (induction k)
  case (Suc k)
  have "replicate (Suc k) (CHR ''0'') = replicate k (CHR ''0'') @ [CHR ''0'']"
    by (simp add: replicate_append_same)
  then have "atoi (s @ replicate (Suc k) (CHR ''0'')) = 10 * atoi (s @ replicate k (CHR ''0'')) + digitVal (CHR ''0'')"
    using atoi_append[of "s @ replicate k (CHR ''0'')" "CHR ''0''"] by simp
  then show ?case using Suc.IH by (simp add: digitVal_def)
qed simp

lemma trim_zeros:
  fixes xs :: string
  defines "ds \<equiv> rev (dropWhile (\<lambda>c. c = CHR ''0'') (rev xs))"
  shows "xs = ds @ replicate (length xs - length ds) (CHR ''0'')"
proof -
  let ?z = "takeWhile (\<lambda>c. c = CHR ''0'') (rev xs)"
  have "rev xs = ?z @ rev ds" by (simp add: ds_def)
  then have xs: "xs = ds @ rev ?z" by (metis rev_append rev_rev_ident)
  have "\<forall>c \<in> set ?z. c = CHR ''0''" by (auto dest: set_takeWhileD)
  then have "rev ?z = replicate (length ?z) (CHR ''0'')" by (intro replicate_eqI) auto
  moreover have "length ?z = length xs - length ds" by (subst (2) xs) simp
  ultimately show ?thesis using xs by simp
qed

lemma getFraction_fraction:
  assumes "nano < 1000000000" and "s \<noteq> []" "\<not> isDigit (hd s)" "hd s \<noteq> CHR ''.''" "hd s \<noteq> CHR '',''"
  shows "getFraction (fraction nano @ s) = Some (nano, s)"
proof (cases "nano = 0")
  case True
  obtain c r where "s = c # r" using assms(2) by (cases s) auto
  then show ?thesis using True assms by (auto simp: fraction_def getFraction_def split: list.split)
next
  case False
  define ds where "ds = rev (dropWhile (\<lambda>c. c = CHR ''0'') (rev (fixed 9 nano)))"
  have split: "fixed 9 nano = ds @ replicate (9 - length ds) (CHR ''0'')"
    using trim_zeros[of "fixed 9 nano"] by (simp add: ds_def)
  have len: "length ds \<le> 9" using arg_cong[OF split, of length] by simp
  have dig: "list_all isDigit ds" using fixed_digits[of 9 nano] split by (metis list_all_append)
  have val: "atoi ds * 10 ^ (9 - length ds) = nano"
  proof -
    have "atoi (fixed 9 nano) = nano" using assms(1) by (simp add: atoi_fixed)
    then show ?thesis by (subst (asm) split) (simp add: atoi_zeros)
  qed
  have "ds \<noteq> []" using val False by (auto simp: atoi_def)
  then obtain d r where ds: "ds = d # r" by (cases ds) auto
  have "takeWhile isDigit (ds @ s) = ds" "dropWhile isDigit (ds @ s) = s"
    using dig assms(2,3) by (cases s; simp add: takeWhile_append2 dropWhile_append2 list_all_iff)+
  moreover have "isDigit d" using dig ds by simp
  moreover have "fraction nano = CHR ''.'' # ds" using False by (simp add: fraction_def ds_def)
  ultimately show ?thesis using ds len val by (simp add: getFraction_def Let_def)
qed

lemma getZone_zoneText:
  assumes "\<bar>z\<bar> < 1500"
  shows "getZone (zoneText z) = Some (z, [])"
proof (cases "z = 0")
  case True
  then show ?thesis by (simp add: zoneText_def getZone_def)
next
  case False
  let ?a = "nat \<bar>z\<bar>"
  have b: "?a div 60 \<le> 24" "?a div 60 < 100" "?a mod 60 < 60" "?a mod 60 < 100"
    using assms by linarith+
  have sum: "int (?a div 60 * 60 + ?a mod 60) = \<bar>z\<bar>" by simp
  have n: "getnum True (fixed 2 k) = Some (k, [])" if "k < 100" for k
    using getnum_fixed[OF that, of True "[]"] by simp
  show ?thesis
    using False b n sum by (simp add: zoneText_def getZone_def fixed_2) (auto simp: fixed_2[symmetric])
qed

text \<open>The clock time of a second of the day.\<close>

lemma clock_parts:
  assumes "k < (86400 :: nat)"
  shows "k div 3600 < 24" "k div 60 mod 60 < 60" "k mod 60 < 60"
    "k div 3600 * 3600 + k div 60 mod 60 * 60 + k mod 60 = k"
proof -
  have "k div 60 = k div 3600 * 60 + k div 60 mod 60"
    using div_mult2_eq[of k 60 60] by simp
  then have "k = (k div 3600 * 60 + k div 60 mod 60) * 60 + k mod 60" by simp
  then show "k div 3600 * 3600 + k div 60 mod 60 * 60 + k mod 60 = k" by (simp add: algebra_simps)
  show "k div 3600 < 24" using assms by (intro less_mult_imp_div_less) simp
qed simp_all

lemma appendInt_year: "0 \<le> y \<Longrightarrow> y \<le> 9999 \<Longrightarrow> appendInt y 4 = fixed 4 (nat y)"
  by (simp add: appendInt_def Let_def nat_less_iff)

lemma ParseTime_parts:
  assumes "y < 10000" "1 \<le> mo" "mo \<le> 12" "1 \<le> d" "d \<le> daysIn mo (int y)" "d < 100"
    and "h < 24" "mi < 60" "se < 60" "nano < 1000000000" "\<bar>z\<bar> < 1500"
  shows "ParseTime (fixed 4 y @ CHR ''-'' # fixed 2 mo @ CHR ''-'' # fixed 2 d @ CHR ''T'' #
      fixed 2 h @ CHR '':'' # fixed 2 mi @ CHR '':'' # fixed 2 se @ fraction nano @ zoneText z) =
    Some (Time (((dayNumber (int y) mo d - epochDays) * 86400 + int (h * 3600 + mi * 60 + se) - z * 60)
      * 1000000000 + int nano) z)"
proof -
  have zt: "zoneText z \<noteq> []" "\<not> isDigit (hd (zoneText z))" "hd (zoneText z) \<noteq> CHR ''.''" "hd (zoneText z) \<noteq> CHR '',''"
    by (simp_all add: zoneText_def isDigit_def)
  have "mo < 100" "h < 100" "mi < 100" "se < 100" using assms by linarith+
  then show ?thesis
    using assms
    by (simp add: ParseTime_def getYear_fixed getnum_fixed literal_Cons getFraction_fraction[OF assms(10) zt]
        getZone_zoneText guard_opt_def)
qed

definition printable :: "gotime \<Rightarrow> bool" where
  "printable t \<longleftrightarrow> \<bar>zone_min t\<bar> < 1500 \<and>
     (let y = yearOf ((unix_nano t div 1000000000 + zone_min t * 60) div 86400 + epochDays) in 0 \<le> y \<and> y \<le> 9999)"

lemma ParseTime_Format:
  assumes "printable t"
  shows "ParseTime (Format t) = Some t"
proof -
  define sec where "sec = unix_nano t div 1000000000 + zone_min t * 60"
  define k where "k = nat (sec mod 86400)"
  define nano where "nano = nat (unix_nano t mod 1000000000)"
  obtain y mo d where c: "civil (sec div 86400 + epochDays) = (y, mo, d)" by (metis prod_cases3)
  note cc = civil_correct[OF c]
  have y: "0 \<le> y" "y \<le> 9999" "nat y < 10000" and z: "\<bar>zone_min t\<bar> < 1500"
    using assms unfolding printable_def cc(6) sec_def[symmetric] Let_def by auto
  have "d \<le> 31" using cc(5) cc(2,3) by (auto simp: daysIn_def monthLens_def nth_Cons' split: if_splits)
  then have small: "mo < 100" "d < 100" using cc(3) by linarith+
  have k: "k < 86400" "int k = sec mod 86400" by (simp_all add: k_def)
  note parts = clock_parts[OF k(1)]
  have nano: "nano < 1000000000" "int nano = unix_nano t mod 1000000000" by (simp_all add: nano_def)
  have F: "Format t = fixed 4 (nat y) @ CHR ''-'' # fixed 2 mo @ CHR ''-'' # fixed 2 d @ CHR ''T'' #
      fixed 2 (k div 3600) @ CHR '':'' # fixed 2 (k div 60 mod 60) @ CHR '':'' # fixed 2 (k mod 60) @
      fraction nano @ zoneText (zone_min t)"
    using c y unfolding Format_def sec_def[symmetric] Let_def k_def[symmetric] nano_def[symmetric]
    by (simp add: appendInt_year)
  have t: "((dayNumber y mo d - epochDays) * 86400 + int (k div 3600 * 3600 + k div 60 mod 60 * 60 + k mod 60)
      - zone_min t * 60) * 1000000000 + int nano = unix_nano t"
  proof -
    have "(dayNumber y mo d - epochDays) * 86400 + int k = sec" unfolding cc(1) k(2) by simp
    then show ?thesis unfolding parts(4) nano(2) by (simp add: sec_def)
  qed
  have y': "int (nat y) = y" using y by simp
  show ?thesis
    unfolding F using ParseTime_parts[OF y(3) cc(2,3,4) _ small(2) parts(1-3) nano(1) z] cc(5) t y'
    by (metis gotime.collapse)
qed

end
