(* ===== verification/Color_Space.thy ===== *)
theory Color_Space
  imports Color_Hex
begin

text \<open>
  \<^verbatim>\<open>internal/color/oklab.go\<close> and \<^verbatim>\<open>internal/color/hsl.go\<close>: the sRGB transfer function, the OkLab
  matrices in both directions with the gamut test, and the HSL and HSV wheels.
\<close>

section \<open>The sRGB transfer function\<close>

definition srgbToLinear :: "fenv \<Rightarrow> real \<Rightarrow> real" where
  "srgbToLinear m c =
     (if c \<le> lit m 0.04045 then fdiv m c (lit m 12.92)
      else f_pow m (fdiv m (fadd m c (lit m 0.055)) (lit m 1.055)) (lit m 2.4))"

definition srgbFromLinear :: "fenv \<Rightarrow> real \<Rightarrow> real" where
  "srgbFromLinear m c =
     (if c \<le> lit m 0.0031308 then fmul m c (lit m 12.92)
      else fsub m (fmul m (lit m 1.055) (f_pow m c (lit m (1 / 2.4)))) (lit m 0.055))"

section \<open>OkLab\<close>

text \<open>Chroma below this is treated as neutral.\<close>

definition neutralChroma :: "fenv \<Rightarrow> real" where
  "neutralChroma m = lit m 0.02"

text \<open>A weighted sum \<^verbatim>\<open>c1*x + c2*y + c3*z\<close>, left to right.\<close>

definition wsum :: "fenv \<Rightarrow> real \<Rightarrow> real \<Rightarrow> real \<Rightarrow> real \<Rightarrow> real \<Rightarrow> real \<Rightarrow> real" where
  "wsum m c1 x c2 y c3 z =
     fadd m (fadd m (fmul m (lit m c1) x) (fmul m (lit m c2) y)) (fmul m (lit m c3) z)"

text \<open>A negative coefficient is a subtraction: \<open>x - c*y\<close> and \<open>x + (-c)*y\<close> round alike.\<close>

definition hexToOklab :: "fenv \<Rightarrow> hex \<Rightarrow> real \<times> real \<times> real" where
  "hexToOklab m h =
     (let red = srgbToLinear m (RNorm m h);
          green = srgbToLinear m (GNorm m h);
          blue = srgbToLinear m (BNorm m h);
          long = f_cbrt m (wsum m 0.4122214708 red 0.5363325363 green 0.0514459929 blue);
          med = f_cbrt m (wsum m 0.2119034982 red 0.6806995451 green 0.1073969566 blue);
          short = f_cbrt m (wsum m 0.0883024619 red 0.2817188376 green 0.6299787005 blue)
      in (wsum m 0.2104542553 long 0.7936177850 med (- 0.0040720468) short,
          wsum m 1.9779984951 long (- 2.4285922050) med 0.4505937099 short,
          wsum m 0.0259040371 long 0.7827717662 med (- 0.8086757660) short))"

definition gamutEpsilon :: real where
  "gamutEpsilon = 1 / 10 ^ 9"

definition fits :: "fenv \<Rightarrow> real \<Rightarrow> bool" where
  "fits m c \<longleftrightarrow> lit m (- gamutEpsilon) \<le> c \<and> c \<le> lit m (1 + gamutEpsilon)"

definition cube :: "fenv \<Rightarrow> real \<Rightarrow> real" where
  "cube m x = fmul m (fmul m x x) x"

definition oklabToLinear :: "fenv \<Rightarrow> real \<Rightarrow> real \<Rightarrow> real \<Rightarrow> real \<times> real \<times> real \<times> bool" where
  "oklabToLinear m lightness a b =
     (let long = fadd m (fadd m lightness (fmul m (lit m 0.3963377774) a)) (fmul m (lit m 0.2158037573) b);
          med = fsub m (fsub m lightness (fmul m (lit m 0.1055613458) a)) (fmul m (lit m 0.0638541728) b);
          short = fsub m (fsub m lightness (fmul m (lit m 0.0894841775) a)) (fmul m (lit m 1.2914855480) b);
          long = cube m long; med = cube m med; short = cube m short;
          red = wsum m 4.0767416621 long (- 3.3077115913) med 0.2309699292 short;
          green = wsum m (- 1.2684380046) long 2.6097574011 med (- 0.3413193965) short;
          blue = wsum m (- 0.0041960863) long (- 0.7034186147) med 1.7076147010 short
      in (red, green, blue, fits m red \<and> fits m green \<and> fits m blue))"

definition linearToHex :: "fenv \<Rightarrow> real \<Rightarrow> real \<Rightarrow> real \<Rightarrow> hex" where
  "linearToHex m red green blue =
     srgbToHex m (srgbFromLinear m red) (srgbFromLinear m green) (srgbFromLinear m blue)"

section \<open>HSL and HSV\<close>

definition hueDegrees :: "fenv \<Rightarrow> real \<Rightarrow> real \<Rightarrow> real \<Rightarrow> real \<Rightarrow> real \<Rightarrow> real" where
  "hueDegrees m red green blue high rng =
     (let hue = (if high = red then go_mod (fdiv m (fsub m green blue) rng) 6
                 else if high = green then fadd m (fdiv m (fsub m blue red) rng) 2
                 else fadd m (fdiv m (fsub m red green) rng) 4);
          hue = fmul m hue 60
      in if hue < 0 then fadd m hue 360 else hue)"

definition hexToHSL :: "fenv \<Rightarrow> hex \<Rightarrow> real \<times> real \<times> real" where
  "hexToHSL m h =
     (let red = RNorm m h; green = GNorm m h; blue = BNorm m h;
          high = max (max red green) blue;
          low = min (min red green) blue;
          span = fsub m high low;
          lightness = fdiv m (fadd m high low) 2
      in if span = 0 then (0, 0, lightness)
         else let saturation = min (fdiv m span (fsub m 1 \<bar>fsub m (fmul m 2 lightness) 1\<bar>)) 1
              in (hueDegrees m red green blue high span, saturation, lightness))"

definition hexToHSV :: "fenv \<Rightarrow> hex \<Rightarrow> real \<times> real \<times> real" where
  "hexToHSV m h =
     (let red = RNorm m h; green = GNorm m h; blue = BNorm m h;
          high = max (max red green) blue;
          span = fsub m high (min (min red green) blue)
      in if span = 0 then (0, 0, high)
         else (hueDegrees m red green blue high span, fdiv m span high, high))"

definition hslToHex :: "fenv \<Rightarrow> real \<Rightarrow> real \<Rightarrow> real \<Rightarrow> hex" where
  "hslToHex m hue saturation lightness =
     (let hue = go_mod (fadd m (go_mod hue 360) 360) 360;
          chroma = fmul m (fsub m 1 \<bar>fsub m (fmul m 2 lightness) 1\<bar>) saturation;
          second = fmul m chroma (fsub m 1 \<bar>fsub m (go_mod (fdiv m hue 60) 2) 1\<bar>);
          base = fsub m lightness (fdiv m chroma 2);
          sector = go_trunc (fdiv m hue 60);
          (red, green, blue) =
            (if sector = 0 then (chroma, second, 0)
             else if sector = 1 then (second, chroma, 0)
             else if sector = 2 then (0, chroma, second)
             else if sector = 3 then (0, second, chroma)
             else if sector = 4 then (second, 0, chroma)
             else (chroma, 0, second))
      in srgbToHex m (fadd m red base) (fadd m green base) (fadd m blue base))"

end
