(* ===== verification/Sort_Key.thy ===== *)
theory Sort_Key
  imports Color_Space
begin

text \<open>
  \<^verbatim>\<open>internal/color/sortkey.go\<close>: the perceptual sort key that the database stores as
  \<^verbatim>\<open>color_key\<close> and that orders \<^verbatim>\<open>sort=color\<close>.
\<close>

section \<open>Model\<close>

definition hueBuckets :: int where "hueBuckets = 12"
definition hueOriginDeg :: real where "hueOriginDeg = 20"
definition groupStep :: int where "groupStep = 10000000"
definition lightnessStep :: int where "lightnessStep = 1000"
definition chromaMax :: int where "chromaMax = 999"

text \<open>The conversion \<^verbatim>\<open>int32(v)\<close> keeps the low 32 bits, read as two's complement.\<close>

definition to_int32 :: "int \<Rightarrow> int" where
  "to_int32 v = signed_take_bit 31 v"

text \<open>The body of the key once the OkLab coordinates are known, and its three parts.\<close>

definition hueGroup :: "fenv \<Rightarrow> real \<Rightarrow> real \<Rightarrow> real \<Rightarrow> int" where
  "hueGroup m chroma a bb =
     (if neutralChroma m \<le> chroma
      then let hue = fsub m (fdiv m (fmul m (f_atan2 m bb a) 180) (lit m pi)) (lit m hueOriginDeg);
               hue = (if hue < 0 then fadd m hue 360 else hue)
           in 1 + go_trunc (fdiv m hue (360 / of_int hueBuckets))
      else 0)"

definition packKey :: "fenv \<Rightarrow> int \<Rightarrow> real \<Rightarrow> real \<Rightarrow> int" where
  "packKey m grp lightness chroma =
     to_int32 (grp * groupStep
       + go_round (fmul m lightness 1000) * lightnessStep
       + min (go_round (fmul m chroma 1000)) chromaMax)"

definition perceptualSortKey :: "fenv \<Rightarrow> hex \<Rightarrow> int" where
  "perceptualSortKey m h =
     (if length h \<noteq> HexLen then 0
      else let r = srgbToLinear m (RNorm m h);
               g = srgbToLinear m (GNorm m h);
               b = srgbToLinear m (BNorm m h);
               long = f_cbrt m (wsum m 0.4122214708 r 0.5363325363 g 0.0514459929 b);
               med = f_cbrt m (wsum m 0.2119034982 r 0.6806995451 g 0.1073969566 b);
               short = f_cbrt m (wsum m 0.0883024619 r 0.2817188376 g 0.6299787005 b);
               lightness = wsum m 0.2104542553 long 0.7936177850 med (- 0.0040720468) short;
               a = wsum m 1.9779984951 long (- 2.4285922050) med 0.4505937099 short;
               bb = wsum m 0.0259040371 long 0.7827717662 med (- 0.8086757660) short;
               chroma = fsqrt m (fadd m (fmul m a a) (fmul m bb bb));
               group = hueGroup m chroma a bb
           in packKey m group lightness chroma)"

text \<open>\<^verbatim>\<open>color.Feel\<close> of \<^verbatim>\<open>internal/color/color.go\<close>.\<close>

definition Feel :: "fenv \<Rightarrow> hex \<Rightarrow> int" where
  "Feel m h = perceptualSortKey m h"

end
