(* ===== verification/Database.thy ===== *)
theory Database
  imports Domain Sort_Key "HOL-Library.Product_Lexorder"
begin

text \<open>
  The database as the code uses it: the tables of \<^verbatim>\<open>migrations/\<close>, one function per SQL statement of
  \<^verbatim>\<open>internal/storage\<close> with the constraints the schema declares (primary keys, the unique nickname,
  foreign keys with their cascades, the partial unique index on the default collection, the check
  on \<^verbatim>\<open>hex\<close>), the connection that carries the statements, and transactions.

  What the server, the network and the clock decide is a parameter: the fate of every round trip,
  the timestamp of every transaction, the UUIDs that \<^verbatim>\<open>uuidv7()\<close> returns and the client's zone.
  Statements of one session run one after another here; \<^verbatim>\<open>Quota_Interleaving\<close> interleaves sessions.
\<close>

section \<open>Tables\<close>

text \<open>A \<^verbatim>\<open>timestamptz\<close> is a count of microseconds.\<close>

type_synonym timestamptz = int

record user_row =
  ur_id :: user_id
  ur_nickname :: string
  ur_password_hash :: bytes
  ur_created_at :: timestamptz

record token_row =
  tr_hash :: bytes
  tr_user_id :: user_id
  tr_expiry :: timestamptz

record collection_row =
  cr_id :: clt_id
  cr_user_id :: user_id
  cr_name :: string
  cr_icon_slug :: string
  cr_icon_accent :: hex
  cr_is_default :: bool
  cr_created_at :: timestamptz

record color_row =
  xr_collection_id :: clt_id
  xr_hex :: hex
  xr_created_at :: timestamptz
  xr_color_key :: int

record tables =
  t_users :: "user_row list"
  t_tokens :: "token_row list"
  t_collections :: "collection_row list"
  t_colors :: "color_row list"

text \<open>
  The server's state.  The sequence behind \<^verbatim>\<open>users.id\<close> is not transactional; \<^verbatim>\<open>w_round\<close> counts
  the round trips made so far.
\<close>

record world =
  w_tables :: tables
  w_next_user_id :: user_id
  w_round :: nat

text \<open>
  The fate of a round trip: a lost request never reaches the server, a lost reply was executed.  A
  statement that the server refuses before it looks at a table is a lost request too: it has no effect
  and an error that is no constraint violation.  That is what becomes of a text that PostgreSQL cannot
  encode, one with a zero byte or not in UTF-8; the statements below take every string, and the fate
  says which of them the server took.
\<close>

datatype link = Delivered | LostRequest string | LostReply string

record pg_env =
  pe_math :: fenv
  pe_link :: "nat \<Rightarrow> link"
  pe_clock :: "nat \<Rightarrow> timestamptz"
  pe_uuid :: "nat \<Rightarrow> uuid"
  pe_zone :: "int \<Rightarrow> int"

section \<open>The connection\<close>

type_synonym 'a stmt = "world \<Rightarrow> (go_error, 'a) result \<times> world"

definition send :: "pg_env \<Rightarrow> 'a stmt \<Rightarrow> 'a stmt" where
  "send e st w =
     (let w1 = w\<lparr>w_round := Suc (w_round w)\<rparr> in
      case pe_link e (w_round w) of
        Delivered \<Rightarrow> st w1
      | LostRequest msg \<Rightarrow> (Inl (Foreign msg), w1)
      | LostReply msg \<Rightarrow> (Inl (Foreign msg), snd (st w1)))"

text \<open>The pool, or a transaction with its timestamp: \<^verbatim>\<open>now()\<close> is the start of the transaction.\<close>

datatype querier = Pool | Tx timestamptz

definition now :: "querier \<Rightarrow> pg_env \<Rightarrow> world \<Rightarrow> timestamptz" where
  "now q e w = (case q of Pool \<Rightarrow> pe_clock e (w_round w) | Tx t \<Rightarrow> t)"

text \<open>pgx reads a \<^verbatim>\<open>timestamptz\<close> in the local zone and sends one truncated to microseconds.\<close>

definition scan_time :: "pg_env \<Rightarrow> timestamptz \<Rightarrow> gotime" where
  "scan_time e t = Time (t * 1000) (pe_zone e t)"

definition param_time :: "gotime \<Rightarrow> timestamptz" where
  "param_time t = unix_nano t div 1000"

lemma param_scan_time [simp]: "param_time (scan_time e t) = t"
  by (simp add: param_time_def scan_time_def)

section \<open>Statements\<close>

text \<open>\<^verbatim>\<open>BEGIN\<close>, \<^verbatim>\<open>ROLLBACK\<close> and \<^verbatim>\<open>SELECT 1\<close>: a round trip that touches no table.\<close>

definition sql_unit :: "unit stmt" where
  "sql_unit w = (Inr (), w)"

definition uniqueViolation :: string where "uniqueViolation = ''23505''"
definition foreignKeyViolation :: string where "foreignKeyViolation = ''23503''"
definition checkViolation :: string where "checkViolation = ''23514''"

text \<open>\<^verbatim>\<open>citext\<close> compares without regard to case.\<close>

definition ascii_lower :: "char \<Rightarrow> char" where
  "ascii_lower c = (if c \<ge> CHR ''A'' \<and> c \<le> CHR ''Z'' then char_of (of_char c + 32 :: nat) else c)"

definition citext_key :: "string \<Rightarrow> string" where
  "citext_key s = map ascii_lower s"

definition sql_insert_user :: "timestamptz \<Rightarrow> string \<Rightarrow> bytes \<Rightarrow> (user_id \<times> timestamptz) stmt" where
  "sql_insert_user ts nick hash w =
     (let i = w_next_user_id w; t = w_tables w; w1 = w\<lparr>w_next_user_id := i + 1\<rparr> in
      if (\<exists>r \<in> set (t_users t). ur_id r = i \<or> citext_key (ur_nickname r) = citext_key nick)
      then (Inl (PgError uniqueViolation), w1)
      else (Inr (i, ts), w1\<lparr>w_tables := t\<lparr>t_users := t_users t @
        [\<lparr>ur_id = i, ur_nickname = nick, ur_password_hash = hash, ur_created_at = ts\<rparr>]\<rparr>\<rparr>))"

definition sql_user_by_nickname :: "string \<Rightarrow> user_row stmt" where
  "sql_user_by_nickname nick w =
     (case find (\<lambda>r. citext_key (ur_nickname r) = citext_key nick) (t_users (w_tables w)) of
        None \<Rightarrow> (Inl (Sentinel ErrNoRows), w) | Some r \<Rightarrow> (Inr r, w))"

definition sql_user_by_id :: "user_id \<Rightarrow> user_row stmt" where
  "sql_user_by_id i w =
     (case find (\<lambda>r. ur_id r = i) (t_users (w_tables w)) of
        None \<Rightarrow> (Inl (Sentinel ErrNoRows), w) | Some r \<Rightarrow> (Inr r, w))"

text \<open>\<^verbatim>\<open>ON DELETE CASCADE\<close>: a user takes their tokens and collections, a collection its colours.\<close>

definition cascade_user :: "user_id \<Rightarrow> tables \<Rightarrow> tables" where
  "cascade_user i t = t\<lparr>
     t_users := filter (\<lambda>r. ur_id r \<noteq> i) (t_users t),
     t_tokens := filter (\<lambda>r. tr_user_id r \<noteq> i) (t_tokens t),
     t_collections := filter (\<lambda>r. cr_user_id r \<noteq> i) (t_collections t),
     t_colors := filter (\<lambda>r. \<not> (\<exists>c \<in> set (t_collections t).
        cr_id c = xr_collection_id r \<and> cr_user_id c = i)) (t_colors t)\<rparr>"

definition sql_delete_user :: "user_id \<Rightarrow> nat stmt" where
  "sql_delete_user i w =
     (let t = w_tables w in
      (Inr (length (filter (\<lambda>r. ur_id r = i) (t_users t))), w\<lparr>w_tables := cascade_user i t\<rparr>))"

definition sql_lock_user :: "user_id \<Rightarrow> unit stmt" where
  "sql_lock_user i w =
     (if \<exists>r \<in> set (t_users (w_tables w)). ur_id r = i then (Inr (), w)
      else (Inl (Sentinel ErrNoRows), w))"

definition sql_insert_token :: "bytes \<Rightarrow> user_id \<Rightarrow> timestamptz \<Rightarrow> nat stmt" where
  "sql_insert_token h i ex w =
     (let t = w_tables w in
      if \<exists>r \<in> set (t_tokens t). tr_hash r = h then (Inl (PgError uniqueViolation), w)
      else if \<not> (\<exists>r \<in> set (t_users t). ur_id r = i) then (Inl (PgError foreignKeyViolation), w)
      else (Inr 1, w\<lparr>w_tables := t\<lparr>t_tokens := t_tokens t @
        [\<lparr>tr_hash = h, tr_user_id = i, tr_expiry = ex\<rparr>]\<rparr>\<rparr>))"

definition sql_user_for_token :: "timestamptz \<Rightarrow> bytes \<Rightarrow> user_id stmt" where
  "sql_user_for_token ts h w =
     (case find (\<lambda>r. tr_hash r = h \<and> tr_expiry r > ts) (t_tokens (w_tables w)) of
        None \<Rightarrow> (Inl (Sentinel ErrNoRows), w) | Some r \<Rightarrow> (Inr (tr_user_id r), w))"

definition sql_delete_token :: "bytes \<Rightarrow> nat stmt" where
  "sql_delete_token h w =
     (let t = w_tables w in
      (Inr (length (filter (\<lambda>r. tr_hash r = h) (t_tokens t))),
       w\<lparr>w_tables := t\<lparr>t_tokens := filter (\<lambda>r. tr_hash r \<noteq> h) (t_tokens t)\<rparr>\<rparr>))"

definition sql_insert_collection ::
    "uuid \<Rightarrow> timestamptz \<Rightarrow> user_id \<Rightarrow> create_params \<Rightarrow> collection_row stmt" where
  "sql_insert_collection new_id ts i p w =
     (let t = w_tables w;
          row = \<lparr>cr_id = new_id, cr_user_id = i, cr_name = cp_Name p, cr_icon_slug = cp_Icon p,
            cr_icon_accent = cp_Accent p, cr_is_default = cp_IsDefault p, cr_created_at = ts\<rparr> in
      if \<exists>r \<in> set (t_collections t). cr_id r = new_id
          \<or> (cp_IsDefault p \<and> cr_is_default r \<and> cr_user_id r = i)
      then (Inl (PgError uniqueViolation), w)
      else if \<not> (\<exists>r \<in> set (t_users t). ur_id r = i) then (Inl (PgError foreignKeyViolation), w)
      else (Inr row, w\<lparr>w_tables := t\<lparr>t_collections := t_collections t @ [row]\<rparr>\<rparr>))"

definition sql_list_collections :: "user_id \<Rightarrow> collection_row list stmt" where
  "sql_list_collections i w =
     (Inr (sort_key (\<lambda>r. (cr_created_at r, cr_id r))
        (filter (\<lambda>r. cr_user_id r = i) (t_collections (w_tables w)))), w)"

definition sql_count_collections :: "user_id \<Rightarrow> int stmt" where
  "sql_count_collections i w =
     (Inr (int (length (filter (\<lambda>r. cr_user_id r = i) (t_collections (w_tables w))))), w)"

definition sql_collection :: "clt_id \<Rightarrow> user_id \<Rightarrow> collection_row stmt" where
  "sql_collection c i w =
     (case find (\<lambda>r. cr_id r = c \<and> cr_user_id r = i) (t_collections (w_tables w)) of
        None \<Rightarrow> (Inl (Sentinel ErrNoRows), w) | Some r \<Rightarrow> (Inr r, w))"

text \<open>\<^verbatim>\<open>COALESCE($n, column)\<close>.\<close>

definition coalesce :: "'a option \<Rightarrow> 'a \<Rightarrow> 'a" where
  "coalesce v d = (case v of None \<Rightarrow> d | Some x \<Rightarrow> x)"

definition update_row :: "update_params \<Rightarrow> collection_row \<Rightarrow> collection_row" where
  "update_row p r = r\<lparr>cr_name := coalesce (up_Name p) (cr_name r),
     cr_icon_slug := coalesce (up_Icon p) (cr_icon_slug r),
     cr_icon_accent := coalesce (up_Accent p) (cr_icon_accent r)\<rparr>"

definition update_rows ::
    "(collection_row \<Rightarrow> bool) \<Rightarrow> update_params \<Rightarrow> collection_row list \<Rightarrow> collection_row list" where
  "update_rows hit p rows = map (\<lambda>r. if hit r then update_row p r else r) rows"

definition sql_update_collection :: "clt_id \<Rightarrow> user_id \<Rightarrow> update_params \<Rightarrow> collection_row stmt" where
  "sql_update_collection c i p w =
     (let t = w_tables w; hit = (\<lambda>r. cr_id r = c \<and> cr_user_id r = i) in
      case find hit (t_collections t) of
        None \<Rightarrow> (Inl (Sentinel ErrNoRows), w)
      | Some r \<Rightarrow> (Inr (update_row p r), w\<lparr>w_tables := t\<lparr>t_collections :=
          update_rows hit p (t_collections t)\<rparr>\<rparr>))"

definition sql_delete_collection :: "clt_id \<Rightarrow> user_id \<Rightarrow> nat stmt" where
  "sql_delete_collection c i w =
     (let t = w_tables w; hit = (\<lambda>r. cr_id r = c \<and> cr_user_id r = i) in
      (Inr (length (filter hit (t_collections t))),
       w\<lparr>w_tables := t\<lparr>t_collections := filter (\<lambda>r. \<not> hit r) (t_collections t),
         t_colors := filter (\<lambda>x. \<not> (\<exists>r \<in> set (t_collections t). hit r \<and> cr_id r = xr_collection_id x))
           (t_colors t)\<rparr>\<rparr>))"

text \<open>The check constraint \<^verbatim>\<open>hex ~ '^#[0-9a-f]{6}$'\<close> is \<^verbatim>\<open>normal_hex\<close>.\<close>

definition sql_insert_color :: "clt_id \<Rightarrow> hex \<Rightarrow> int \<Rightarrow> timestamptz \<Rightarrow> nat stmt" where
  "sql_insert_color c h key ts w =
     (let t = w_tables w in
      if \<not> normal_hex h then (Inl (PgError checkViolation), w)
      else if \<exists>r \<in> set (t_colors t). xr_collection_id r = c \<and> xr_hex r = h then (Inr 0, w)
      else if \<not> (\<exists>r \<in> set (t_collections t). cr_id r = c) then (Inl (PgError foreignKeyViolation), w)
      else (Inr 1, w\<lparr>w_tables := t\<lparr>t_colors := t_colors t @
        [\<lparr>xr_collection_id = c, xr_hex = h, xr_created_at = ts, xr_color_key = key\<rparr>]\<rparr>\<rparr>))"

definition colors_of :: "clt_id \<Rightarrow> tables \<Rightarrow> color_row list" where
  "colors_of c t = filter (\<lambda>r. xr_collection_id r = c) (t_colors t)"

definition sql_count_colors :: "clt_id \<Rightarrow> int stmt" where
  "sql_count_colors c w = (Inr (int (length (colors_of c (w_tables w)))), w)"

definition sql_has_color :: "clt_id \<Rightarrow> hex \<Rightarrow> bool stmt" where
  "sql_has_color c h w = (Inr (\<exists>r \<in> set (colors_of c (w_tables w)). xr_hex r = h), w)"

definition sql_delete_color :: "clt_id \<Rightarrow> hex \<Rightarrow> nat stmt" where
  "sql_delete_color c h w =
     (let t = w_tables w; hit = (\<lambda>r. xr_collection_id r = c \<and> xr_hex r = h) in
      (Inr (length (filter hit (t_colors t))),
       w\<lparr>w_tables := t\<lparr>t_colors := filter (\<lambda>r. \<not> hit r) (t_colors t)\<rparr>\<rparr>))"

definition sql_delete_all_colors :: "clt_id \<Rightarrow> nat stmt" where
  "sql_delete_all_colors c w =
     (let t = w_tables w in
      (Inr (length (colors_of c t)),
       w\<lparr>w_tables := t\<lparr>t_colors := filter (\<lambda>r. xr_collection_id r \<noteq> c) (t_colors t)\<rparr>\<rparr>))"

text \<open>\<^verbatim>\<open>LEFT JOIN\<close>: a collection without colours keeps one row with nulls.\<close>

definition join_colors :: "tables \<Rightarrow> collection_row \<Rightarrow> (collection_row \<times> color_row option) list" where
  "join_colors t c = (case colors_of (cr_id c) t of
     [] \<Rightarrow> [(c, None)] | xs \<Rightarrow> map (\<lambda>x. (c, Some x)) xs)"

definition export_key ::
    "collection_row \<times> color_row option \<Rightarrow> timestamptz \<times> clt_id \<times> timestamptz \<times> hex" where
  "export_key p = (case p of (c, x) \<Rightarrow>
     (cr_created_at c, cr_id c, (case x of None \<Rightarrow> 0 | Some r \<Rightarrow> xr_created_at r),
      (case x of None \<Rightarrow> [] | Some r \<Rightarrow> xr_hex r)))"

definition sql_export :: "user_id \<Rightarrow> (collection_row \<times> color_row option) list stmt" where
  "sql_export i w =
     (let t = w_tables w in
      (Inr (sort_key export_key
        (concat (map (join_colors t) (filter (\<lambda>r. cr_user_id r = i) (t_collections t))))), w))"

section \<open>Transactions\<close>

text \<open>
  \<^verbatim>\<open>pgx.BeginFunc\<close> as \<^verbatim>\<open>docs/dbtx.md\<close> and \<^verbatim>\<open>interface.go\<close> describe it: begin, run, commit when \<^verbatim>\<open>fn\<close>
  returns nil and roll back when it returns an error.  A lost commit request is rolled back by the
  server, a lost commit reply is not.  The sequence keeps what the transaction drew from it.
\<close>

definition BeginFunc :: "pg_env \<Rightarrow> (timestamptz \<Rightarrow> 'a stmt) \<Rightarrow> 'a stmt" where
  "BeginFunc e fn w =
     (let ts = pe_clock e (w_round w) in
      case send e sql_unit w of
        (Inl err, w1) \<Rightarrow> (Inl err, w1)
      | (Inr _, w1) \<Rightarrow>
          (case fn ts w1 of
             (Inl err, w2) \<Rightarrow> (Inl err, snd (send e sql_unit (w2\<lparr>w_tables := w_tables w1\<rparr>)))
           | (Inr v, w2) \<Rightarrow>
               (case pe_link e (w_round w2) of
                  Delivered \<Rightarrow> (Inr v, w2\<lparr>w_round := Suc (w_round w2)\<rparr>)
                | LostRequest msg \<Rightarrow>
                    (Inl (Foreign msg), w2\<lparr>w_round := Suc (w_round w2), w_tables := w_tables w1\<rparr>)
                | LostReply msg \<Rightarrow> (Inl (Foreign msg), w2\<lparr>w_round := Suc (w_round w2)\<rparr>))))"

section \<open>What the schema guarantees\<close>

definition users_ok :: "tables \<Rightarrow> bool" where
  "users_ok t \<longleftrightarrow> distinct (map ur_id (t_users t))
     \<and> distinct (map (\<lambda>r. citext_key (ur_nickname r)) (t_users t))"

definition tokens_ok :: "tables \<Rightarrow> bool" where
  "tokens_ok t \<longleftrightarrow> distinct (map tr_hash (t_tokens t))
     \<and> tr_user_id ` set (t_tokens t) \<subseteq> ur_id ` set (t_users t)"

definition collections_ok :: "tables \<Rightarrow> bool" where
  "collections_ok t \<longleftrightarrow> distinct (map cr_id (t_collections t))
     \<and> cr_user_id ` set (t_collections t) \<subseteq> ur_id ` set (t_users t)
     \<and> distinct (map cr_user_id (filter cr_is_default (t_collections t)))"

definition colors_ok :: "tables \<Rightarrow> bool" where
  "colors_ok t \<longleftrightarrow> distinct (map (\<lambda>r. (xr_collection_id r, xr_hex r)) (t_colors t))
     \<and> xr_collection_id ` set (t_colors t) \<subseteq> cr_id ` set (t_collections t)
     \<and> (\<forall>r \<in> set (t_colors t). normal_hex (xr_hex r))"

definition schema_ok :: "tables \<Rightarrow> bool" where
  "schema_ok t \<longleftrightarrow> users_ok t \<and> tokens_ok t \<and> collections_ok t \<and> colors_ok t"

text \<open>What the application adds: keys derived from the hex, one default collection per account.\<close>

definition keys_ok :: "fenv \<Rightarrow> tables \<Rightarrow> bool" where
  "keys_ok m t \<longleftrightarrow> (\<forall>r \<in> set (t_colors t). xr_color_key r = Feel m (xr_hex r))"

definition defaults_ok :: "tables \<Rightarrow> bool" where
  "defaults_ok t \<longleftrightarrow> (\<forall>u \<in> set (t_users t).
     \<exists>c \<in> set (t_collections t). cr_user_id c = ur_id u \<and> cr_is_default c)"

definition app_ok :: "fenv \<Rightarrow> tables \<Rightarrow> bool" where
  "app_ok m t \<longleftrightarrow> schema_ok t \<and> keys_ok m t \<and> defaults_ok t"

end
