(* ===== verification/Storage.thy ===== *)
theory Storage
  imports Database
begin

text \<open>
  \<^verbatim>\<open>internal/storage\<close>: the repositories over the connection and the statements of \<^verbatim>\<open>Database\<close>, and the
  transaction wrapper \<^verbatim>\<open>InTx\<close>.  An operation takes what the Go method reads (the pool or a
  transaction, its arguments) and maps a server state to a result and the next state; \<^verbatim>\<open>Inl\<close> is the
  error the method returns.  The keyset listing is in \<^verbatim>\<open>Color_Listing\<close>.
\<close>

section \<open>storage.go\<close>

text \<open>The server's error code, or the empty string when the server did not answer.\<close>

fun pgErrCode :: "go_error \<Rightarrow> string" where
  "pgErrCode (PgError code) = code"
| "pgErrCode (Errorf _ es) = (case filter (\<lambda>c. c \<noteq> []) (map pgErrCode es) of [] \<Rightarrow> [] | c # _ \<Rightarrow> c)"
| "pgErrCode _ = []"

type_synonym 'a op = "pg_env \<Rightarrow> 'a stmt"

definition InTx :: "querier \<Rightarrow> (querier \<Rightarrow> 'a op) \<Rightarrow> 'a op" where
  "InTx q fn e w =
     (case q of
        Tx _ \<Rightarrow> (Inl (Sentinel ErrNestedTx), w)
      | Pool \<Rightarrow> BeginFunc e (\<lambda>ts. fn (Tx ts) e) w)"

definition Ping :: "querier \<Rightarrow> unit op" where
  "Ping q e w = send e sql_unit w"

section \<open>user_repo.go\<close>

definition CreateUser :: "querier \<Rightarrow> user \<Rightarrow> user op" where
  "CreateUser q u e w =
     (case send e (sql_insert_user (now q e w) (user_Nickname u) (user_PasswordHash u)) w of
        (Inl err, w') \<Rightarrow>
          (Inl (if pgErrCode err = uniqueViolation then Sentinel ErrDuplicateNickname
                else Errorf ''storage create user'' [err]), w')
      | (Inr (i, ts), w') \<Rightarrow> (Inr (u\<lparr>user_ID := i, user_CreatedAt := scan_time e ts\<rparr>), w'))"

text \<open>\<^verbatim>\<open>UserByID\<close> does not select the password hash: it stays Go's nil slice.\<close>

definition scan_user :: "pg_env \<Rightarrow> user_row \<Rightarrow> user" where
  "scan_user e r = \<lparr>user_ID = ur_id r, user_Nickname = ur_nickname r,
     user_PasswordHash = ur_password_hash r, user_CreatedAt = scan_time e (ur_created_at r)\<rparr>"

definition row_error :: "string \<Rightarrow> sentinel \<Rightarrow> go_error \<Rightarrow> go_error" where
  "row_error what missing err =
     (if errors_is err ErrNoRows then Sentinel missing else Errorf what [err])"

definition UserByNickname :: "querier \<Rightarrow> string \<Rightarrow> user op" where
  "UserByNickname q nick e w =
     (case send e (sql_user_by_nickname nick) w of
        (Inl err, w') \<Rightarrow> (Inl (row_error ''storage user by nickname'' ErrUserNotFound err), w')
      | (Inr r, w') \<Rightarrow> (Inr (scan_user e r), w'))"

definition UserByID :: "querier \<Rightarrow> user_id \<Rightarrow> user op" where
  "UserByID q i e w =
     (case send e (sql_user_by_id i) w of
        (Inl err, w') \<Rightarrow> (Inl (row_error ''storage user by id'' ErrUserNotFound err), w')
      | (Inr r, w') \<Rightarrow> (Inr ((scan_user e r)\<lparr>user_PasswordHash := []\<rparr>), w'))"

definition DeleteUser :: "querier \<Rightarrow> user_id \<Rightarrow> unit op" where
  "DeleteUser q i e w =
     (case send e (sql_delete_user i) w of
        (Inl err, w') \<Rightarrow> (Inl (Errorf ''storage delete user'' [err]), w')
      | (Inr n, w') \<Rightarrow> (if n = 0 then Inl (Sentinel ErrUserNotFound) else Inr (), w'))"

definition LockUser :: "querier \<Rightarrow> user_id \<Rightarrow> unit op" where
  "LockUser q i e w =
     (case send e (sql_lock_user i) w of
        (Inl err, w') \<Rightarrow> (Inl (row_error ''storage lock user'' ErrUserNotFound err), w')
      | (Inr _, w') \<Rightarrow> (Inr (), w'))"

section \<open>token_repo.go\<close>

definition InsertToken :: "querier \<Rightarrow> token \<Rightarrow> unit op" where
  "InsertToken q t e w =
     (case send e (sql_insert_token (tok_Hash t) (tok_UserID t) (param_time (tok_Expiry t))) w of
        (Inl err, w') \<Rightarrow>
          (Inl (if pgErrCode err = foreignKeyViolation then Sentinel ErrUserNotFound
                else Errorf ''storage insert token'' [err]), w')
      | (Inr _, w') \<Rightarrow> (Inr (), w'))"

definition UserIDForTokenHash :: "querier \<Rightarrow> bytes \<Rightarrow> user_id op" where
  "UserIDForTokenHash q h e w =
     (case send e (sql_user_for_token (now q e w) h) w of
        (Inl err, w') \<Rightarrow> (Inl (row_error ''storage user id for token hash'' ErrTokenNotFound err), w')
      | (Inr i, w') \<Rightarrow> (Inr i, w'))"

definition DeleteToken :: "querier \<Rightarrow> bytes \<Rightarrow> unit op" where
  "DeleteToken q h e w =
     (case send e (sql_delete_token h) w of
        (Inl err, w') \<Rightarrow> (Inl (Errorf ''storage delete token'' [err]), w')
      | (Inr _, w') \<Rightarrow> (Inr (), w'))"

section \<open>collection_repo.go\<close>

definition scan_collection :: "pg_env \<Rightarrow> collection_row \<Rightarrow> collection" where
  "scan_collection e r = \<lparr>col_ID = cr_id r, col_Name = cr_name r, col_IconSlug = cr_icon_slug r,
     col_IconAccent = cr_icon_accent r, col_IsDefault = cr_is_default r,
     col_CreatedAt = scan_time e (cr_created_at r)\<rparr>"

definition CreateCollection :: "querier \<Rightarrow> user_id \<Rightarrow> create_params \<Rightarrow> collection op" where
  "CreateCollection q i p e w =
     (case send e (sql_insert_collection (pe_uuid e (w_round w)) (now q e w) i p) w of
        (Inl err, w') \<Rightarrow>
          (Inl (if pgErrCode err = foreignKeyViolation then Sentinel ErrUserNotFound
                else Errorf ''storage create collection'' [err]), w')
      | (Inr r, w') \<Rightarrow> (Inr (scan_collection e r), w'))"

definition ListCollections :: "querier \<Rightarrow> user_id \<Rightarrow> collection list op" where
  "ListCollections q i e w =
     (case send e (sql_list_collections i) w of
        (Inl err, w') \<Rightarrow> (Inl (Errorf ''storage list collections'' [err]), w')
      | (Inr rows, w') \<Rightarrow> (Inr (map (scan_collection e) rows), w'))"

definition CountCollections :: "querier \<Rightarrow> user_id \<Rightarrow> int op" where
  "CountCollections q i e w =
     (case send e (sql_count_collections i) w of
        (Inl err, w') \<Rightarrow> (Inl (Errorf ''storage count collections'' [err]), w')
      | (Inr n, w') \<Rightarrow> (Inr n, w'))"

definition CollectionByID :: "querier \<Rightarrow> user_id \<Rightarrow> clt_id \<Rightarrow> collection op" where
  "CollectionByID q i c e w =
     (case send e (sql_collection c i) w of
        (Inl err, w') \<Rightarrow> (Inl (row_error ''storage collection by id'' ErrNotFound err), w')
      | (Inr r, w') \<Rightarrow> (Inr (scan_collection e r), w'))"

definition UpdateCollection :: "querier \<Rightarrow> user_id \<Rightarrow> clt_id \<Rightarrow> update_params \<Rightarrow> collection op" where
  "UpdateCollection q i c p e w =
     (case send e (sql_update_collection c i p) w of
        (Inl err, w') \<Rightarrow> (Inl (row_error ''storage update collection'' ErrNotFound err), w')
      | (Inr r, w') \<Rightarrow> (Inr (scan_collection e r), w'))"

definition DeleteCollection :: "querier \<Rightarrow> user_id \<Rightarrow> clt_id \<Rightarrow> unit op" where
  "DeleteCollection q i c e w =
     (case send e (sql_delete_collection c i) w of
        (Inl err, w') \<Rightarrow> (Inl (Errorf ''storage delete collection'' [err]), w')
      | (Inr n, w') \<Rightarrow> (if n = 0 then Inl (Sentinel ErrNotFound) else Inr (), w'))"

text \<open>
  \<^verbatim>\<open>FOR UPDATE\<close> changes nothing within one session; what the lock is for is \<^verbatim>\<open>Quota_Interleaving\<close>.
\<close>

definition resolveCollection :: "querier \<Rightarrow> user_id \<Rightarrow> clt_id \<Rightarrow> bool \<Rightarrow> clt_id op" where
  "resolveCollection q i c lock e w =
     (case send e (sql_collection c i) w of
        (Inl err, w') \<Rightarrow> (Inl (row_error ''storage resolve collection'' ErrNotFound err), w')
      | (Inr r, w') \<Rightarrow> (Inr (cr_id r), w'))"

definition ResolveCollection :: "querier \<Rightarrow> user_id \<Rightarrow> clt_id \<Rightarrow> clt_id op" where
  "ResolveCollection q i c = resolveCollection q i c False"

definition LockCollection :: "querier \<Rightarrow> user_id \<Rightarrow> clt_id \<Rightarrow> clt_id op" where
  "LockCollection q i c = resolveCollection q i c True"

section \<open>color_repo.go\<close>

definition AddColor :: "querier \<Rightarrow> clt_id \<Rightarrow> hex \<Rightarrow> bool op" where
  "AddColor q c h e w =
     (case send e (sql_insert_color c h (Feel (pe_math e) h) (now q e w)) w of
        (Inl err, w') \<Rightarrow>
          (Inl (if pgErrCode err = foreignKeyViolation then Sentinel ErrNotFound
                else Errorf ''storage add color'' [err]), w')
      | (Inr n, w') \<Rightarrow> (Inr (n = 1), w'))"

definition CountColors :: "querier \<Rightarrow> clt_id \<Rightarrow> int op" where
  "CountColors q c e w =
     (case send e (sql_count_colors c) w of
        (Inl err, w') \<Rightarrow> (Inl (Errorf ''storage count colors'' [err]), w')
      | (Inr n, w') \<Rightarrow> (Inr n, w'))"

definition HasColor :: "querier \<Rightarrow> clt_id \<Rightarrow> hex \<Rightarrow> bool op" where
  "HasColor q c h e w =
     (case send e (sql_has_color c h) w of
        (Inl err, w') \<Rightarrow> (Inl (Errorf ''storage has color'' [err]), w')
      | (Inr b, w') \<Rightarrow> (Inr b, w'))"

definition DeleteColor :: "querier \<Rightarrow> clt_id \<Rightarrow> hex \<Rightarrow> unit op" where
  "DeleteColor q c h e w =
     (case send e (sql_delete_color c h) w of
        (Inl err, w') \<Rightarrow> (Inl (Errorf ''storage delete color'' [err]), w')
      | (Inr n, w') \<Rightarrow> (if n = 0 then Inl (Sentinel ErrNotFound) else Inr (), w'))"

definition DeleteAllColors :: "querier \<Rightarrow> clt_id \<Rightarrow> unit op" where
  "DeleteAllColors q c e w =
     (case send e (sql_delete_all_colors c) w of
        (Inl err, w') \<Rightarrow> (Inl (Errorf ''storage delete all colors'' [err]), w')
      | (Inr _, w') \<Rightarrow> (Inr (), w'))"

section \<open>export_repo.go\<close>

record clt_with_colors =
  cwc_Clt :: collection
  cwc_Colors :: "color list"

definition scan_color :: "pg_env \<Rightarrow> color_row \<Rightarrow> color" where
  "scan_color e r = \<lparr>color_Hex = xr_hex r, color_CreatedAt = scan_time e (xr_created_at r)\<rparr>"

text \<open>
  The body of the row loop: \<^verbatim>\<open>out\<close> grows by a collection when the row's collection is not the last
  one's, and a non-null colour is appended to the last collection.
\<close>

definition export_step ::
    "pg_env \<Rightarrow> clt_with_colors list \<Rightarrow> collection_row \<times> color_row option \<Rightarrow> clt_with_colors list" where
  "export_step e out row =
     (case row of (c, x) \<Rightarrow>
        let clt = scan_collection e c;
            out = (if out = [] \<or> col_ID (cwc_Clt (last out)) \<noteq> col_ID clt
                   then out @ [\<lparr>cwc_Clt = clt, cwc_Colors = []\<rparr>] else out)
        in case x of
             None \<Rightarrow> out
           | Some r \<Rightarrow> butlast out @
               [(last out)\<lparr>cwc_Colors := cwc_Colors (last out) @ [scan_color e r]\<rparr>])"

definition ExportCollections :: "querier \<Rightarrow> user_id \<Rightarrow> clt_with_colors list op" where
  "ExportCollections q i e w =
     (case send e (sql_export i) w of
        (Inl err, w') \<Rightarrow> (Inl (Errorf ''storage export collections'' [err]), w')
      | (Inr rows, w') \<Rightarrow> (Inr (foldl (export_step e) [] rows), w'))"

end
