(* ===== verification/Color_Listing.thy ===== *)
theory Color_Listing
  imports Storage
begin

text \<open>
  \<^verbatim>\<open>internal/storage/color_sort.go\<close>, \<^verbatim>\<open>sort.go\<close> and the listing half of \<^verbatim>\<open>color_repo.go\<close>: the
  parameters of a colours listing, the query they become and the page it answers.

  A query is kept as its parts (the ordering columns with their direction, the keyset comparison
  with its bound values); \<^verbatim>\<open>order_text\<close> and \<^verbatim>\<open>predicate_text\<close> are the SQL the code writes for them,
  \<^verbatim>\<open>run_list_query\<close> what the database answers.
\<close>

section \<open>Parameters\<close>

type_synonym color_sort = string
type_synonym sort_order = string

definition SortByCreatedAt :: color_sort where "SortByCreatedAt = ''created_at''"
definition SortByHex :: color_sort where "SortByHex = ''hex''"
definition SortByColor :: color_sort where "SortByColor = ''color''"

definition OrderAsc :: sort_order where "OrderAsc = ''asc''"
definition OrderDesc :: sort_order where "OrderDesc = ''desc''"

definition DefaultColorSort :: color_sort where "DefaultColorSort = SortByCreatedAt"
definition DefaultColorOrder :: sort_order where "DefaultColorOrder = OrderDesc"
definition DefaultColorLimit :: int where "DefaultColorLimit = 50"
definition MaxColorLimit :: int where "MaxColorLimit = 100"

definition ParseColorSort :: "string \<Rightarrow> (go_error, color_sort) result" where
  "ParseColorSort s =
     (if s = SortByCreatedAt \<or> s = SortByHex \<or> s = SortByColor then Inr s
      else Inl (Errorf s [Sentinel ErrInvalidColorSort]))"

definition ParseSortOrder :: "string \<Rightarrow> (go_error, sort_order) result" where
  "ParseSortOrder s =
     (if s = OrderAsc \<or> s = OrderDesc then Inr s
      else Inl (Errorf s [Sentinel ErrInvalidSortOrder]))"

record color_cursor =
  cur_CreatedAt :: gotime
  cur_Hex :: hex

record list_params =
  lp_Sort :: color_sort
  lp_Order :: sort_order
  lp_After :: "color_cursor option"
  lp_Limit :: int

record color_page =
  page_Colors :: "color list"
  page_HasMore :: bool

definition normalizedParams :: "list_params \<Rightarrow> list_params" where
  "normalizedParams p =
     (let p = (if lp_Sort p = [] then p\<lparr>lp_Sort := DefaultColorSort\<rparr> else p);
          p = (if lp_Order p = [] then p\<lparr>lp_Order := DefaultColorOrder\<rparr> else p)
      in if lp_Limit p \<le> 0 then p\<lparr>lp_Limit := DefaultColorLimit\<rparr>
         else if lp_Limit p > MaxColorLimit then p\<lparr>lp_Limit := MaxColorLimit\<rparr>
         else p)"

section \<open>The query\<close>

datatype column = C_created_at | C_hex | C_color_key
datatype direction = ASC | DESC
datatype comparison = Less | Greater
datatype sql_value = VTime timestamptz | VText string | VInt int

record keyset_query =
  kq_order :: "column list \<times> direction"
  kq_predicate :: "column list \<times> comparison"
  kq_args :: "sql_value list"

definition column_name :: "column \<Rightarrow> string" where
  "column_name c = (case c of C_created_at \<Rightarrow> ''created_at'' | C_hex \<Rightarrow> ''hex'' | C_color_key \<Rightarrow> ''color_key'')"

fun join_text :: "string \<Rightarrow> string list \<Rightarrow> string" where
  "join_text sep [] = []"
| "join_text sep [x] = x"
| "join_text sep (x # xs) = x @ sep @ join_text sep xs"

definition order_text :: "column list \<times> direction \<Rightarrow> string" where
  "order_text ob = (case ob of (cs, d) \<Rightarrow> join_text '', '' (map (\<lambda>c. column_name c @
     (case d of ASC \<Rightarrow> '' ASC'' | DESC \<Rightarrow> '' DESC'')) cs))"

text \<open>The placeholders start at \<^verbatim>\<open>$3\<close>: \<^verbatim>\<open>$1\<close> is the collection, \<^verbatim>\<open>$2\<close> the limit.\<close>

definition placeholder :: "nat \<Rightarrow> string" where
  "placeholder n = ''$'' @ (if n = 0 then ''3'' else ''4'')"

definition predicate_text :: "column list \<times> comparison \<Rightarrow> string" where
  "predicate_text p = (case p of (cs, cmp) \<Rightarrow>
     let lhs = map column_name cs; rhs = map placeholder [0..<length cs];
         op = (case cmp of Less \<Rightarrow> '' < '' | Greater \<Rightarrow> '' > '')
     in if length cs = 1 then concat lhs @ op @ concat rhs
        else ''('' @ join_text '', '' lhs @ '')'' @ op @ ''('' @ join_text '', '' rhs @ '')'')"

definition keyset :: "fenv \<Rightarrow> list_params \<Rightarrow> (go_error, keyset_query) result" where
  "keyset m p =
     (let badOrder = Inl (Errorf (lp_Order p) [Sentinel ErrInvalidSortOrder]) in
      if lp_Sort p = SortByCreatedAt then
        let args = (case lp_After p of None \<Rightarrow> []
              | Some a \<Rightarrow> [VTime (param_time (cur_CreatedAt a)), VText (cur_Hex a)]) in
        if lp_Order p = OrderDesc then
          Inr \<lparr>kq_order = ([C_created_at, C_hex], DESC), kq_predicate = ([C_created_at, C_hex], Less), kq_args = args\<rparr>
        else if lp_Order p = OrderAsc then
          Inr \<lparr>kq_order = ([C_created_at, C_hex], ASC), kq_predicate = ([C_created_at, C_hex], Greater), kq_args = args\<rparr>
        else badOrder
      else if lp_Sort p = SortByHex then
        let args = (case lp_After p of None \<Rightarrow> [] | Some a \<Rightarrow> [VText (cur_Hex a)]) in
        if lp_Order p = OrderAsc then
          Inr \<lparr>kq_order = ([C_hex], ASC), kq_predicate = ([C_hex], Greater), kq_args = args\<rparr>
        else if lp_Order p = OrderDesc then
          Inr \<lparr>kq_order = ([C_hex], DESC), kq_predicate = ([C_hex], Less), kq_args = args\<rparr>
        else badOrder
      else if lp_Sort p = SortByColor then
        let args = (case lp_After p of None \<Rightarrow> []
              | Some a \<Rightarrow> [VInt (Feel m (cur_Hex a)), VText (cur_Hex a)]) in
        if lp_Order p = OrderAsc then
          Inr \<lparr>kq_order = ([C_color_key, C_hex], ASC), kq_predicate = ([C_color_key, C_hex], Greater), kq_args = args\<rparr>
        else if lp_Order p = OrderDesc then
          Inr \<lparr>kq_order = ([C_color_key, C_hex], DESC), kq_predicate = ([C_color_key, C_hex], Less), kq_args = args\<rparr>
        else badOrder
      else Inl (Errorf (lp_Sort p) [Sentinel ErrInvalidColorSort]))"

text \<open>The whole query: the collection, one row more than the limit, and a filter after a cursor.\<close>

record list_query =
  lq_collection :: clt_id
  lq_limit :: int
  lq_order :: "column list \<times> direction"
  lq_filter :: "(column list \<times> comparison) option"
  lq_args :: "sql_value list"

definition listQuery :: "fenv \<Rightarrow> list_params \<Rightarrow> clt_id \<Rightarrow> (go_error, list_query) result" where
  "listQuery m p c =
     (case keyset m p of
        Inl err \<Rightarrow> Inl err
      | Inr k \<Rightarrow> Inr (case lp_After p of
            None \<Rightarrow> \<lparr>lq_collection = c, lq_limit = lp_Limit p + 1, lq_order = kq_order k,
              lq_filter = None, lq_args = []\<rparr>
          | Some _ \<Rightarrow> \<lparr>lq_collection = c, lq_limit = lp_Limit p + 1, lq_order = kq_order k,
              lq_filter = Some (kq_predicate k), lq_args = kq_args k\<rparr>))"

definition query_text :: "list_query \<Rightarrow> string" where
  "query_text lq =
     ''SELECT hex, created_at FROM collection_colors WHERE collection_id = $1''
     @ (case lq_filter lq of None \<Rightarrow> [] | Some p \<Rightarrow> '' AND '' @ predicate_text p)
     @ '' ORDER BY '' @ order_text (lq_order lq) @ '' LIMIT $2''"

section \<open>What the database answers\<close>

text \<open>
  Values of one column are compared within its type; a row value is compared column by column.
  The order between types is never used.  Text compares bytewise, which every collation agrees
  with on \<^verbatim>\<open>#rrggbb\<close> codes.
\<close>

instantiation sql_value :: linorder
begin

fun less_eq_sql_value :: "sql_value \<Rightarrow> sql_value \<Rightarrow> bool" where
  "less_eq_sql_value (VTime a) (VTime b) = (a \<le> b)"
| "less_eq_sql_value (VTime a) _ = True"
| "less_eq_sql_value (VText a) (VText b) = (a \<le> b)"
| "less_eq_sql_value (VText a) (VInt b) = True"
| "less_eq_sql_value (VText a) (VTime b) = False"
| "less_eq_sql_value (VInt a) (VInt b) = (a \<le> b)"
| "less_eq_sql_value (VInt a) _ = False"

definition less_sql_value :: "sql_value \<Rightarrow> sql_value \<Rightarrow> bool" where
  "less_sql_value a b \<longleftrightarrow> a \<le> b \<and> \<not> b \<le> a"

instance
proof
  fix x y z :: sql_value
  show "x < y \<longleftrightarrow> x \<le> y \<and> \<not> y \<le> x" by (simp add: less_sql_value_def)
  show "x \<le> x" by (cases x) auto
  show "x \<le> y \<Longrightarrow> y \<le> z \<Longrightarrow> x \<le> z" by (cases x; cases y; cases z) auto
  show "x \<le> y \<Longrightarrow> y \<le> x \<Longrightarrow> x = y" by (cases x; cases y) auto
  show "x \<le> y \<or> y \<le> x" by (cases x; cases y) auto
qed

end

definition column_value :: "color_row \<Rightarrow> column \<Rightarrow> sql_value" where
  "column_value r c = (case c of C_created_at \<Rightarrow> VTime (xr_created_at r)
     | C_hex \<Rightarrow> VText (xr_hex r) | C_color_key \<Rightarrow> VInt (xr_color_key r))"

definition row_value :: "column list \<Rightarrow> color_row \<Rightarrow> sql_value list" where
  "row_value cs r = map (column_value r) cs"

definition sql_compare :: "comparison \<Rightarrow> sql_value list \<Rightarrow> sql_value list \<Rightarrow> bool" where
  "sql_compare cmp xs ys = (case cmp of Less \<Rightarrow> xs < ys | Greater \<Rightarrow> ys < xs)"

definition sql_order :: "column list \<times> direction \<Rightarrow> color_row list \<Rightarrow> color_row list" where
  "sql_order ob rows = (case ob of (cs, d) \<Rightarrow>
     let s = sort_key (row_value cs) rows in (case d of ASC \<Rightarrow> s | DESC \<Rightarrow> rev s))"

definition sql_filter :: "(column list \<times> comparison) option \<Rightarrow> sql_value list \<Rightarrow> color_row \<Rightarrow> bool" where
  "sql_filter f args r = (case f of None \<Rightarrow> True
     | Some (cs, cmp) \<Rightarrow> sql_compare cmp (row_value cs r) args)"

definition run_list_query :: "list_query \<Rightarrow> color_row list stmt" where
  "run_list_query lq w =
     (Inr (take (nat (lq_limit lq)) (sql_order (lq_order lq)
        (filter (sql_filter (lq_filter lq) (lq_args lq)) (colors_of (lq_collection lq) (w_tables w))))), w)"

definition ListColors :: "querier \<Rightarrow> clt_id \<Rightarrow> list_params \<Rightarrow> color_page op" where
  "ListColors q c p e w =
     (let p = normalizedParams p in
      case listQuery (pe_math e) p c of
        Inl err \<Rightarrow> (Inl (Errorf ''storage list colors'' [err]), w)
      | Inr lq \<Rightarrow>
          (case send e (run_list_query lq) w of
             (Inl err, w') \<Rightarrow> (Inl (Errorf ''storage list colors'' [err]), w')
           | (Inr rows, w') \<Rightarrow>
               let colors = map (scan_color e) rows in
               (Inr (if int (length colors) > lp_Limit p
                     then \<lparr>page_Colors = take (nat (lp_Limit p)) colors, page_HasMore = True\<rparr>
                     else \<lparr>page_Colors = colors, page_HasMore = False\<rparr>), w')))"

section \<open>The SQL the code writes\<close>

text \<open>The six orderings and predicates, as the source spells them.\<close>

lemma order_texts:
  "order_text ([C_created_at, C_hex], DESC) = ''created_at DESC, hex DESC''"
  "order_text ([C_created_at, C_hex], ASC) = ''created_at ASC, hex ASC''"
  "order_text ([C_hex], ASC) = ''hex ASC''"
  "order_text ([C_hex], DESC) = ''hex DESC''"
  "order_text ([C_color_key, C_hex], ASC) = ''color_key ASC, hex ASC''"
  "order_text ([C_color_key, C_hex], DESC) = ''color_key DESC, hex DESC''"
  by code_simp+

lemma predicate_texts:
  "predicate_text ([C_created_at, C_hex], Less) = ''(created_at, hex) < ($3, $4)''"
  "predicate_text ([C_created_at, C_hex], Greater) = ''(created_at, hex) > ($3, $4)''"
  "predicate_text ([C_hex], Greater) = ''hex > $3''"
  "predicate_text ([C_hex], Less) = ''hex < $3''"
  "predicate_text ([C_color_key, C_hex], Greater) = ''(color_key, hex) > ($3, $4)''"
  "predicate_text ([C_color_key, C_hex], Less) = ''(color_key, hex) < ($3, $4)''"
  by code_simp+

text \<open>What a keyset query can be: one of three column lists, in one of two directions.\<close>

definition keyset_columns :: "color_sort \<Rightarrow> column list" where
  "keyset_columns s = (if s = SortByCreatedAt then [C_created_at, C_hex]
     else if s = SortByHex then [C_hex] else [C_color_key, C_hex])"

lemma sort_names_distinct [simp]:
  "SortByHex \<noteq> SortByCreatedAt" "SortByColor \<noteq> SortByCreatedAt" "SortByColor \<noteq> SortByHex"
  "SortByCreatedAt \<noteq> SortByHex" "SortByCreatedAt \<noteq> SortByColor" "SortByHex \<noteq> SortByColor"
  "OrderAsc \<noteq> OrderDesc" "OrderDesc \<noteq> OrderAsc"
  by (simp_all add: SortByHex_def SortByCreatedAt_def SortByColor_def OrderAsc_def OrderDesc_def)

lemma keyset_shape:
  assumes "keyset m p = Inr k"
  shows "kq_order k = (keyset_columns (lp_Sort p), if lp_Order p = OrderDesc then DESC else ASC)"
    "kq_predicate k = (keyset_columns (lp_Sort p), if lp_Order p = OrderDesc then Less else Greater)"
    "lp_Sort p \<in> {SortByCreatedAt, SortByHex, SortByColor}" "lp_Order p \<in> {OrderAsc, OrderDesc}"
  using assms by (simp_all add: keyset_def keyset_columns_def Let_def split: if_splits, auto)

end
