(* ===== verification/Services.thy ===== *)
theory Services
  imports Color_Listing
begin

text \<open>
  \<^verbatim>\<open>internal/colorsvc\<close>, \<^verbatim>\<open>internal/collectionsvc\<close> and \<^verbatim>\<open>internal/usersvc\<close>: the operations behind the
  handlers.  A service holds the storage (the pool) and its quota, which are arguments here.
\<close>

section \<open>colorsvc\<close>

text \<open>The function that \<^verbatim>\<open>AddColor\<close> runs in a transaction.\<close>

definition add_color_tx :: "int \<Rightarrow> user_id \<Rightarrow> clt_id \<Rightarrow> hex \<Rightarrow> querier \<Rightarrow> bool op" where
  "add_color_tx quota i c h s e w =
     (case LockCollection s i c e w of
        (Inl err, w1) \<Rightarrow> (Inl err, w1)
      | (Inr owned, w1) \<Rightarrow>
          (case CountColors s owned e w1 of
             (Inl err, w2) \<Rightarrow> (Inl err, w2)
           | (Inr n, w2) \<Rightarrow>
               if n \<ge> quota then
                 (case HasColor s owned h e w2 of
                    (Inl err, w3) \<Rightarrow> (Inl err, w3)
                  | (Inr has, w3) \<Rightarrow>
                      if \<not> has then (Inl (Sentinel ColorErrQuotaFull), w3) else (Inr False, w3))
               else AddColor s owned h e w2))"

definition colorsvc_AddColor :: "int \<Rightarrow> user_id \<Rightarrow> clt_id \<Rightarrow> hex \<Rightarrow> bool op" where
  "colorsvc_AddColor quota i c h e w = InTx Pool (add_color_tx quota i c h) e w"

definition colorsvc_DeleteColor :: "user_id \<Rightarrow> clt_id \<Rightarrow> hex \<Rightarrow> unit op" where
  "colorsvc_DeleteColor i c h e w =
     (case ResolveCollection Pool i c e w of
        (Inl err, w1) \<Rightarrow> (Inl err, w1)
      | (Inr owned, w1) \<Rightarrow> DeleteColor Pool owned h e w1)"

definition colorsvc_DeleteAllColors :: "user_id \<Rightarrow> clt_id \<Rightarrow> unit op" where
  "colorsvc_DeleteAllColors i c e w =
     (case ResolveCollection Pool i c e w of
        (Inl err, w1) \<Rightarrow> (Inl err, w1)
      | (Inr owned, w1) \<Rightarrow> DeleteAllColors Pool owned e w1)"

definition colorsvc_ListColors :: "user_id \<Rightarrow> clt_id \<Rightarrow> list_params \<Rightarrow> color_page op" where
  "colorsvc_ListColors i c p e w =
     (case ResolveCollection Pool i c e w of
        (Inl err, w1) \<Rightarrow> (Inl err, w1)
      | (Inr owned, w1) \<Rightarrow> ListColors Pool owned p e w1)"

section \<open>collectionsvc\<close>

definition create_collection_tx :: "int \<Rightarrow> user_id \<Rightarrow> create_params \<Rightarrow> querier \<Rightarrow> collection op" where
  "create_collection_tx quota i p s e w =
     (case LockUser s i e w of
        (Inl err, w1) \<Rightarrow> (Inl err, w1)
      | (Inr _, w1) \<Rightarrow>
          (case CountCollections s i e w1 of
             (Inl err, w2) \<Rightarrow> (Inl err, w2)
           | (Inr n, w2) \<Rightarrow>
               if n \<ge> quota then (Inl (Sentinel CollectionErrQuotaFull), w2)
               else CreateCollection s i p e w2))"

definition collectionsvc_CreateCollection :: "int \<Rightarrow> user_id \<Rightarrow> create_params \<Rightarrow> collection op" where
  "collectionsvc_CreateCollection quota i p e w =
     InTx Pool (create_collection_tx quota i (p\<lparr>cp_IsDefault := False\<rparr>)) e w"

definition collectionsvc_ListCollections :: "user_id \<Rightarrow> collection list op" where
  "collectionsvc_ListCollections i e w = ListCollections Pool i e w"

definition collectionsvc_CollectionByID :: "user_id \<Rightarrow> clt_id \<Rightarrow> collection op" where
  "collectionsvc_CollectionByID i c e w = CollectionByID Pool i c e w"

definition collectionsvc_UpdateCollection :: "user_id \<Rightarrow> clt_id \<Rightarrow> update_params \<Rightarrow> collection op" where
  "collectionsvc_UpdateCollection i c p e w = UpdateCollection Pool i c p e w"

definition collectionsvc_DeleteCollection :: "user_id \<Rightarrow> clt_id \<Rightarrow> unit op" where
  "collectionsvc_DeleteCollection i c e w =
     (case CollectionByID Pool i c e w of
        (Inl err, w1) \<Rightarrow> (Inl err, w1)
      | (Inr col, w1) \<Rightarrow>
          if col_IsDefault col then (Inl (Sentinel ErrDeleteDefault), w1)
          else DeleteCollection Pool i c e w1)"

section \<open>usersvc\<close>

definition DefCollectionName :: string where "DefCollectionName = ''Main''"

definition create_user_tx :: "user \<Rightarrow> querier \<Rightarrow> user op" where
  "create_user_tx u s e w =
     (case CreateUser s u e w of
        (Inl err, w1) \<Rightarrow> (Inl err, w1)
      | (Inr u, w1) \<Rightarrow>
          (case CreateCollection s (user_ID u) \<lparr>cp_Name = DefCollectionName, cp_Icon = DefIconSlug,
                  cp_Accent = DefIconAccent, cp_IsDefault = True\<rparr> e w1 of
             (Inl err, w2) \<Rightarrow> (Inl err, w2)
           | (Inr _, w2) \<Rightarrow> (Inr u, w2)))"

definition usersvc_CreateUser :: "user \<Rightarrow> user op" where
  "usersvc_CreateUser u e w = InTx Pool (create_user_tx u) e w"

definition usersvc_UserByID :: "user_id \<Rightarrow> user op" where
  "usersvc_UserByID i e w = UserByID Pool i e w"

definition usersvc_DeleteUser :: "user_id \<Rightarrow> unit op" where
  "usersvc_DeleteUser i e w = DeleteUser Pool i e w"

definition export_user_tx :: "user_id \<Rightarrow> querier \<Rightarrow> (user \<times> clt_with_colors list) op" where
  "export_user_tx i s e w =
     (case UserByID s i e w of
        (Inl err, w1) \<Rightarrow> (Inl err, w1)
      | (Inr usr, w1) \<Rightarrow>
          (case ExportCollections s i e w1 of
             (Inl err, w2) \<Rightarrow> (Inl err, w2)
           | (Inr collections, w2) \<Rightarrow> (Inr (usr, collections), w2)))"

definition usersvc_ExportUser :: "user_id \<Rightarrow> (user \<times> clt_with_colors list) op" where
  "usersvc_ExportUser i e w = InTx Pool (export_user_tx i) e w"

end
