(* ===== verification/Auth.thy ===== *)
theory Auth
  imports Services
begin

text \<open>
  \<^verbatim>\<open>internal/auth\<close> and \<^verbatim>\<open>internal/authsvc\<close>: passwords, tokens, login and logout.  bcrypt (a module
  outside the repository), the random text of a new token, SHA-256 and the clock are parameters.
\<close>

section \<open>auth\<close>

datatype bcrypt_result = Match | Mismatch | BcryptError string

record crypto =
  cy_Generate :: "string \<Rightarrow> nat \<Rightarrow> (string, bytes) result"   \<comment> \<open>\<^verbatim>\<open>bcrypt.GenerateFromPassword\<close>\<close>
  cy_Compare :: "bytes \<Rightarrow> string \<Rightarrow> bcrypt_result"             \<comment> \<open>\<^verbatim>\<open>bcrypt.CompareHashAndPassword\<close>\<close>
  cy_Sum256 :: "string \<Rightarrow> bytes"                              \<comment> \<open>\<^verbatim>\<open>sha256.Sum256\<close>\<close>
  cy_Text :: string                                          \<comment> \<open>the next \<^verbatim>\<open>rand.Text()\<close>\<close>
  cy_Now :: gotime                                           \<comment> \<open>\<^verbatim>\<open>time.Now()\<close>\<close>

definition MinPasswordLen :: nat where "MinPasswordLen = 16"
definition MaxPasswordLen :: nat where "MaxPasswordLen = 72"
definition bcryptCost :: nat where "bcryptCost = 12"

definition HashPassword :: "crypto \<Rightarrow> string \<Rightarrow> (go_error, bytes) result" where
  "HashPassword cy plaintext =
     (if length plaintext < MinPasswordLen \<or> length plaintext > MaxPasswordLen
      then Inl (Errorf ''must be 16 to 72 bytes'' [Sentinel ErrInvalidPassword])
      else case cy_Generate cy plaintext bcryptCost of
             Inl msg \<Rightarrow> Inl (Errorf ''auth hash password'' [Foreign msg])
           | Inr hash \<Rightarrow> Inr hash)"

text \<open>
  The time a request spends in bcrypt is part of what the code controls, so the functions that
  compare also return how many comparisons they ran.
\<close>

definition dummyHash :: bytes where
  "dummyHash = ''$2a$12$w197MSRbyWSMKybxo4ysO.QmD.JA3Ei0iDlMJE0ol0rQuHqyCmaRa''"

definition EqualizeTiming :: "nat \<Rightarrow> nat" where
  "EqualizeTiming compares = Suc compares"

definition PasswordMatches :: "crypto \<Rightarrow> bytes \<Rightarrow> string \<Rightarrow> nat \<Rightarrow> (go_error, bool) result \<times> nat" where
  "PasswordMatches cy hash plaintext compares =
     (if length plaintext > MaxPasswordLen then (Inr False, EqualizeTiming compares)
      else (case cy_Compare cy hash plaintext of
              Match \<Rightarrow> Inr True
            | Mismatch \<Rightarrow> Inr False
            | BcryptError msg \<Rightarrow> Inl (Errorf [] [Sentinel ErrUnusableHash, Foreign msg]),
            Suc compares))"

definition HashToken :: "crypto \<Rightarrow> string \<Rightarrow> bytes" where
  "HashToken cy plaintext = cy_Sum256 cy plaintext"

definition NewToken :: "crypto \<Rightarrow> user_id \<Rightarrow> int \<Rightarrow> token" where
  "NewToken cy i ttl =
     (let plaintext = cy_Text cy in
      \<lparr>tok_Plaintext = plaintext, tok_Hash = HashToken cy plaintext, tok_UserID = i,
       tok_Expiry = Time (unix_nano (cy_Now cy) + ttl) (zone_min (cy_Now cy))\<rparr>)"

section \<open>authsvc\<close>

definition refuse :: "nat \<Rightarrow> go_error \<times> nat" where
  "refuse compares = (Sentinel ErrInvalidCredentials, EqualizeTiming compares)"

text \<open>\<^verbatim>\<open>Login\<close>: the result, the number of bcrypt comparisons it ran, the next state.\<close>

definition Login ::
    "strvalid \<Rightarrow> crypto \<Rightarrow> int \<Rightarrow> string \<Rightarrow> string \<Rightarrow> pg_env \<Rightarrow> world
      \<Rightarrow> (go_error, token) result \<times> nat \<times> world" where
  "Login sv cy ttl nickname password e w =
     (case NormalizeNickname sv nickname of
        Inl _ \<Rightarrow> (case refuse 0 of (err, n) \<Rightarrow> (Inl err, n, w))
      | Inr normalized \<Rightarrow>
          (case UserByNickname Pool normalized e w of
             (Inl err, w1) \<Rightarrow>
               if errors_is err ErrUserNotFound
               then (case refuse 0 of (err, n) \<Rightarrow> (Inl err, n, w1))
               else (Inl err, 0, w1)
           | (Inr u, w1) \<Rightarrow>
               (case PasswordMatches cy (user_PasswordHash u) password 0 of
                  (Inl _, n) \<Rightarrow> (Inl (Sentinel ErrInvalidCredentials), n, w1)
                | (Inr matches, n) \<Rightarrow>
                    if \<not> matches then (Inl (Sentinel ErrInvalidCredentials), n, w1)
                    else let token = NewToken cy (user_ID u) ttl in
                         (case InsertToken Pool token e w1 of
                            (Inl err, w2) \<Rightarrow> (Inl err, n, w2)
                          | (Inr _, w2) \<Rightarrow> (Inr token, n, w2)))))"

definition Logout :: "bytes \<Rightarrow> unit op" where
  "Logout hash e w = DeleteToken Pool hash e w"

end
