(* ===== verification/Sessions.thy ===== *)
theory Sessions
  imports Auth
begin

text \<open>
  Reasoning about sequences of statements.  Most facts about the services have one shape: some
  relation between the tables before and after holds whatever the connection does.  The locale
  \<^verbatim>\<open>session_rel\<close> says what such a relation must be (reflexive and transitive) and gives the rules for
  a round trip and for a transaction, whose failed runs are rolled back; the theories after this
  one interpret it on the invariants and on the frame conditions of the model.
\<close>

section \<open>Statements, operations and the states they leave\<close>

definition stmt_in :: "(tables \<Rightarrow> tables \<Rightarrow> bool) \<Rightarrow> 'a stmt \<Rightarrow> bool" where
  "stmt_in R st \<longleftrightarrow> (\<forall>w. R (w_tables w) (w_tables (snd (st w))))"

lemma send_Inr_iff:
  "send e st w = (Inr v, w') \<longleftrightarrow>
     pe_link e (w_round w) = Delivered \<and> st (w\<lparr>w_round := Suc (w_round w)\<rparr>) = (Inr v, w')"
  by (auto simp: send_def Let_def split: link.splits)

lemma send_tables:
  "w_tables (snd (send e st w)) = w_tables w
   \<or> w_tables (snd (send e st w)) = w_tables (snd (st (w\<lparr>w_round := Suc (w_round w)\<rparr>)))"
  by (auto simp: send_def Let_def split: link.splits)

lemma send_delivered:
  "pe_link e (w_round w) = Delivered \<Longrightarrow> send e st w = st (w\<lparr>w_round := Suc (w_round w)\<rparr>)"
  by (simp add: send_def Let_def)

lemma send_Inl_cases:
  assumes "send e st w = (Inl err, w')"
  obtains (server) "st (w\<lparr>w_round := Suc (w_round w)\<rparr>) = (Inl err, w')"
    | (lost) msg where "err = Foreign msg"
  using assms by (auto simp: send_def Let_def split: link.splits)

text \<open>The statements that only read.\<close>

lemma sql_reads [simp]:
  "snd (sql_user_by_nickname n w) = w" "snd (sql_user_by_id i w) = w" "snd (sql_lock_user i w) = w"
  "snd (sql_user_for_token ts h w) = w" "snd (sql_list_collections i w) = w"
  "snd (sql_count_collections i w) = w" "snd (sql_collection c i w) = w"
  "snd (sql_count_colors c w) = w" "snd (sql_has_color c h w) = w" "snd (sql_export i w) = w"
  "snd (run_list_query lq w) = w" "snd (sql_unit w) = w"
  by (auto simp: sql_unit_def sql_user_by_nickname_def sql_user_by_id_def sql_lock_user_def sql_user_for_token_def
      sql_list_collections_def sql_count_collections_def sql_collection_def sql_count_colors_def
      sql_has_color_def sql_export_def run_list_query_def Let_def split: option.splits)

text \<open>Every repository operation leaves the state its statement leaves.\<close>

lemma op_state:
  "snd (CreateUser q u e w) = snd (send e (sql_insert_user (now q e w) (user_Nickname u) (user_PasswordHash u)) w)"
  "snd (UserByNickname q n e w) = snd (send e (sql_user_by_nickname n) w)"
  "snd (UserByID q i e w) = snd (send e (sql_user_by_id i) w)"
  "snd (DeleteUser q i e w) = snd (send e (sql_delete_user i) w)"
  "snd (LockUser q i e w) = snd (send e (sql_lock_user i) w)"
  "snd (InsertToken q t e w) = snd (send e (sql_insert_token (tok_Hash t) (tok_UserID t) (param_time (tok_Expiry t))) w)"
  "snd (UserIDForTokenHash q h e w) = snd (send e (sql_user_for_token (now q e w) h) w)"
  "snd (DeleteToken q h e w) = snd (send e (sql_delete_token h) w)"
  "snd (CreateCollection q i p e w) = snd (send e (sql_insert_collection (pe_uuid e (w_round w)) (now q e w) i p) w)"
  "snd (ListCollections q i e w) = snd (send e (sql_list_collections i) w)"
  "snd (CountCollections q i e w) = snd (send e (sql_count_collections i) w)"
  "snd (CollectionByID q i c e w) = snd (send e (sql_collection c i) w)"
  "snd (UpdateCollection q i c up e w) = snd (send e (sql_update_collection c i up) w)"
  "snd (DeleteCollection q i c e w) = snd (send e (sql_delete_collection c i) w)"
  "snd (resolveCollection q i c lock e w) = snd (send e (sql_collection c i) w)"
  "snd (Storage.AddColor q c h e w) = snd (send e (sql_insert_color c h (Feel (pe_math e) h) (now q e w)) w)"
  "snd (CountColors q c e w) = snd (send e (sql_count_colors c) w)"
  "snd (HasColor q c h e w) = snd (send e (sql_has_color c h) w)"
  "snd (DeleteColor q c h e w) = snd (send e (sql_delete_color c h) w)"
  "snd (DeleteAllColors q c e w) = snd (send e (sql_delete_all_colors c) w)"
  "snd (ExportCollections q i e w) = snd (send e (sql_export i) w)"
  by (auto simp: CreateUser_def UserByNickname_def UserByID_def DeleteUser_def LockUser_def
      InsertToken_def UserIDForTokenHash_def DeleteToken_def CreateCollection_def ListCollections_def
      CountCollections_def CollectionByID_def UpdateCollection_def DeleteCollection_def
      resolveCollection_def AddColor_def CountColors_def HasColor_def DeleteColor_def
      DeleteAllColors_def ExportCollections_def split: prod.splits sum.splits)

text \<open>The operations that only read leave the tables alone.\<close>

lemma read_tables [simp]:
  "w_tables (snd (UserByNickname q n e w)) = w_tables w"
  "w_tables (snd (UserByID q i e w)) = w_tables w"
  "w_tables (snd (LockUser q i e w)) = w_tables w"
  "w_tables (snd (UserIDForTokenHash q h e w)) = w_tables w"
  "w_tables (snd (ListCollections q i e w)) = w_tables w"
  "w_tables (snd (CountCollections q i e w)) = w_tables w"
  "w_tables (snd (CollectionByID q i c e w)) = w_tables w"
  "w_tables (snd (resolveCollection q i c lock e w)) = w_tables w"
  "w_tables (snd (ResolveCollection q i c e w)) = w_tables w"
  "w_tables (snd (LockCollection q i c e w)) = w_tables w"
  "w_tables (snd (CountColors q c e w)) = w_tables w"
  "w_tables (snd (HasColor q c h e w)) = w_tables w"
  "w_tables (snd (ExportCollections q i e w)) = w_tables w"
  by (simp_all add: op_state ResolveCollection_def LockCollection_def send_def Let_def split: link.splits)

lemma ListColors_tables [simp]: "w_tables (snd (ListColors q c p e w)) = w_tables w"
  by (auto simp: ListColors_def Let_def send_def run_list_query_def
      split: sum.splits prod.splits link.splits)

lemma send_unit_tables [simp]: "w_tables (snd (send e sql_unit w)) = w_tables w"
  by (auto simp: send_def sql_unit_def Let_def split: link.splits)

text \<open>What a successful read says about the tables.\<close>

lemma resolveCollection_Inr:
  assumes "resolveCollection q i c lock e w = (Inr owned, w')"
  shows "owned = c" "\<exists>r \<in> set (t_collections (w_tables w)). cr_id r = c \<and> cr_user_id r = i"
    "w_tables w' = w_tables w"
  using assms
  by (auto simp: resolveCollection_def send_def sql_collection_def Let_def find_Some_iff
      split: prod.splits sum.splits link.splits option.splits)

lemma CountColors_Inr:
  assumes "CountColors q c e w = (Inr n, w')"
  shows "n = int (length (colors_of c (w_tables w)))" "w_tables w' = w_tables w"
  using assms by (auto simp: CountColors_def send_Inr_iff sql_count_colors_def split: prod.splits sum.splits)

lemma CountCollections_Inr:
  assumes "CountCollections q i e w = (Inr n, w')"
  shows "n = int (length (filter (\<lambda>r. cr_user_id r = i) (t_collections (w_tables w))))"
    "w_tables w' = w_tables w"
  using assms
  by (auto simp: CountCollections_def send_Inr_iff sql_count_collections_def split: prod.splits sum.splits)

section \<open>The rules\<close>

locale session_rel =
  fixes R :: "tables \<Rightarrow> tables \<Rightarrow> bool"
  assumes refl: "R t t"
    and trans: "R t u \<Longrightarrow> R u v \<Longrightarrow> R t v"
begin

lemma send_rel_at:
  "R (w_tables w) (w_tables (snd (st (w\<lparr>w_round := Suc (w_round w)\<rparr>)))) \<Longrightarrow>
   R (w_tables w) (w_tables (snd (send e st w)))"
  using send_tables[of e st w] refl by metis

lemma send_rel:
  assumes "stmt_in R st"
  shows "R (w_tables w) (w_tables (snd (send e st w)))"
proof (rule send_rel_at)
  show "R (w_tables w) (w_tables (snd (st (w\<lparr>w_round := Suc (w_round w)\<rparr>))))"
    using assms unfolding stmt_in_def by (metis world.select_convs(1) world.surjective world.update_convs(3))
qed

text \<open>A transaction: only a run that returned a value can have changed anything.\<close>

lemma InTx_rel:
  assumes "\<And>ts w1 v w2. fn (Tx ts) e w1 = (Inr v, w2) \<Longrightarrow> w_tables w1 = w_tables w
    \<Longrightarrow> R (w_tables w) (w_tables w2)"
  shows "R (w_tables w) (w_tables (snd (InTx q fn e w)))"
proof (cases q)
  case Pool
  obtain r w1 where b: "send e sql_unit w = (r, w1)" by fastforce
  have t1: "w_tables w1 = w_tables w" using b send_unit_tables[of e w] by simp
  obtain r2 w2 where fn: "fn (Tx (pe_clock e (w_round w))) e w1 = (r2, w2)" by fastforce
  show ?thesis
  proof (cases r2)
    case (Inl err)
    then show ?thesis
      by (cases r) (simp_all add: InTx_def BeginFunc_def Pool b fn t1 refl)
  next
    case (Inr v)
    then have "R (w_tables w) (w_tables w2)" using assms fn t1 by blast
    then show ?thesis using Inr
      by (cases r) (simp_all add: InTx_def BeginFunc_def Pool b fn t1 refl split: link.split)
  qed
next
  case (Tx ts)
  then show ?thesis by (simp add: InTx_def refl)
qed

lemma then_rel:
  assumes "R t (w_tables (snd p))"
    and "\<And>v w1. p = (Inr v, w1) \<Longrightarrow> R (w_tables w1) (w_tables (snd (g v w1)))"
  shows "R t (w_tables (snd (case p of (Inl err, w1) \<Rightarrow> (Inl err, w1) | (Inr v, w1) \<Rightarrow> g v w1)))"
  using assms by (cases p; cases "fst p") (auto intro: trans)

text \<open>The writing operations of the repositories.\<close>

lemma write_rel:
  "stmt_in R (sql_insert_token (tok_Hash t) (tok_UserID t) (param_time (tok_Expiry t))) \<Longrightarrow>
    R (w_tables w) (w_tables (snd (InsertToken q t e w)))"
  "stmt_in R (sql_delete_token th) \<Longrightarrow> R (w_tables w) (w_tables (snd (DeleteToken q th e w)))"
  "stmt_in R (sql_delete_user i) \<Longrightarrow> R (w_tables w) (w_tables (snd (DeleteUser q i e w)))"
  "(\<And>new ts. stmt_in R (sql_insert_collection new ts i p)) \<Longrightarrow>
    R (w_tables w) (w_tables (snd (CreateCollection q i p e w)))"
  "stmt_in R (sql_update_collection c i up) \<Longrightarrow> R (w_tables w) (w_tables (snd (UpdateCollection q i c up e w)))"
  "stmt_in R (sql_delete_collection c i) \<Longrightarrow> R (w_tables w) (w_tables (snd (DeleteCollection q i c e w)))"
  "(\<And>ts. stmt_in R (sql_insert_color c h (Feel (pe_math e) h) ts)) \<Longrightarrow>
    R (w_tables w) (w_tables (snd (Storage.AddColor q c h e w)))"
  "stmt_in R (sql_delete_color c h) \<Longrightarrow> R (w_tables w) (w_tables (snd (DeleteColor q c h e w)))"
  "stmt_in R (sql_delete_all_colors c) \<Longrightarrow> R (w_tables w) (w_tables (snd (DeleteAllColors q c e w)))"
  by (simp_all add: op_state send_rel)

text \<open>
  The services.  A service that resolves a collection runs the write only when the caller owns it,
  so the statement's premise may use that.
\<close>

lemma AddColor_rel:
  assumes "\<And>ts w1. \<exists>r \<in> set (t_collections (w_tables w1)). cr_id r = c \<and> cr_user_id r = i \<Longrightarrow>
    int (length (colors_of c (w_tables w1))) < quota \<Longrightarrow>
    R (w_tables w1) (w_tables (snd (sql_insert_color c h (Feel (pe_math e) h) ts w1)))"
  shows "R (w_tables w) (w_tables (snd (colorsvc_AddColor quota i c h e w)))"
  unfolding colorsvc_AddColor_def
proof (rule InTx_rel)
  fix ts w1 v w2
  assume tx: "add_color_tx quota i c h (Tx ts) e w1 = (Inr v, w2)" and w1: "w_tables w1 = w_tables w"
  obtain owned u1 where l: "LockCollection (Tx ts) i c e w1 = (Inr owned, u1)"
    using tx by (auto simp: add_color_tx_def split: prod.splits sum.splits)
  note o = resolveCollection_Inr[OF l[unfolded LockCollection_def]]
  obtain n u2 where n: "CountColors (Tx ts) owned e u1 = (Inr n, u2)"
    using tx l by (auto simp: add_color_tx_def split: prod.splits sum.splits)
  note cnt = CountColors_Inr[OF n]
  have u2: "w_tables u2 = w_tables w" using o(3) w1 cnt(2) by simp
  show "R (w_tables w) (w_tables w2)"
  proof (cases "n \<ge> quota")
    case True
    obtain b u3 where hc: "HasColor (Tx ts) owned h e u2 = (b, u3)" by fastforce
    have "w2 = u3" using tx l n hc True by (auto simp: add_color_tx_def split: sum.splits if_splits)
    moreover have "w_tables u3 = w_tables u2" using read_tables(12)[of "Tx ts" owned h e u2] hc by simp
    ultimately show ?thesis using u2 refl by simp
  next
    case False
    then have w2: "w2 = snd (Storage.AddColor (Tx ts) c h e u2)"
      using tx l n o(1) by (simp add: add_color_tx_def)
    let ?u3 = "u2\<lparr>w_round := Suc (w_round u2)\<rparr>"
    have "R (w_tables ?u3) (w_tables (snd (sql_insert_color c h (Feel (pe_math e) h) (now (Tx ts) e u2) ?u3)))"
      using o w1 u2 cnt False by (intro assms) simp_all
    then show ?thesis
      using send_tables[of e "sql_insert_color c h (Feel (pe_math e) h) (now (Tx ts) e u2)" u2] u2 refl
      by (auto simp: w2 op_state)
  qed
qed

lemma owned_rel:
  assumes "\<And>w1. \<exists>r \<in> set (t_collections (w_tables w1)). cr_id r = c \<and> cr_user_id r = i \<Longrightarrow>
    R (w_tables w1) (w_tables (snd (g c w1)))"
  shows "R (w_tables w) (w_tables (snd (case ResolveCollection q i c e w of
    (Inl err, w1) \<Rightarrow> (Inl err, w1) | (Inr owned, w1) \<Rightarrow> g owned w1)))"
proof (rule then_rel)
  show "R (w_tables w) (w_tables (snd (ResolveCollection q i c e w)))" by (simp add: refl)
  fix v w1 assume "ResolveCollection q i c e w = (Inr v, w1)"
  note o = resolveCollection_Inr[OF this[unfolded ResolveCollection_def]]
  show "R (w_tables w1) (w_tables (snd (g v w1)))" using assms[of w1] o by simp
qed

lemma CreateCollection_rel:
  assumes "\<And>new ts w1. int (length (filter (\<lambda>r. cr_user_id r = i) (t_collections (w_tables w1)))) < quota \<Longrightarrow>
    R (w_tables w1) (w_tables (snd (sql_insert_collection new ts i (p\<lparr>cp_IsDefault := False\<rparr>) w1)))"
  shows "R (w_tables w) (w_tables (snd (collectionsvc_CreateCollection quota i p e w)))"
  unfolding collectionsvc_CreateCollection_def
proof (rule InTx_rel)
  fix ts w1 v w2
  let ?p = "p\<lparr>cp_IsDefault := False\<rparr>"
  assume tx: "create_collection_tx quota i ?p (Tx ts) e w1 = (Inr v, w2)" and w1: "w_tables w1 = w_tables w"
  obtain u u1 where l: "LockUser (Tx ts) i e w1 = (Inr u, u1)"
    using tx by (auto simp: create_collection_tx_def split: prod.splits sum.splits)
  obtain n u2 where n: "CountCollections (Tx ts) i e u1 = (Inr n, u2)"
    using tx l by (auto simp: create_collection_tx_def split: prod.splits sum.splits)
  note cnt = CountCollections_Inr[OF n]
  have w2: "w2 = snd (CreateCollection (Tx ts) i ?p e u2)" and "n < quota"
    using tx l n by (auto simp: create_collection_tx_def split: if_splits)
  have u2: "w_tables u2 = w_tables w" and "w_tables u1 = w_tables w"
    using w1 l cnt(2) read_tables(3)[of "Tx ts" i e w1] by simp_all
  let ?u3 = "u2\<lparr>w_round := Suc (w_round u2)\<rparr>"
  have "R (w_tables ?u3) (w_tables (snd (sql_insert_collection (pe_uuid e (w_round u2)) (now (Tx ts) e u2) i ?p ?u3)))"
    using cnt \<open>n < quota\<close> by (intro assms) simp
  then show "R (w_tables w) (w_tables w2)"
    using send_tables[of e "sql_insert_collection (pe_uuid e (w_round u2)) (now (Tx ts) e u2) i ?p" u2] u2 refl
    by (auto simp: w2 op_state)
qed

text \<open>Signing in inserts the hash of the token just drawn, and no other.\<close>

lemma Login_rel:
  assumes "\<And>i x. stmt_in R (sql_insert_token (HashToken cy (cy_Text cy)) i x)"
  shows "R (w_tables w) (w_tables (snd (snd (Login sv cy ttl nick pw e w))))"
proof (cases "NormalizeNickname sv nick")
  case (Inl err)
  then show ?thesis by (simp add: Login_def refuse_def refl)
next
  case (Inr n)
  obtain r w1 where u: "UserByNickname Pool n e w = (r, w1)" by fastforce
  have w1: "w_tables w1 = w_tables w" using read_tables(1)[of Pool n e w] u by simp
  have ins: "R (w_tables w) (w_tables (snd (InsertToken Pool (NewToken cy i ttl) e w1)))" for i
    using write_rel(1)[of "NewToken cy i ttl" w1 Pool e] assms w1 by (simp add: NewToken_def Let_def)
  show ?thesis
    using ins w1 refl
    by (auto simp: Login_def Inr u refuse_def Let_def split: sum.split prod.split) (metis snd_conv)+
qed

end

end
