(* ===== verification/Integrity.thy ===== *)
theory Integrity
  imports Sessions
begin

text \<open>
  Every service keeps the database in order: the schema's constraints, the derived sort keys and
  the one default collection per account.  First each writing statement on the tables, then the
  services through the rules of \<^verbatim>\<open>session_rel\<close>.  Signing up is the operation that needs its
  transaction: between its two inserts the account has no default collection.
\<close>

section \<open>Statements\<close>

lemma distinct_map_filter_and:
  "distinct (map f (filter P xs)) \<Longrightarrow> distinct (map f (filter (\<lambda>x. Q x \<and> P x) xs))"
  using distinct_map_filter[of f "filter P xs" Q] by (simp add: conj_commute)

lemma schema_insert_user: "stmt_in (\<lambda>t t'. schema_ok t \<longrightarrow> schema_ok t') (sql_insert_user ts nick hash)"
  by (auto simp: stmt_in_def sql_insert_user_def Let_def schema_ok_def users_ok_def tokens_ok_def
      collections_ok_def colors_ok_def)

lemma schema_cascade_user: "schema_ok t \<Longrightarrow> schema_ok (cascade_user i t)"
  by (auto simp: cascade_user_def schema_ok_def users_ok_def tokens_ok_def collections_ok_def
      colors_ok_def distinct_map_filter distinct_map_filter_and)

lemma schema_delete_user: "stmt_in (\<lambda>t t'. schema_ok t \<longrightarrow> schema_ok t') (sql_delete_user i)"
  by (simp add: stmt_in_def sql_delete_user_def Let_def schema_cascade_user)

lemma schema_insert_token: "stmt_in (\<lambda>t t'. schema_ok t \<longrightarrow> schema_ok t') (sql_insert_token h i ex)"
  by (auto simp: stmt_in_def sql_insert_token_def Let_def schema_ok_def users_ok_def tokens_ok_def
      collections_ok_def colors_ok_def)

lemma schema_delete_token: "stmt_in (\<lambda>t t'. schema_ok t \<longrightarrow> schema_ok t') (sql_delete_token h)"
  by (auto simp: stmt_in_def sql_delete_token_def Let_def schema_ok_def users_ok_def tokens_ok_def
      collections_ok_def colors_ok_def distinct_map_filter)

lemma schema_insert_collection:
  "stmt_in (\<lambda>t t'. schema_ok t \<longrightarrow> schema_ok t') (sql_insert_collection new ts i p)"
  by (auto simp: stmt_in_def sql_insert_collection_def Let_def schema_ok_def users_ok_def tokens_ok_def
      collections_ok_def colors_ok_def)

lemma update_row_simps [simp]:
  "cr_id (update_row p r) = cr_id r" "cr_user_id (update_row p r) = cr_user_id r"
  "cr_is_default (update_row p r) = cr_is_default r" "cr_created_at (update_row p r) = cr_created_at r"
  by (simp_all add: update_row_def)

text \<open>Updating rows in place keeps every column that the update does not assign.\<close>

lemma update_rows_map [simp]:
  "map cr_id (update_rows hit p cs) = map cr_id cs"
  "map cr_user_id (filter cr_is_default (update_rows hit p cs)) = map cr_user_id (filter cr_is_default cs)"
  by (induction cs) (auto simp: update_rows_def)

lemma update_rows_image [simp]:
  "cr_id ` set (update_rows hit p cs) = cr_id ` set cs"
  "cr_user_id ` set (update_rows hit p cs) = cr_user_id ` set cs"
  by (induction cs) (auto simp: update_rows_def)

lemma schema_update_collection:
  "stmt_in (\<lambda>t t'. schema_ok t \<longrightarrow> schema_ok t') (sql_update_collection c i p)"
  by (auto simp: stmt_in_def sql_update_collection_def Let_def schema_ok_def users_ok_def tokens_ok_def
      collections_ok_def colors_ok_def split: option.splits)

lemma schema_delete_collection:
  "stmt_in (\<lambda>t t'. schema_ok t \<longrightarrow> schema_ok t') (sql_delete_collection c i)"
  by (auto simp: stmt_in_def sql_delete_collection_def Let_def schema_ok_def users_ok_def tokens_ok_def
      collections_ok_def colors_ok_def distinct_map_filter distinct_map_filter_and)

lemma schema_insert_color:
  "stmt_in (\<lambda>t t'. schema_ok t \<longrightarrow> schema_ok t') (sql_insert_color c h key ts)"
  by (auto simp: stmt_in_def sql_insert_color_def Let_def schema_ok_def users_ok_def tokens_ok_def
      collections_ok_def colors_ok_def)

lemma schema_delete_color: "stmt_in (\<lambda>t t'. schema_ok t \<longrightarrow> schema_ok t') (sql_delete_color c h)"
  by (auto simp: stmt_in_def sql_delete_color_def Let_def schema_ok_def users_ok_def tokens_ok_def
      collections_ok_def colors_ok_def distinct_map_filter)

lemma schema_delete_all_colors: "stmt_in (\<lambda>t t'. schema_ok t \<longrightarrow> schema_ok t') (sql_delete_all_colors c)"
  by (auto simp: stmt_in_def sql_delete_all_colors_def Let_def schema_ok_def users_ok_def tokens_ok_def
      collections_ok_def colors_ok_def distinct_map_filter)

lemmas schema_statements = schema_insert_user schema_delete_user schema_insert_token schema_delete_token
  schema_insert_collection schema_update_collection schema_delete_collection schema_insert_color
  schema_delete_color schema_delete_all_colors

section \<open>Keys and defaults\<close>

lemma keys_statements:
  "stmt_in (\<lambda>t t'. keys_ok m t \<longrightarrow> keys_ok m t') (sql_insert_user ts nick hash)"
  "stmt_in (\<lambda>t t'. keys_ok m t \<longrightarrow> keys_ok m t') (sql_delete_user i)"
  "stmt_in (\<lambda>t t'. keys_ok m t \<longrightarrow> keys_ok m t') (sql_insert_token th i ex)"
  "stmt_in (\<lambda>t t'. keys_ok m t \<longrightarrow> keys_ok m t') (sql_delete_token th)"
  "stmt_in (\<lambda>t t'. keys_ok m t \<longrightarrow> keys_ok m t') (sql_insert_collection new ts i p)"
  "stmt_in (\<lambda>t t'. keys_ok m t \<longrightarrow> keys_ok m t') (sql_update_collection c i up)"
  "stmt_in (\<lambda>t t'. keys_ok m t \<longrightarrow> keys_ok m t') (sql_delete_collection c i)"
  "stmt_in (\<lambda>t t'. keys_ok m t \<longrightarrow> keys_ok m t') (sql_insert_color c h (Feel m h) ts)"
  "stmt_in (\<lambda>t t'. keys_ok m t \<longrightarrow> keys_ok m t') (sql_delete_color c h)"
  "stmt_in (\<lambda>t t'. keys_ok m t \<longrightarrow> keys_ok m t') (sql_delete_all_colors c)"
  by (auto simp: stmt_in_def keys_ok_def sql_insert_user_def sql_delete_user_def cascade_user_def
      sql_insert_token_def sql_delete_token_def sql_insert_collection_def sql_update_collection_def
      sql_delete_collection_def sql_insert_color_def sql_delete_color_def sql_delete_all_colors_def
      Let_def split: option.splits)

lemma update_rows_default:
  "(\<exists>c \<in> set (update_rows hit p cs). cr_user_id c = i \<and> cr_is_default c)
    \<longleftrightarrow> (\<exists>c \<in> set cs. cr_user_id c = i \<and> cr_is_default c)"
  by (induction cs) (auto simp: update_rows_def)

lemma defaults_statements:
  "stmt_in (\<lambda>t t'. defaults_ok t \<longrightarrow> defaults_ok t') (sql_delete_user i)"
  "stmt_in (\<lambda>t t'. defaults_ok t \<longrightarrow> defaults_ok t') (sql_insert_token th i ex)"
  "stmt_in (\<lambda>t t'. defaults_ok t \<longrightarrow> defaults_ok t') (sql_delete_token th)"
  "stmt_in (\<lambda>t t'. defaults_ok t \<longrightarrow> defaults_ok t') (sql_insert_collection new ts i p)"
  "stmt_in (\<lambda>t t'. defaults_ok t \<longrightarrow> defaults_ok t') (sql_update_collection c i up)"
  "stmt_in (\<lambda>t t'. defaults_ok t \<longrightarrow> defaults_ok t') (sql_insert_color c h key ts)"
  "stmt_in (\<lambda>t t'. defaults_ok t \<longrightarrow> defaults_ok t') (sql_delete_color c h)"
  "stmt_in (\<lambda>t t'. defaults_ok t \<longrightarrow> defaults_ok t') (sql_delete_all_colors c)"
  by (auto simp: stmt_in_def defaults_ok_def sql_delete_user_def cascade_user_def
      sql_insert_token_def sql_delete_token_def sql_insert_collection_def sql_update_collection_def
      sql_insert_color_def sql_delete_color_def sql_delete_all_colors_def update_rows_default
      Let_def split: option.splits) metis

text \<open>A deletion keeps the defaults when the row is not one: what the service checks first.\<close>

lemma defaults_delete_collection:
  assumes "defaults_ok t" "collections_ok t"
    and "r \<in> set (t_collections t)" "cr_id r = c" "cr_user_id r = i" "\<not> cr_is_default r"
    and "w_tables w = t"
  shows "defaults_ok (w_tables (snd (sql_delete_collection c i w)))"
proof -
  have "x = r" if "x \<in> set (t_collections t)" "cr_id x = c" for x
    using that assms(2-4) by (auto simp: collections_ok_def distinct_map dest: inj_onD)
  then show ?thesis
    using assms by (fastforce simp: defaults_ok_def sql_delete_collection_def Let_def)
qed

section \<open>Services\<close>

text \<open>The part of \<^verbatim>\<open>app_ok\<close> that every single statement keeps, and the part signing up breaks midway.\<close>

definition store_ok :: "fenv \<Rightarrow> tables \<Rightarrow> bool" where
  "store_ok m t \<longleftrightarrow> schema_ok t \<and> keys_ok m t"

lemma store_stmt:
  "stmt_in (\<lambda>t t'. schema_ok t \<longrightarrow> schema_ok t') st \<Longrightarrow>
   stmt_in (\<lambda>t t'. keys_ok m t \<longrightarrow> keys_ok m t') st \<Longrightarrow>
   stmt_in (\<lambda>t t'. store_ok m t \<longrightarrow> store_ok m t') st"
  by (auto simp: stmt_in_def store_ok_def)

lemma app_stmt:
  "stmt_in (\<lambda>t t'. schema_ok t \<longrightarrow> schema_ok t') st \<Longrightarrow>
   stmt_in (\<lambda>t t'. keys_ok m t \<longrightarrow> keys_ok m t') st \<Longrightarrow>
   stmt_in (\<lambda>t t'. defaults_ok t \<longrightarrow> defaults_ok t') st \<Longrightarrow>
   stmt_in (\<lambda>t t'. app_ok m t \<longrightarrow> app_ok m t') st"
  by (auto simp: stmt_in_def app_ok_def)

lemma store_statements:
  "stmt_in (\<lambda>t t'. store_ok m t \<longrightarrow> store_ok m t') (sql_insert_user ts nick hash)"
  "stmt_in (\<lambda>t t'. store_ok m t \<longrightarrow> store_ok m t') (sql_insert_collection new ts i p)"
  "stmt_in (\<lambda>t t'. store_ok m t \<longrightarrow> store_ok m t') (sql_delete_collection c i)"
  by (rule store_stmt; rule schema_statements keys_statements)+

lemma app_statements:
  "stmt_in (\<lambda>t t'. app_ok m t \<longrightarrow> app_ok m t') (sql_delete_user i)"
  "stmt_in (\<lambda>t t'. app_ok m t \<longrightarrow> app_ok m t') (sql_insert_token th i ex)"
  "stmt_in (\<lambda>t t'. app_ok m t \<longrightarrow> app_ok m t') (sql_delete_token th)"
  "stmt_in (\<lambda>t t'. app_ok m t \<longrightarrow> app_ok m t') (sql_insert_collection new ts i p)"
  "stmt_in (\<lambda>t t'. app_ok m t \<longrightarrow> app_ok m t') (sql_update_collection c i up)"
  "stmt_in (\<lambda>t t'. app_ok m t \<longrightarrow> app_ok m t') (sql_insert_color c h (Feel m h) ts)"
  "stmt_in (\<lambda>t t'. app_ok m t \<longrightarrow> app_ok m t') (sql_delete_color c h)"
  "stmt_in (\<lambda>t t'. app_ok m t \<longrightarrow> app_ok m t') (sql_delete_all_colors c)"
  by (rule app_stmt; rule schema_statements keys_statements defaults_statements)+

interpretation store: session_rel "\<lambda>t t'. store_ok m t \<longrightarrow> store_ok m t'" for m
  by unfold_locales auto

interpretation app: session_rel "\<lambda>t t'. app_ok m t \<longrightarrow> app_ok m t'" for m
  by unfold_locales auto

text \<open>What the two inserts of a successful sign-up do.\<close>

lemma CreateUser_Inr:
  assumes "CreateUser q u e w = (Inr v, w')"
  shows "\<exists>r. t_users (w_tables w') = t_users (w_tables w) @ [r] \<and> ur_id r = user_ID v
      \<and> ur_nickname r = user_Nickname u \<and> ur_password_hash r = user_PasswordHash u"
    "t_collections (w_tables w') = t_collections (w_tables w)"
    "t_colors (w_tables w') = t_colors (w_tables w)" "t_tokens (w_tables w') = t_tokens (w_tables w)"
    "user_ID v = w_next_user_id w" "user_Nickname v = user_Nickname u"
    "user_ID v \<notin> ur_id ` set (t_users (w_tables w))"
  using assms
  by (auto simp: CreateUser_def send_Inr_iff sql_insert_user_def Let_def
      split: prod.splits sum.splits if_splits)

lemma CreateCollection_Inr:
  assumes "CreateCollection q i p e w = (Inr v, w')"
  shows "\<exists>r. t_collections (w_tables w') = t_collections (w_tables w) @ [r] \<and> cr_user_id r = i
      \<and> cr_is_default r = cp_IsDefault p \<and> v = scan_collection e r \<and> cr_name r = cp_Name p
      \<and> cr_icon_slug r = cp_Icon p \<and> cr_icon_accent r = cp_Accent p"
    "t_users (w_tables w') = t_users (w_tables w)"
    "t_colors (w_tables w') = t_colors (w_tables w)" "t_tokens (w_tables w') = t_tokens (w_tables w)"
  using assms
  by (auto simp: CreateCollection_def send_Inr_iff sql_insert_collection_def Let_def
      split: prod.splits sum.splits if_splits)

lemma create_user_tx_Inr:
  assumes "create_user_tx u q e w = (Inr v, w')"
  obtains w1 c where "CreateUser q u e w = (Inr v, w1)"
    "CreateCollection q (user_ID v) \<lparr>cp_Name = DefCollectionName, cp_Icon = DefIconSlug,
       cp_Accent = DefIconAccent, cp_IsDefault = True\<rparr> e w1 = (Inr c, w')"
  using assms by (auto simp: create_user_tx_def split: prod.splits sum.splits)

lemma CreateUser_app: "app_ok m (w_tables w) \<longrightarrow> app_ok m (w_tables (snd (usersvc_CreateUser u e w)))"
  unfolding usersvc_CreateUser_def
proof (rule app.InTx_rel, rule impI)
  fix ts w1 v w2
  assume tx: "create_user_tx u (Tx ts) e w1 = (Inr v, w2)" and w1: "w_tables w1 = w_tables w"
    and ok: "app_ok m (w_tables w)"
  obtain w3 c where u: "CreateUser (Tx ts) u e w1 = (Inr v, w3)"
    and c: "CreateCollection (Tx ts) (user_ID v) \<lparr>cp_Name = DefCollectionName, cp_Icon = DefIconSlug,
       cp_Accent = DefIconAccent, cp_IsDefault = True\<rparr> e w3 = (Inr c, w2)"
    using create_user_tx_Inr[OF tx] by blast
  have "store_ok m (w_tables w1)" using ok w1 by (simp add: app_ok_def store_ok_def)
  then have "store_ok m (w_tables w3)"
    using store.send_rel[OF store_statements(1), of m w1 e] u op_state(1)[of "Tx ts" u e w1]
    by (metis snd_conv)
  then have "store_ok m (w_tables w2)"
    using store.send_rel[OF store_statements(2), of m w3 e] c
      op_state(9)[of "Tx ts" "user_ID v" _ e w3] by (metis snd_conv)
  moreover have "defaults_ok (w_tables w2)"
    using ok w1 CreateUser_Inr[OF u] CreateCollection_Inr[OF c] by (auto simp: app_ok_def defaults_ok_def)
  ultimately show "app_ok m (w_tables w2)" by (simp add: app_ok_def store_ok_def)
qed

lemma CollectionByID_Inr:
  assumes "CollectionByID q i c e w = (Inr v, w')"
  shows "\<exists>r \<in> set (t_collections (w_tables w)). cr_id r = c \<and> cr_user_id r = i \<and> v = scan_collection e r"
    "w_tables w' = w_tables w"
  using assms
  by (auto simp: CollectionByID_def send_Inr_iff sql_collection_def find_Some_iff
      split: prod.splits sum.splits option.splits)

text \<open>Deleting a collection: the check on the default comes first, in its own round trip.\<close>

lemma DeleteCollection_app:
  "app_ok m (w_tables w) \<longrightarrow> app_ok m (w_tables (snd (collectionsvc_DeleteCollection i c e w)))"
  unfolding collectionsvc_DeleteCollection_def
proof (rule app.then_rel)
  show "app_ok m (w_tables w) \<longrightarrow> app_ok m (w_tables (snd (CollectionByID Pool i c e w)))" by simp
next
  fix v w1 assume "CollectionByID Pool i c e w = (Inr v, w1)"
  then obtain r where r: "r \<in> set (t_collections (w_tables w))" "cr_id r = c" "cr_user_id r = i"
      "v = scan_collection e r" and w1: "w_tables w1 = w_tables w"
    using CollectionByID_Inr by blast
  have "app_ok m (w_tables (snd (DeleteCollection Pool i c e w1)))"
    if ok: "app_ok m (w_tables w1)" and nd: "\<not> col_IsDefault v"
  proof -
    let ?w = "w1\<lparr>w_round := Suc (w_round w1)\<rparr>"
    let ?t = "w_tables (snd (sql_delete_collection c i ?w))"
    have "store_ok m ?t"
      using store_statements(3)[of m c i] ok unfolding stmt_in_def
      by (metis app_ok_def store_ok_def world.select_convs(1) world.surjective world.update_convs(3))
    moreover have "defaults_ok ?t"
      using r w1 nd ok
      by (intro defaults_delete_collection[of "w_tables w1"])
        (auto simp: app_ok_def schema_ok_def scan_collection_def)
    ultimately show ?thesis
      using send_tables[of e "sql_delete_collection c i" w1] ok
      by (auto simp: op_state app_ok_def store_ok_def)
  qed
  then show "app_ok m (w_tables w1) \<longrightarrow> app_ok m (w_tables (snd
      (if col_IsDefault v then (Inl (Sentinel ErrDeleteDefault), w1) else DeleteCollection Pool i c e w1)))"
    by simp
qed

lemma AddColor_app:
  "pe_math e = m \<Longrightarrow> app_ok m (w_tables w) \<longrightarrow> app_ok m (w_tables (snd (colorsvc_AddColor quota i c h e w)))"
  using app_statements(6)[of m c h] by (intro app.AddColor_rel) (simp add: stmt_in_def)

lemma DeleteColor_app:
  "app_ok m (w_tables w) \<longrightarrow> app_ok m (w_tables (snd (colorsvc_DeleteColor i c h e w)))"
  unfolding colorsvc_DeleteColor_def
  by (rule app.owned_rel) (rule app.write_rel(8)[OF app_statements(7)])

lemma DeleteAllColors_app:
  "app_ok m (w_tables w) \<longrightarrow> app_ok m (w_tables (snd (colorsvc_DeleteAllColors i c e w)))"
  unfolding colorsvc_DeleteAllColors_def
  by (rule app.owned_rel) (rule app.write_rel(9)[OF app_statements(8)])

lemma CreateCollection_app:
  "app_ok m (w_tables w) \<longrightarrow> app_ok m (w_tables (snd (collectionsvc_CreateCollection quota i p e w)))"
  using app_statements(4)[of m] by (intro app.CreateCollection_rel) (simp add: stmt_in_def)

lemma UpdateCollection_app:
  "app_ok m (w_tables w) \<longrightarrow> app_ok m (w_tables (snd (collectionsvc_UpdateCollection i c p e w)))"
  unfolding collectionsvc_UpdateCollection_def by (rule app.write_rel(5)[OF app_statements(5)])

lemma DeleteUser_app:
  "app_ok m (w_tables w) \<longrightarrow> app_ok m (w_tables (snd (usersvc_DeleteUser i e w)))"
  unfolding usersvc_DeleteUser_def by (rule app.write_rel(3)[OF app_statements(1)])

lemma Logout_app: "app_ok m (w_tables w) \<longrightarrow> app_ok m (w_tables (snd (Logout th e w)))"
  unfolding Logout_def by (rule app.write_rel(2)[OF app_statements(3)])

lemma Login_app:
  "app_ok m (w_tables w) \<longrightarrow> app_ok m (w_tables (snd (snd (Login sv cy ttl nick pw e w))))"
  by (rule app.Login_rel) (rule app_statements(2))

lemmas services_app = CreateUser_app DeleteUser_app CreateCollection_app UpdateCollection_app
  DeleteCollection_app AddColor_app DeleteColor_app DeleteAllColors_app Logout_app Login_app

end
