(* ===== verification/Isolation.thy ===== *)
theory Isolation
  imports Integrity
begin

text \<open>
  What one user's requests can do to another user's data: nothing.  \<^verbatim>\<open>user_view j\<close> is everything the
  database holds for user \<^verbatim>\<open>j\<close>; every service called for a user \<^verbatim>\<open>i\<close> other than \<^verbatim>\<open>j\<close> leaves it as it
  was, whatever collection id the call names and whatever the connection does.
\<close>

section \<open>A user's data\<close>

definition owns :: "tables \<Rightarrow> user_id \<Rightarrow> clt_id \<Rightarrow> bool" where
  "owns t i c \<longleftrightarrow> (\<exists>r \<in> set (t_collections t). cr_id r = c \<and> cr_user_id r = i)"

definition user_view ::
    "user_id \<Rightarrow> tables \<Rightarrow> user_row list \<times> token_row list \<times> collection_row list \<times> color_row list" where
  "user_view j t =
     (filter (\<lambda>r. ur_id r = j) (t_users t), filter (\<lambda>r. tr_user_id r = j) (t_tokens t),
      filter (\<lambda>r. cr_user_id r = j) (t_collections t),
      filter (\<lambda>r. owns t j (xr_collection_id r)) (t_colors t))"

text \<open>A collection has one owner.\<close>

lemma owns_unique: "schema_ok t \<Longrightarrow> owns t i c \<Longrightarrow> owns t j c \<Longrightarrow> i = j"
  by (auto simp: schema_ok_def collections_ok_def owns_def distinct_map dest: inj_onD)

section \<open>Statements\<close>

text \<open>What another user \<^verbatim>\<open>j\<close> sees of a change: nothing, while the schema holds.\<close>

definition unseen :: "user_id \<Rightarrow> tables \<Rightarrow> tables \<Rightarrow> bool" where
  "unseen j t t' \<longleftrightarrow> (schema_ok t \<longrightarrow> schema_ok t' \<and> user_view j t' = user_view j t)"

lemma unseen_stmt:
  assumes "stmt_in (\<lambda>t t'. schema_ok t \<longrightarrow> schema_ok t') st"
    and "\<And>w. schema_ok (w_tables w) \<Longrightarrow> user_view j (w_tables (snd (st w))) = user_view j (w_tables w)"
  shows "stmt_in (unseen j) st"
  using assms by (auto simp: stmt_in_def unseen_def)

lemma filter_update_rows:
  "i \<noteq> j \<Longrightarrow> filter (\<lambda>r. cr_user_id r = j) (update_rows (\<lambda>r. cr_id r = c \<and> cr_user_id r = i) p cs)
    = filter (\<lambda>r. cr_user_id r = j) cs"
  by (induction cs) (auto simp: update_rows_def)

lemma update_rows_owner:
  "(\<exists>r \<in> set (update_rows hit p cs). cr_id r = c \<and> cr_user_id r = j)
    \<longleftrightarrow> (\<exists>r \<in> set cs. cr_id r = c \<and> cr_user_id r = j)"
  by (induction cs) (auto simp: update_rows_def)

lemma owns_update_rows [simp]:
  "owns (t\<lparr>t_collections := update_rows hit p (t_collections t)\<rparr>) j c \<longleftrightarrow> owns t j c"
  by (simp add: owns_def update_rows_owner)

lemma view_update_collection:
  "i \<noteq> j \<Longrightarrow> stmt_in (unseen j) (sql_update_collection c i p)"
  by (rule unseen_stmt[OF schema_update_collection])
    (auto simp: user_view_def sql_update_collection_def Let_def filter_update_rows split: option.splits)

lemma view_insert_token: "i \<noteq> j \<Longrightarrow> stmt_in (unseen j) (sql_insert_token h i ex)"
  by (rule unseen_stmt[OF schema_insert_token]) (auto simp: user_view_def sql_insert_token_def Let_def owns_def)

lemma view_insert_collection: "i \<noteq> j \<Longrightarrow> stmt_in (unseen j) (sql_insert_collection new ts i p)"
  by (rule unseen_stmt[OF schema_insert_collection])
    (auto simp: user_view_def sql_insert_collection_def Let_def owns_def)

lemma view_delete_collection:
  assumes "i \<noteq> j" shows "stmt_in (unseen j) (sql_delete_collection c i)"
proof (rule unseen_stmt[OF schema_delete_collection])
  fix w :: world assume ok: "schema_ok (w_tables w)"
  let ?t = "w_tables w"
  let ?t' = "w_tables (snd (sql_delete_collection c i w))"
  have "owns ?t' j x \<longleftrightarrow> owns ?t j x" for x
    using assms by (auto simp: owns_def sql_delete_collection_def Let_def)
  moreover have "\<not> (owns ?t i c \<and> owns ?t j c)" using owns_unique[OF ok] assms by blast
  ultimately show "user_view j ?t' = user_view j ?t"
    using assms by (auto simp: user_view_def sql_delete_collection_def Let_def owns_def intro!: filter_cong)
qed

lemma view_delete_user:
  assumes "i \<noteq> j" shows "stmt_in (unseen j) (sql_delete_user i)"
proof (rule unseen_stmt[OF schema_delete_user])
  fix w :: world assume ok: "schema_ok (w_tables w)"
  let ?t = "w_tables w"
  let ?t' = "w_tables (snd (sql_delete_user i w))"
  have "owns ?t' j x \<longleftrightarrow> owns ?t j x" for x
    using assms by (auto simp: owns_def sql_delete_user_def cascade_user_def Let_def)
  moreover have "\<not> (owns ?t i x \<and> owns ?t j x)" for x using owns_unique[OF ok] assms by blast
  ultimately show "user_view j ?t' = user_view j ?t"
    using assms
    by (auto simp: user_view_def sql_delete_user_def cascade_user_def Let_def owns_def intro!: filter_cong)
qed

text \<open>The colour statements name a collection only; the services have resolved its owner.\<close>

lemma view_color_statements:
  assumes "i \<noteq> j" "owns (w_tables w) i c"
  shows "unseen j (w_tables w) (w_tables (snd (sql_insert_color c h key ts w)))"
    "unseen j (w_tables w) (w_tables (snd (sql_delete_color c h w)))"
    "unseen j (w_tables w) (w_tables (snd (sql_delete_all_colors c w)))"
proof -
  have n: "\<not> owns (w_tables w) j c" if "schema_ok (w_tables w)" using owns_unique[OF that] assms by blast
  have o: "owns (w_tables w\<lparr>t_colors := xs\<rparr>) i' c' \<longleftrightarrow> owns (w_tables w) i' c'" for xs i' c'
    by (simp add: owns_def)
  show "unseen j (w_tables w) (w_tables (snd (sql_insert_color c h key ts w)))"
    using n schema_insert_color[of c h key ts]
    by (auto simp: unseen_def stmt_in_def) (auto simp: user_view_def sql_insert_color_def Let_def o)
  show "unseen j (w_tables w) (w_tables (snd (sql_delete_color c h w)))"
    using n schema_delete_color[of c h]
    by (auto simp: unseen_def stmt_in_def) (auto simp: user_view_def sql_delete_color_def Let_def o intro!: filter_cong)
  show "unseen j (w_tables w) (w_tables (snd (sql_delete_all_colors c w)))"
    using n schema_delete_all_colors[of c]
    by (auto simp: unseen_def stmt_in_def) (auto simp: user_view_def sql_delete_all_colors_def Let_def o intro!: filter_cong)
qed

section \<open>Services\<close>

interpretation view: session_rel "unseen j" for j
  by unfold_locales (auto simp: unseen_def)

lemma AddColor_unseen:
  "i \<noteq> j \<Longrightarrow> unseen j (w_tables w) (w_tables (snd (colorsvc_AddColor quota i c h e w)))"
  using view_color_statements(1) by (intro view.AddColor_rel) (simp add: owns_def)

lemma DeleteColor_unseen:
  "i \<noteq> j \<Longrightarrow> unseen j (w_tables w) (w_tables (snd (colorsvc_DeleteColor i c h e w)))"
  unfolding colorsvc_DeleteColor_def
  by (rule view.owned_rel, unfold op_state, rule view.send_rel_at)
    (use view_color_statements(2)[of i j "_\<lparr>w_round := _\<rparr>"] in \<open>simp add: owns_def\<close>)

lemma DeleteAllColors_unseen:
  "i \<noteq> j \<Longrightarrow> unseen j (w_tables w) (w_tables (snd (colorsvc_DeleteAllColors i c e w)))"
  unfolding colorsvc_DeleteAllColors_def
  by (rule view.owned_rel, unfold op_state, rule view.send_rel_at)
    (use view_color_statements(3)[of i j "_\<lparr>w_round := _\<rparr>"] in \<open>simp add: owns_def\<close>)

lemma CreateCollection_unseen:
  "i \<noteq> j \<Longrightarrow> unseen j (w_tables w) (w_tables (snd (collectionsvc_CreateCollection quota i p e w)))"
  using view_insert_collection by (intro view.CreateCollection_rel) (simp add: stmt_in_def)

lemma UpdateCollection_unseen:
  "i \<noteq> j \<Longrightarrow> unseen j (w_tables w) (w_tables (snd (collectionsvc_UpdateCollection i c p e w)))"
  unfolding collectionsvc_UpdateCollection_def by (rule view.write_rel(5)[OF view_update_collection])

lemma DeleteCollection_unseen:
  "i \<noteq> j \<Longrightarrow> unseen j (w_tables w) (w_tables (snd (collectionsvc_DeleteCollection i c e w)))"
  unfolding collectionsvc_DeleteCollection_def
  by (rule view.then_rel) (use view.write_rel(6)[OF view_delete_collection] in \<open>auto simp: view.refl\<close>)

lemma DeleteUser_unseen:
  "i \<noteq> j \<Longrightarrow> unseen j (w_tables w) (w_tables (snd (usersvc_DeleteUser i e w)))"
  unfolding usersvc_DeleteUser_def by (rule view.write_rel(3)[OF view_delete_user])

end
