(* ===== verification/Binary64.thy ===== *)
theory Binary64
  imports Go_Float
begin

text \<open>
  IEEE binary64 with round-to-nearest-even, over the reals and without overflow: the exponent of
  the last bit, the rounding of the significand, and the environment whose elementary functions
  are correctly rounded.  It interprets the locales \<^verbatim>\<open>ieee\<close> and \<^verbatim>\<open>go_math\<close>, so the laws the
  colour theories assume hold of real double arithmetic.
\<close>

section \<open>Rounding to 53 bits\<close>

text \<open>Halves go to the even neighbour.\<close>

definition rne :: "real \<Rightarrow> int" where
  "rne x = (let f = \<lfloor>x\<rfloor>; d = x - of_int f in
     if d < 1 / 2 then f else if d > 1 / 2 then f + 1 else if even f then f else f + 1)"

text \<open>The exponent of the unit in the last place; \<open>-1074\<close> is that of the subnormals.\<close>

definition ulp_exp :: "real \<Rightarrow> int" where
  "ulp_exp x = max (\<lfloor>log 2 \<bar>x\<bar>\<rfloor> - 52) (- 1074)"

definition rnd64 :: "real \<Rightarrow> real" where
  "rnd64 x = (if x = 0 then 0 else of_int (rne (x / 2 powi ulp_exp x)) * 2 powi ulp_exp x)"

lemma rne_of_int [simp]: "rne (of_int k) = k"
  by (simp add: rne_def)

lemma rne_close: "\<bar>of_int (rne x) - x\<bar> \<le> 1 / 2"
proof -
  have "of_int \<lfloor>x\<rfloor> \<le> x" "x < of_int \<lfloor>x\<rfloor> + 1" by linarith+
  then show ?thesis by (auto simp: rne_def Let_def)
qed

lemma rne_mono: "x \<le> y \<Longrightarrow> rne x \<le> rne y"
proof -
  assume le: "x \<le> y"
  show ?thesis
  proof (cases "\<lfloor>x\<rfloor> = \<lfloor>y\<rfloor>")
    case True
    then show ?thesis using le by (auto simp: rne_def Let_def)
  next
    case False
    then have lt: "\<lfloor>x\<rfloor> + 1 \<le> \<lfloor>y\<rfloor>" using floor_mono[OF le] by linarith
    have "rne x \<le> \<lfloor>x\<rfloor> + 1" "\<lfloor>y\<rfloor> \<le> rne y" by (auto simp: rne_def Let_def)
    then show ?thesis using lt by linarith
  qed
qed

lemma rne_minus: "rne (- x) = - rne x"
proof (cases "x = of_int \<lfloor>x\<rfloor>")
  case True
  then have "rne x = \<lfloor>x\<rfloor>" "rne (- x) = - \<lfloor>x\<rfloor>"
    by (metis rne_of_int) (metis True of_int_minus rne_of_int)
  then show ?thesis by simp
next
  case False
  then have f: "\<lfloor>- x\<rfloor> = - \<lfloor>x\<rfloor> - 1" by (simp add: floor_eq_iff, linarith)
  show ?thesis by (auto simp: rne_def Let_def f)
qed

lemma rnd64_0 [simp]: "rnd64 0 = 0"
  by (simp add: rnd64_def)

lemma ulp_exp_minus [simp]: "ulp_exp (- x) = ulp_exp x"
  by (simp add: ulp_exp_def)

lemma rnd64_minus: "rnd64 (- x) = - rnd64 x"
  by (simp add: rnd64_def rne_minus)

lemma powi2_pos [simp]: "0 < (2 :: real) powi e"
  by simp

lemma powi2_add: "(2 :: real) powi (a + b) = 2 powi a * 2 powi b"
  by (simp add: power_int_add)

lemma powi2_mono: "a \<le> b \<Longrightarrow> (2 :: real) powi a \<le> 2 powi b"
  by (simp add: power_int_increasing)

lemma log2_powi: "log 2 (2 powi k) = of_int k"
proof -
  have "(2 :: real) powi k = 2 powr of_int k" by (simp add: powr_real_of_int')
  then show ?thesis by simp
qed

lemma floor_log2_bounds:
  assumes "x \<noteq> 0"
  shows "2 powi \<lfloor>log 2 \<bar>x\<bar>\<rfloor> \<le> \<bar>x\<bar>" and "\<bar>x\<bar> < 2 powi (\<lfloor>log 2 \<bar>x\<bar>\<rfloor> + 1)"
proof -
  have eq: "(2 :: real) powr of_int k = 2 powi k" for k
    by (simp add: powr_real_of_int')
  have "2 powr of_int \<lfloor>log 2 \<bar>x\<bar>\<rfloor> \<le> \<bar>x\<bar>"
    using assms by (simp add: powr_le_iff)
  then show "2 powi \<lfloor>log 2 \<bar>x\<bar>\<rfloor> \<le> \<bar>x\<bar>" by (simp add: eq)
  have "\<bar>x\<bar> < 2 powr of_int (\<lfloor>log 2 \<bar>x\<bar>\<rfloor> + 1)"
    using assms by (subst less_powr_iff) (auto simp: less_floor_iff)
  then show "\<bar>x\<bar> < 2 powi (\<lfloor>log 2 \<bar>x\<bar>\<rfloor> + 1)" unfolding eq .
qed

lemma floor_log2_le:
  assumes "0 < \<bar>x\<bar>" "\<bar>x\<bar> \<le> \<bar>y\<bar>"
  shows "\<lfloor>log 2 \<bar>x\<bar>\<rfloor> \<le> \<lfloor>log 2 \<bar>y\<bar>\<rfloor>"
  using assms by (intro floor_mono) (auto intro!: log_mono)

lemma ulp_exp_mono: "0 < \<bar>x\<bar> \<Longrightarrow> \<bar>x\<bar> \<le> \<bar>y\<bar> \<Longrightarrow> ulp_exp x \<le> ulp_exp y"
  using floor_log2_le[of x y] by (auto simp: ulp_exp_def)

text \<open>A multiple of the unit in the last place is representable.\<close>

lemma rnd64_fix:
  assumes "x = of_int k * 2 powi e" and "ulp_exp x \<le> e"
  shows "rnd64 x = x"
proof (cases "x = 0")
  case False
  define n where "n = nat (e - ulp_exp x)"
  have "x / 2 powi ulp_exp x = of_int k * 2 powi (e - ulp_exp x)"
    using assms(1) by (simp add: power_int_diff)
  also have "\<dots> = of_int (k * 2 ^ n)"
    using assms(2) by (simp add: n_def power_int_def)
  finally have q: "x / 2 powi ulp_exp x = of_int (k * 2 ^ n)" .
  have "rnd64 x = (x / 2 powi ulp_exp x) * 2 powi ulp_exp x"
    using False by (simp add: rnd64_def q del: of_int_mult of_int_power)
  then show ?thesis by simp
qed simp

lemma rnd64_close: "\<bar>rnd64 x - x\<bar> \<le> 2 powi ulp_exp x / 2"
proof (cases "x = 0")
  case False
  let ?u = "2 powi ulp_exp x :: real"
  have "\<bar>of_int (rne (x / ?u)) - x / ?u\<bar> * ?u \<le> 1 / 2 * ?u"
    using rne_close[of "x / ?u"] by (intro mult_right_mono) auto
  moreover have "\<bar>of_int (rne (x / ?u)) - x / ?u\<bar> * ?u = \<bar>(of_int (rne (x / ?u)) - x / ?u) * ?u\<bar>"
    by (simp add: abs_mult)
  moreover have "(of_int (rne (x / ?u)) - x / ?u) * ?u = of_int (rne (x / ?u)) * ?u - x"
    by (simp add: left_diff_distrib)
  ultimately show ?thesis using False by (simp add: rnd64_def)
qed simp

lemma rnd64_mono_pos:
  assumes "0 < x" "x \<le> y"
  shows "rnd64 x \<le> rnd64 y"
proof (cases "ulp_exp x = ulp_exp y")
  case True
  have "rne (x / 2 powi ulp_exp y) \<le> rne (y / 2 powi ulp_exp y)"
    using assms by (intro rne_mono divide_right_mono) auto
  then show ?thesis using assms True by (simp add: rnd64_def mult_right_mono)
next
  case False
  let ?e = "ulp_exp x" and ?f = "ulp_exp y"
  have lt: "?e + 1 \<le> ?f" using ulp_exp_mono[of x y] assms False by simp
  then have f: "?f = \<lfloor>log 2 \<bar>y\<bar>\<rfloor> - 52" by (auto simp: ulp_exp_def)
  have "x < 2 powi (\<lfloor>log 2 \<bar>x\<bar>\<rfloor> + 1)" using floor_log2_bounds(2)[of x] assms by simp
  also have "\<dots> \<le> 2 powi (?e + 53)" by (intro powi2_mono) (simp add: ulp_exp_def)
  finally have "x / 2 powi ?e \<le> of_int (2 ^ 53)"
    by (simp add: powi2_add pos_divide_le_eq mult.commute)
  then have "rne (x / 2 powi ?e) \<le> 2 ^ 53" using rne_mono rne_of_int by metis
  then have "of_int (rne (x / 2 powi ?e)) * 2 powi ?e \<le> of_int (2 ^ 53) * (2 powi ?e :: real)"
    by (intro mult_right_mono) (simp_all only: of_int_le_iff, simp)
  then have a: "rnd64 x \<le> 2 powi (?e + 53)"
    using assms by (simp add: rnd64_def powi2_add mult.commute)
  have "2 powi (?f + 52) \<le> y" using floor_log2_bounds(1)[of y] assms f by simp
  then have "of_int (2 ^ 52) \<le> y / 2 powi ?f"
    by (simp add: powi2_add pos_le_divide_eq mult.commute)
  then have "2 ^ 52 \<le> rne (y / 2 powi ?f)" using rne_mono rne_of_int by metis
  then have "of_int (2 ^ 52) * (2 powi ?f :: real) \<le> of_int (rne (y / 2 powi ?f)) * 2 powi ?f"
    by (intro mult_right_mono) (simp_all only: of_int_le_iff, simp)
  then have b: "2 powi (?f + 52) \<le> rnd64 y"
    using assms by (simp add: rnd64_def powi2_add mult.commute)
  have "(2 :: real) powi (?e + 53) \<le> 2 powi (?f + 52)" using lt by (intro powi2_mono) simp
  then show ?thesis using a b by linarith
qed

lemma rnd64_nonneg: "0 \<le> x \<Longrightarrow> 0 \<le> rnd64 x"
proof -
  assume "0 \<le> x"
  then have "rne 0 \<le> rne (x / 2 powi ulp_exp x)" by (intro rne_mono) simp
  then show ?thesis using rne_of_int[of 0] by (simp add: rnd64_def)
qed

lemma rnd64_mono: "x \<le> y \<Longrightarrow> rnd64 x \<le> rnd64 y"
proof -
  assume le: "x \<le> y"
  consider "0 < x" | "x \<le> 0" "0 \<le> y" | "y < 0" using le by linarith
  then show ?thesis
  proof cases
    case 1
    then show ?thesis using le by (rule rnd64_mono_pos)
  next
    case 2
    then have "0 \<le> rnd64 (- x)" "0 \<le> rnd64 y" by (auto intro: rnd64_nonneg)
    then show ?thesis by (simp add: rnd64_minus)
  next
    case 3
    then have "rnd64 (- y) \<le> rnd64 (- x)" using le by (intro rnd64_mono_pos) auto
    then show ?thesis by (simp add: rnd64_minus)
  qed
qed

lemma rnd64_dyadic:
  assumes "\<bar>k\<bar> \<le> 2 ^ 53" and "j \<le> 1022"
  shows "rnd64 (of_int k / 2 ^ j) = of_int k / 2 ^ j"
proof -
  let ?x = "of_int k / 2 ^ j :: real"
  have x: "?x = of_int k * 2 powi (- int j)" by (simp add: power_int_minus_divide)
  consider "k = 0" | "\<bar>k\<bar> = 2 ^ 53" | "k \<noteq> 0" "\<bar>k\<bar> < 2 ^ 53"
    using assms(1) by linarith
  then show ?thesis
  proof cases
    case 2
    define s :: int where "s = sgn k"
    have k: "k = s * 2 ^ 53" "\<bar>s\<bar> = 1" using 2 by (auto simp: s_def sgn_if abs_if)
    have x2: "?x = of_int (s * 2 ^ 52) * 2 powi (1 - int j)"
      by (simp add: k(1) power_int_diff)
    have "\<bar>?x\<bar> = 2 powi (53 - int j)"
      using 2 by (simp add: power_int_diff abs_divide flip: of_int_abs)
    then have "\<lfloor>log 2 \<bar>?x\<bar>\<rfloor> = 53 - int j" by (simp only: log2_powi floor_of_int)
    then have "ulp_exp ?x \<le> 1 - int j" using assms(2) unfolding ulp_exp_def by linarith
    then show ?thesis by (rule rnd64_fix[OF x2])
  next
    case 3
    have "of_int \<bar>k\<bar> < (of_int (2 ^ 53) :: real)" using 3 by (simp only: of_int_less_iff)
    then have "\<bar>?x\<bar> < 2 ^ 53 / 2 ^ j" by (simp add: divide_strict_right_mono)
    also have "\<dots> = 2 powi (53 - int j)" by (simp add: power_int_diff)
    finally have "\<bar>?x\<bar> < 2 powi (53 - int j)" .
    moreover have "?x \<noteq> 0" using 3 by simp
    ultimately have "2 powi \<lfloor>log 2 \<bar>?x\<bar>\<rfloor> < (2 :: real) powi (53 - int j)"
      using floor_log2_bounds(1) by (meson order.strict_trans1)
    then have "\<lfloor>log 2 \<bar>?x\<bar>\<rfloor> < 53 - int j"
      using powi2_mono by (meson linorder_not_less)
    then have "ulp_exp ?x \<le> - int j" using assms(2) unfolding ulp_exp_def by linarith
    then show ?thesis by (rule rnd64_fix[OF x])
  qed simp
qed

lemma rnd64_rel:
  assumes "min_normal \<le> \<bar>x\<bar>"
  shows "\<bar>rnd64 x - x\<bar> \<le> \<bar>x\<bar> / 2 ^ 53"
proof -
  have x0: "x \<noteq> 0" using assms min_normal_pos by auto
  let ?l = "\<lfloor>log 2 \<bar>x\<bar>\<rfloor>"
  have "(2 :: real) powi (- 1022) = min_normal"
    unfolding min_normal_def by (simp only: power_int_minus power_int_numeral inverse_eq_divide)
  then have "(2 :: real) powi (- 1022) < 2 powi (?l + 1)"
    using assms floor_log2_bounds(2)[OF x0] by linarith
  then have "- 1022 < ?l + 1" using powi2_mono by (meson linorder_not_less)
  then have "ulp_exp x = ?l - 52" unfolding ulp_exp_def by linarith
  then have "2 powi ulp_exp x / 2 = (2 powi ?l :: real) / 2 ^ 53"
    by (simp add: power_int_diff)
  also have "\<dots> \<le> \<bar>x\<bar> / 2 ^ 53" using floor_log2_bounds(1)[OF x0] by (intro divide_right_mono) auto
  finally show ?thesis using rnd64_close[of x] by linarith
qed

lemma rnd64_near: "near (rnd64 x) x"
proof -
  define e where "e = \<lparr>f_rnd = rnd64, f_pow = \<lambda>_ _. 0, f_cbrt = \<lambda>_. 0, f_hypot = \<lambda>_ _. 0,
    f_atan2 = \<lambda>_ _. 0, f_cos = \<lambda>_. 0, f_sin = \<lambda>_. 0\<rparr>"
  have "ieee e"
    by unfold_locales (unfold e_def fenv.simps,
        (rule rnd64_mono rnd64_dyadic rnd64_minus rnd64_rel; assumption)+)
  then have "\<bar>rnd64 x - x\<bar> \<le> \<bar>x\<bar> / 2 ^ 53 + min_normal"
    using ieee.rnd_err[of e x] by (simp add: e_def)
  moreover have "\<bar>x\<bar> / 2 ^ 53 \<le> \<bar>x\<bar> / 2 ^ 50" by (intro divide_left_mono) auto
  ultimately show ?thesis unfolding near_def by linarith
qed

section \<open>The binary64 environment\<close>

definition arctan2 :: "real \<Rightarrow> real \<Rightarrow> real" where
  "arctan2 y x = Arg (Complex x y)"

definition binary64_env :: fenv where
  "binary64_env = \<lparr>f_rnd = rnd64,
     f_pow = (\<lambda>x y. rnd64 (x powr y)),
     f_cbrt = (\<lambda>x. rnd64 (root 3 x)),
     f_hypot = (\<lambda>x y. rnd64 (sqrt (x\<^sup>2 + y\<^sup>2))),
     f_atan2 = (\<lambda>y x. rnd64 (arctan2 y x)),
     f_cos = (\<lambda>x. rnd64 (cos x)),
     f_sin = (\<lambda>x. rnd64 (sin x))\<rparr>"

lemma rnd64_abs_mono: "\<bar>x\<bar> \<le> y \<Longrightarrow> \<bar>rnd64 x\<bar> \<le> rnd64 y"
  using rnd64_mono[of x y] rnd64_mono[of "- x" y] rnd64_minus[of x] by linarith

lemma rnd64_unit_err: "\<bar>x\<bar> \<le> 1 \<Longrightarrow> \<bar>rnd64 x - x\<bar> \<le> 1 / 2 ^ 50"
proof (cases "min_normal \<le> \<bar>x\<bar>")
  case True
  assume "\<bar>x\<bar> \<le> 1"
  then have "\<bar>x\<bar> / 2 ^ 53 \<le> 1 / 2 ^ 53" by (intro divide_right_mono) auto
  moreover have "(1 :: real) / 2 ^ 53 \<le> 1 / 2 ^ 50" by simp
  ultimately show ?thesis using rnd64_rel[OF True] by linarith
next
  case False
  have "min_normal \<le> 1 / 2 ^ 51" by (rule min_normal_le) simp
  moreover have "\<bar>rnd64 x\<bar> \<le> min_normal"
    using rnd64_abs_mono[of x min_normal] rnd64_dyadic[of 1 1022] False by (simp add: min_normal_def)
  moreover have "\<bar>x\<bar> < min_normal" using False by simp
  moreover have "(1 :: real) / 2 ^ 51 + 1 / 2 ^ 51 = 1 / 2 ^ 50" by simp
  ultimately show ?thesis by linarith
qed

interpretation binary64: go_math binary64_env
proof unfold_locales
  fix x y :: real and k :: int and j n :: nat
  show "x \<le> y \<Longrightarrow> f_rnd binary64_env x \<le> f_rnd binary64_env y"
    by (simp add: binary64_env_def rnd64_mono)
  show "\<bar>k\<bar> \<le> 2 ^ 53 \<Longrightarrow> j \<le> 1022 \<Longrightarrow> f_rnd binary64_env (of_int k / 2 ^ j) = of_int k / 2 ^ j"
    by (simp add: binary64_env_def rnd64_dyadic)
  show "f_rnd binary64_env (- x) = - f_rnd binary64_env x"
    by (simp add: binary64_env_def rnd64_minus)
  show "min_normal \<le> \<bar>x\<bar> \<Longrightarrow> \<bar>f_rnd binary64_env x - x\<bar> \<le> \<bar>x\<bar> / 2 ^ 53"
    unfolding binary64_env_def fenv.simps by (rule rnd64_rel)
  show "0 \<le> x \<Longrightarrow> near (f_cbrt binary64_env x) (root 3 x)"
    by (simp add: binary64_env_def rnd64_near)
  show "0 \<le> x \<Longrightarrow> 0 \<le> f_cbrt binary64_env x"
    by (simp add: binary64_env_def rnd64_nonneg)
  show "near (f_hypot binary64_env x y) (sqrt (x\<^sup>2 + y\<^sup>2))"
    by (simp add: binary64_env_def rnd64_near)
  show "0 \<le> f_hypot binary64_env x y"
    by (simp add: binary64_env_def rnd64_nonneg)
  show "0 < x \<Longrightarrow> near (f_pow binary64_env x y) (x powr y)"
    by (simp add: binary64_env_def rnd64_near)
  show "n \<le> 3 \<Longrightarrow> f_pow binary64_env 10 (of_nat n) = 10 ^ n"
  proof -
    assume "n \<le> 3"
    then have "(10 :: int) ^ n \<le> 10 ^ 3" by (intro power_increasing) auto
    then have "\<bar>10 ^ n :: int\<bar> \<le> 2 ^ 53" by simp
    then show ?thesis
      using rnd64_dyadic[of "10 ^ n" 0] by (simp add: binary64_env_def powr_realpow)
  qed
  show "\<bar>f_atan2 binary64_env y x\<bar> \<le> f_rnd binary64_env pi"
    using Arg_bounded[of "Complex x y"]
    by (auto simp: binary64_env_def arctan2_def intro!: rnd64_abs_mono)
  show "\<bar>f_cos binary64_env x - cos x\<bar> \<le> 1 / 2 ^ 50"
    unfolding binary64_env_def fenv.simps by (rule rnd64_unit_err) (simp add: abs_le_iff)
  show "\<bar>f_sin binary64_env x - sin x\<bar> \<le> 1 / 2 ^ 50"
    unfolding binary64_env_def fenv.simps by (rule rnd64_unit_err) (simp add: abs_le_iff)
qed

lemma binary64_ieee: "ieee binary64_env"
  by (rule binary64.ieee_axioms)

lemma binary64_go_math: "go_math binary64_env"
  by (rule binary64.go_math_axioms)

end
