(* ===== verification/System.thy ===== *)
theory System
  imports Isolation Binary64
begin

text \<open>
  The services together.  \<^verbatim>\<open>run_call\<close> runs one service call against the server's state;
  \<^verbatim>\<open>reachable\<close> are the states of a database that only these calls have changed, whatever their
  order, their arguments and the fate of their round trips.  The theorems say what every such
  state satisfies.
\<close>

section \<open>Quotas\<close>

definition collections_of :: "user_id \<Rightarrow> tables \<Rightarrow> collection_row list" where
  "collections_of i t = filter (\<lambda>r. cr_user_id r = i) (t_collections t)"

definition quota_ok :: "int \<Rightarrow> int \<Rightarrow> tables \<Rightarrow> bool" where
  "quota_ok colors collections t \<longleftrightarrow>
     (\<forall>c. int (length (colors_of c t)) \<le> colors) \<and> (\<forall>i. int (length (collections_of i t)) \<le> collections)"

text \<open>The schema comes along: a new account has no collections only because of its foreign keys.\<close>

definition in_quota :: "int \<Rightarrow> int \<Rightarrow> tables \<Rightarrow> tables \<Rightarrow> bool" where
  "in_quota qc qk t t' \<longleftrightarrow> (schema_ok t \<and> quota_ok qc qk t \<longrightarrow> schema_ok t' \<and> quota_ok qc qk t')"

interpretation quotas: session_rel "in_quota qc qk" for qc qk
  by unfold_locales (auto simp: in_quota_def)

lemma in_quota_stmt:
  assumes "stmt_in (\<lambda>t t'. schema_ok t \<longrightarrow> schema_ok t') st"
    and "\<And>w c. length (colors_of c (w_tables (snd (st w)))) \<le> length (colors_of c (w_tables w))"
    and "\<And>w i. length (collections_of i (w_tables (snd (st w)))) \<le> length (collections_of i (w_tables w))"
  shows "stmt_in (in_quota qc qk) st"
  unfolding stmt_in_def in_quota_def quota_ok_def
proof (intro allI impI conjI; elim conjE)
  fix w :: world
  assume "schema_ok (w_tables w)"
  then show "schema_ok (w_tables (snd (st w)))" using assms(1) by (simp add: stmt_in_def)
next
  fix w :: world and c
  assume "\<forall>c. int (length (colors_of c (w_tables w))) \<le> qc"
  then have "int (length (colors_of c (w_tables w))) \<le> qc" by blast
  then show "int (length (colors_of c (w_tables (snd (st w))))) \<le> qc"
    using assms(2)[where w = w and c = c] by linarith
next
  fix w :: world and i
  assume "\<forall>i. int (length (collections_of i (w_tables w))) \<le> qk"
  then have "int (length (collections_of i (w_tables w))) \<le> qk" by blast
  then show "int (length (collections_of i (w_tables (snd (st w))))) \<le> qk"
    using assms(3)[where w = w and i = i] by linarith
qed

lemma length_filter_and: "length (filter P (filter Q xs)) \<le> length (filter P xs)"
  by (induction xs) auto

lemma length_filter_update_rows:
  "length (filter (\<lambda>r. cr_user_id r = i) (update_rows hit p cs)) = length (filter (\<lambda>r. cr_user_id r = i) cs)"
  by (induction cs) (auto simp: update_rows_def)

lemma in_quota_statements:
  "stmt_in (in_quota qc qk) (sql_delete_user i)"
  "stmt_in (in_quota qc qk) (sql_insert_token th i ex)"
  "stmt_in (in_quota qc qk) (sql_delete_token th)"
  "stmt_in (in_quota qc qk) (sql_update_collection c i up)"
  "stmt_in (in_quota qc qk) (sql_delete_collection c i)"
  "stmt_in (in_quota qc qk) (sql_delete_color c h)"
  "stmt_in (in_quota qc qk) (sql_delete_all_colors c)"
  by (rule in_quota_stmt, rule schema_statements,
      simp_all add: sql_delete_user_def cascade_user_def sql_insert_token_def sql_delete_token_def
        sql_update_collection_def sql_delete_collection_def sql_delete_color_def sql_delete_all_colors_def
        colors_of_def collections_of_def length_filter_and length_filter_update_rows Let_def
        del: filter_filter split: option.split)+

lemma in_quota_insert_color:
  assumes "int (length (colors_of c (w_tables w))) < qc"
  shows "in_quota qc qk (w_tables w) (w_tables (snd (sql_insert_color c h key ts w)))"
  using assms schema_insert_color[of c h key ts]
  by (auto simp: in_quota_def stmt_in_def)
    (auto simp: quota_ok_def sql_insert_color_def Let_def colors_of_def collections_of_def)

lemma in_quota_insert_collection:
  assumes "int (length (collections_of i (w_tables w))) < qk"
  shows "in_quota qc qk (w_tables w) (w_tables (snd (sql_insert_collection new ts i p w)))"
  using assms schema_insert_collection[of new ts i p]
  by (auto simp: in_quota_def stmt_in_def)
    (auto simp: quota_ok_def sql_insert_collection_def Let_def colors_of_def collections_of_def)

lemma CreateUser_in_quota:
  assumes "1 \<le> qk"
  shows "in_quota qc qk (w_tables w) (w_tables (snd (usersvc_CreateUser u e w)))"
  unfolding usersvc_CreateUser_def
proof (rule quotas.InTx_rel)
  fix ts w1 v w2
  assume tx: "create_user_tx u (Tx ts) e w1 = (Inr v, w2)" and w1: "w_tables w1 = w_tables w"
  obtain w3 c where u: "CreateUser (Tx ts) u e w1 = (Inr v, w3)"
    and c: "CreateCollection (Tx ts) (user_ID v) \<lparr>cp_Name = DefCollectionName, cp_Icon = DefIconSlug,
       cp_Accent = DefIconAccent, cp_IsDefault = True\<rparr> e w3 = (Inr c, w2)"
    using create_user_tx_Inr[OF tx] by blast
  note cu = CreateUser_Inr[OF u]
  show "in_quota qc qk (w_tables w) (w_tables w2)"
    unfolding in_quota_def
  proof (intro impI, elim conjE)
    assume ok: "schema_ok (w_tables w)" and q: "quota_ok qc qk (w_tables w)"
    have empty: "collections_of (user_ID v) (w_tables w) = []"
      using ok cu(7) w1 unfolding schema_ok_def collections_ok_def collections_of_def filter_empty_conv
      by (metis imageI subsetD)
    have "schema_ok (w_tables w3)"
      using send_tables[of e "sql_insert_user (now (Tx ts) e w1) (user_Nickname u) (user_PasswordHash u)" w1]
        schema_insert_user op_state(1)[of "Tx ts" u e w1] u ok w1
      by (auto simp: stmt_in_def)
    then have "schema_ok (w_tables w2)"
      using send_tables[of e _ w3] schema_insert_collection op_state(9)[of "Tx ts" "user_ID v" _ e w3] c
      by (metis (no_types, lifting) snd_conv stmt_in_def world.select_convs(1) world.surjective world.update_convs(3))
    moreover have "quota_ok qc qk (w_tables w2)"
      using q assms empty cu w1 CreateCollection_Inr[OF c]
      by (auto simp: quota_ok_def collections_of_def colors_of_def)
    ultimately show "schema_ok (w_tables w2) \<and> quota_ok qc qk (w_tables w2)" ..
  qed
qed

section \<open>Calls\<close>

datatype svc_call =
    SignUp user
  | CloseAccount user_id
  | Export user_id
  | SignIn strvalid crypto int string string
  | SignOut bytes
  | NewCollection user_id create_params
  | ChangeCollection user_id clt_id update_params
  | DropCollection user_id clt_id
  | Collections user_id
  | SaveColor user_id clt_id hex
  | DropColor user_id clt_id hex
  | DropAllColors user_id clt_id
  | SavedColors user_id clt_id list_params
  | Account user_id
  | OneCollection user_id clt_id
  | Authenticate bytes
  | Probe

definition run_call :: "int \<Rightarrow> int \<Rightarrow> svc_call \<Rightarrow> pg_env \<Rightarrow> world \<Rightarrow> world" where
  "run_call qc qk call e w =
     (case call of
        SignUp u \<Rightarrow> snd (usersvc_CreateUser u e w)
      | CloseAccount i \<Rightarrow> snd (usersvc_DeleteUser i e w)
      | Export i \<Rightarrow> snd (usersvc_ExportUser i e w)
      | SignIn sv cy ttl nick pw \<Rightarrow> snd (snd (Login sv cy ttl nick pw e w))
      | SignOut h \<Rightarrow> snd (Logout h e w)
      | NewCollection i p \<Rightarrow> snd (collectionsvc_CreateCollection qk i p e w)
      | ChangeCollection i c p \<Rightarrow> snd (collectionsvc_UpdateCollection i c p e w)
      | DropCollection i c \<Rightarrow> snd (collectionsvc_DeleteCollection i c e w)
      | Collections i \<Rightarrow> snd (collectionsvc_ListCollections i e w)
      | SaveColor i c h \<Rightarrow> snd (colorsvc_AddColor qc i c h e w)
      | DropColor i c h \<Rightarrow> snd (colorsvc_DeleteColor i c h e w)
      | DropAllColors i c \<Rightarrow> snd (colorsvc_DeleteAllColors i c e w)
      | SavedColors i c p \<Rightarrow> snd (colorsvc_ListColors i c p e w)
      | Account i \<Rightarrow> snd (usersvc_UserByID i e w)
      | OneCollection i c \<Rightarrow> snd (collectionsvc_CollectionByID i c e w)
      | Authenticate h \<Rightarrow> snd (UserIDForTokenHash Pool h e w)
      | Probe \<Rightarrow> snd (Ping Pool e w))"

definition no_tables :: tables where
  "no_tables = \<lparr>t_users = [], t_tokens = [], t_collections = [], t_colors = []\<rparr>"

inductive reachable :: "fenv \<Rightarrow> int \<Rightarrow> int \<Rightarrow> world \<Rightarrow> bool" for m qc qk where
  fresh: "w_tables w = no_tables \<Longrightarrow> reachable m qc qk w"
| step: "reachable m qc qk w \<Longrightarrow> pe_math e = m \<Longrightarrow> reachable m qc qk (run_call qc qk call e w)"

context session_rel
begin

lemma reads_rel:
  "R (w_tables w) (w_tables (snd (usersvc_ExportUser i e w)))"
  "R (w_tables w) (w_tables (snd (collectionsvc_ListCollections i e w)))"
  "R (w_tables w) (w_tables (snd (colorsvc_ListColors i c p e w)))"
  "R (w_tables w) (w_tables (snd (usersvc_UserByID i e w)))"
  "R (w_tables w) (w_tables (snd (collectionsvc_CollectionByID i c e w)))"
  "R (w_tables w) (w_tables (snd (UserIDForTokenHash q h e w)))"
  "R (w_tables w) (w_tables (snd (Ping q e w)))"
proof -
  show "R (w_tables w) (w_tables (snd (usersvc_ExportUser i e w)))"
    unfolding usersvc_ExportUser_def
  proof (rule InTx_rel)
    fix ts w1 v w2
    assume tx: "export_user_tx i (Tx ts) e w1 = (Inr v, w2)" and w1: "w_tables w1 = w_tables w"
    obtain a u1 where a: "UserByID (Tx ts) i e w1 = (a, u1)" by fastforce
    obtain b u2 where b: "ExportCollections (Tx ts) i e u1 = (b, u2)" by fastforce
    have "w_tables u1 = w_tables w1" using read_tables(2)[of "Tx ts" i e w1] a by simp
    moreover have "w_tables u2 = w_tables u1" using read_tables(13)[of "Tx ts" i e u1] b by simp
    moreover have "w2 = u2" using tx a b by (auto simp: export_user_tx_def split: sum.splits)
    ultimately show "R (w_tables w) (w_tables w2)" using w1 refl by simp
  qed
  show "R (w_tables w) (w_tables (snd (collectionsvc_ListCollections i e w)))"
    by (simp add: collectionsvc_ListCollections_def refl)
  show "R (w_tables w) (w_tables (snd (colorsvc_ListColors i c p e w)))"
    unfolding colorsvc_ListColors_def by (rule owned_rel) (simp add: refl)
qed (simp_all add: usersvc_UserByID_def collectionsvc_CollectionByID_def Ping_def refl)

end

section \<open>What every reachable state satisfies\<close>

lemma run_call_app:
  assumes "pe_math e = m" "app_ok m (w_tables w)"
  shows "app_ok m (w_tables (run_call qc qk call e w))"
  using assms services_app[THEN mp] app.reads_rel[THEN mp]
  by (cases call) (simp_all add: run_call_def)

lemma run_call_in_quota:
  assumes "1 \<le> qk"
  shows "in_quota qc qk (w_tables w) (w_tables (run_call qc qk call e w))"
proof (cases call)
  case (SaveColor i c h)
  then show ?thesis using in_quota_insert_color by (simp add: run_call_def quotas.AddColor_rel)
next
  case (NewCollection i p)
  then show ?thesis
    using in_quota_insert_collection
    by (auto simp: run_call_def collections_of_def intro!: quotas.CreateCollection_rel)
next
  case (DropCollection i c)
  show ?thesis
    unfolding DropCollection run_call_def svc_call.case collectionsvc_DeleteCollection_def
    by (rule quotas.then_rel)
      (use quotas.write_rel(6)[OF in_quota_statements(5)] in \<open>auto simp: quotas.refl\<close>)
next
  case (DropColor i c h)
  then show ?thesis
    by (auto simp: run_call_def colorsvc_DeleteColor_def
        intro!: quotas.owned_rel quotas.write_rel(8)[OF in_quota_statements(6)])
next
  case (DropAllColors i c)
  then show ?thesis
    by (auto simp: run_call_def colorsvc_DeleteAllColors_def
        intro!: quotas.owned_rel quotas.write_rel(9)[OF in_quota_statements(7)])
next
  case (SignIn sv cy ttl nick pw)
  then show ?thesis
    using quotas.Login_rel[OF in_quota_statements(2)] by (simp add: run_call_def)
qed (auto simp: run_call_def usersvc_DeleteUser_def Logout_def collectionsvc_UpdateCollection_def
    intro: CreateUser_in_quota[OF assms] quotas.reads_rel quotas.refl
      quotas.write_rel(3)[OF in_quota_statements(1)] quotas.write_rel(2)[OF in_quota_statements(3)]
      quotas.write_rel(5)[OF in_quota_statements(4)])

lemma no_tables_ok: "app_ok m no_tables" "0 \<le> qc \<Longrightarrow> 0 \<le> qk \<Longrightarrow> quota_ok qc qk no_tables"
  by (simp_all add: no_tables_def app_ok_def schema_ok_def users_ok_def tokens_ok_def collections_ok_def
      colors_ok_def keys_ok_def defaults_ok_def quota_ok_def colors_of_def collections_of_def)

text \<open>The account a call is made for; signing up, in and out, resolving a token and a probe name none.\<close>

definition acts_for :: "svc_call \<Rightarrow> user_id option" where
  "acts_for call = (case call of
       CloseAccount i \<Rightarrow> Some i | Export i \<Rightarrow> Some i | NewCollection i _ \<Rightarrow> Some i
     | ChangeCollection i _ _ \<Rightarrow> Some i | DropCollection i _ \<Rightarrow> Some i | Collections i \<Rightarrow> Some i
     | SaveColor i _ _ \<Rightarrow> Some i | DropColor i _ _ \<Rightarrow> Some i | DropAllColors i _ \<Rightarrow> Some i
     | SavedColors i _ _ \<Rightarrow> Some i | Account i \<Rightarrow> Some i | OneCollection i _ \<Rightarrow> Some i
     | Authenticate _ \<Rightarrow> None | Probe \<Rightarrow> None | SignUp _ \<Rightarrow> None | SignIn _ _ _ _ _ \<Rightarrow> None | SignOut _ \<Rightarrow> None)"

lemma run_call_unseen:
  assumes "acts_for call = Some i" "i \<noteq> j"
  shows "unseen j (w_tables w) (w_tables (run_call qc qk call e w))"
  using assms
  by (cases call) (auto simp: acts_for_def run_call_def intro: AddColor_unseen DeleteColor_unseen
      DeleteAllColors_unseen CreateCollection_unseen UpdateCollection_unseen DeleteCollection_unseen
      DeleteUser_unseen view.reads_rel)

section \<open>Properties\<close>

text \<open>
  C1. Whatever sequence of service calls ran against a fresh database, with whatever arguments and
  whatever round trips lost on the way: the schema's constraints hold, every stored sort key is
  the key of its hex, every account has a default collection (and, by the schema, only one), and
  no collection and no account is over its quota.
\<close>

theorem reachable_states_ok:
  assumes "reachable m qc qk w" and "1 \<le> qc" "1 \<le> qk"
  shows "app_ok m (w_tables w) \<and> quota_ok qc qk (w_tables w)"
  using assms(1)
proof induction
  case (fresh w)
  then show ?case using assms no_tables_ok by simp
next
  case (step w e call)
  then show ?case
    using run_call_app[of e m w qc qk call] run_call_in_quota[OF assms(3), of qc w call e]
    by (auto simp: in_quota_def app_ok_def)
qed

text \<open>
  Concrete values for the witnesses: a connection that never fails, a clock and a UUID sequence
  that count the round trips, an account and its first call.
\<close>

definition sample_env :: pg_env where
  "sample_env = \<lparr>pe_math = binary64_env, pe_link = (\<lambda>_. Delivered), pe_clock = (\<lambda>n. int n),
     pe_uuid = (\<lambda>n. of_nat n), pe_zone = (\<lambda>_. 0)\<rparr>"

definition sample_user :: user where
  "sample_user = \<lparr>user_ID = 0, user_Nickname = ''ann'', user_PasswordHash = ''h'', user_CreatedAt = Time 0 0\<rparr>"

definition fresh_world :: world where
  "fresh_world = \<lparr>w_tables = no_tables, w_next_user_id = 1, w_round = 0\<rparr>"

definition signed_up :: world where
  "signed_up = run_call 5 2 (SignUp sample_user) sample_env fresh_world"

lemma signed_up_eval:
  "signed_up = \<lparr>w_tables = \<lparr>
       t_users = [\<lparr>ur_id = 1, ur_nickname = ''ann'', ur_password_hash = ''h'', ur_created_at = 0\<rparr>],
       t_tokens = [],
       t_collections = [\<lparr>cr_id = 2, cr_user_id = 1, cr_name = DefCollectionName,
         cr_icon_slug = DefIconSlug, cr_icon_accent = DefIconAccent, cr_is_default = True, cr_created_at = 0\<rparr>],
       t_colors = []\<rparr>, w_next_user_id = 2, w_round = 4\<rparr>"
  by (simp add: signed_up_def fresh_world_def run_call_def usersvc_CreateUser_def InTx_def BeginFunc_def
      create_user_tx_def CreateUser_def CreateCollection_def send_def sql_unit_def sql_insert_user_def
      sql_insert_collection_def no_tables_def sample_env_def sample_user_def now_def Let_def numeral_2_eq_2
      numeral_3_eq_3)

theorem reachable_states_ok_witness:
  "app_ok binary64_env (w_tables signed_up) \<and> quota_ok 5 2 (w_tables signed_up)"
proof (rule reachable_states_ok)
  have "reachable binary64_env 5 2 fresh_world" by (rule reachable.fresh) (simp add: fresh_world_def)
  then show "reachable binary64_env 5 2 signed_up"
    unfolding signed_up_def by (rule reachable.step) (simp add: sample_env_def)
qed simp_all

text \<open>
  C2. A call made for one account never changes what the database holds for another: user row,
  tokens, collections and their colours are as they were, for every call, every argument (the ids
  of the other account's collections among them) and every outcome of the round trips.
\<close>

theorem calls_keep_to_their_account:
  assumes "schema_ok (w_tables w)" and "acts_for call = Some i" and "i \<noteq> j"
  shows "user_view j (w_tables (run_call qc qk call e w)) = user_view j (w_tables w)"
  using run_call_unseen[OF assms(2,3)] assms(1) by (simp add: unseen_def)

theorem calls_keep_to_their_account_witness:
  "user_view 1 (w_tables (run_call 5 2 (DropAllColors 7 2) sample_env signed_up)) = user_view 1 (w_tables signed_up)"
proof (rule calls_keep_to_their_account)
  show "schema_ok (w_tables signed_up)"
    by (simp add: signed_up_eval schema_ok_def users_ok_def tokens_ok_def collections_ok_def colors_ok_def)
  show "acts_for (DropAllColors 7 2) = Some 7" by (simp add: acts_for_def)
qed simp

end
