(* ===== verification/Service_Contracts.thy ===== *)
theory Service_Contracts
  imports System
begin

text \<open>
  What each service answers and does when the connection is up, branch by branch, and what a
  transaction guarantees when it is not.
\<close>

section \<open>Transactions\<close>

definition delivered :: "pg_env \<Rightarrow> bool" where
  "delivered e \<longleftrightarrow> (\<forall>n. pe_link e n = Delivered)"

lemma send_ok: "delivered e \<Longrightarrow> send e st w = st (w\<lparr>w_round := Suc (w_round w)\<rparr>)"
  by (simp add: delivered_def send_delivered)

text \<open>
  C6. A transaction is all or nothing.  Opened inside another one it is refused before anything is
  sent.  When it answers a value, the tables are those the function left.  When it answers an
  error, either nothing changed, or the function had succeeded and the reply to the commit was
  lost, which the caller sees as a connection error.
\<close>

theorem InTx_atomic:
  "(\<forall>ts. InTx (Tx ts) fn e w = (Inl (Sentinel ErrNestedTx), w)) \<and>
   (\<exists>w1. w_tables w1 = w_tables w \<and>
     (case InTx Pool fn e w of
        (Inr v, w') \<Rightarrow> (\<exists>w2. fn (Tx (pe_clock e (w_round w))) e w1 = (Inr v, w2) \<and> w_tables w' = w_tables w2)
      | (Inl err, w') \<Rightarrow> w_tables w' = w_tables w \<or>
          (\<exists>v w2 msg. fn (Tx (pe_clock e (w_round w))) e w1 = (Inr v, w2) \<and>
             w_tables w' = w_tables w2 \<and> err = Foreign msg \<and> pe_link e (w_round w2) = LostReply msg)))"
proof (intro conjI allI)
  show "InTx (Tx ts) fn e w = (Inl (Sentinel ErrNestedTx), w)" for ts by (simp add: InTx_def)
  obtain r w1 where b: "send e sql_unit w = (r, w1)" by fastforce
  have t1: "w_tables w1 = w_tables w" using b send_unit_tables[of e w] by simp
  obtain r2 w2 where fn: "fn (Tx (pe_clock e (w_round w))) e w1 = (r2, w2)" by fastforce
  show "\<exists>w1. w_tables w1 = w_tables w \<and>
     (case InTx Pool fn e w of
        (Inr v, w') \<Rightarrow> (\<exists>w2. fn (Tx (pe_clock e (w_round w))) e w1 = (Inr v, w2) \<and> w_tables w' = w_tables w2)
      | (Inl err, w') \<Rightarrow> w_tables w' = w_tables w \<or>
          (\<exists>v w2 msg. fn (Tx (pe_clock e (w_round w))) e w1 = (Inr v, w2) \<and>
             w_tables w' = w_tables w2 \<and> err = Foreign msg \<and> pe_link e (w_round w2) = LostReply msg))"
    using b fn t1
    by (intro exI[of _ w1])
      (cases r; cases r2; simp add: InTx_def BeginFunc_def split: link.split)
qed

text \<open>With the connection up, a transaction is the function run in one.\<close>

lemma InTx_delivered:
  assumes "delivered e"
  shows "fst (InTx Pool fn e w) = fst (fn (Tx (pe_clock e (w_round w))) e (w\<lparr>w_round := Suc (w_round w)\<rparr>))"
    "w_tables (snd (InTx Pool fn e w)) =
      (case fn (Tx (pe_clock e (w_round w))) e (w\<lparr>w_round := Suc (w_round w)\<rparr>) of
         (Inl _, _) \<Rightarrow> w_tables w | (Inr _, w2) \<Rightarrow> w_tables w2)"
  using assms
  by (auto simp: InTx_def BeginFunc_def send_ok sql_unit_def delivered_def split: sum.split prod.split)

section \<open>Colours\<close>

definition saved :: "tables \<Rightarrow> clt_id \<Rightarrow> hex set" where
  "saved t c = xr_hex ` set (colors_of c t)"

text \<open>The three statements of \<^verbatim>\<open>AddColor\<close>, with the connection up.\<close>

lemma resolve_delivered:
  assumes "delivered e"
  shows "resolveCollection q i c lock e w =
    (if owns (w_tables w) i c then Inr c else Inl (Sentinel ErrNotFound), w\<lparr>w_round := Suc (w_round w)\<rparr>)"
  using assms
  by (auto simp: resolveCollection_def send_ok sql_collection_def owns_def row_error_def find_None_iff
      find_Some_iff split: option.split)

lemma AddColor_run:
  assumes "delivered e" "normal_hex h"
  shows "fst (colorsvc_AddColor quota i c h e w) =
      (if \<not> owns (w_tables w) i c then Inl (Sentinel ErrNotFound)
       else if h \<in> saved (w_tables w) c then Inr False
       else if quota \<le> int (length (colors_of c (w_tables w))) then Inl (Sentinel ColorErrQuotaFull) else Inr True)"
    "w_tables (snd (colorsvc_AddColor quota i c h e w)) =
      (if fst (colorsvc_AddColor quota i c h e w) = Inr True
       then (w_tables w)\<lparr>t_colors := t_colors (w_tables w) @ [\<lparr>xr_collection_id = c, xr_hex = h,
          xr_created_at = pe_clock e (w_round w), xr_color_key = Feel (pe_math e) h\<rparr>]\<rparr>
       else w_tables w)"
proof -
  have f: "\<exists>r \<in> set (t_collections (w_tables w)). cr_id r = c" if "owns (w_tables w) i c"
    using that by (auto simp: owns_def)
  have p: "h \<in> saved (w_tables w) c \<longleftrightarrow> (\<exists>r \<in> set (t_colors (w_tables w)). xr_collection_id r = c \<and> xr_hex r = h)"
    by (auto simp: saved_def colors_of_def)
  note run = InTx_delivered[OF assms(1), of "add_color_tx quota i c h" w] f p
  note defs = colorsvc_AddColor_def add_color_tx_def LockCollection_def resolve_delivered[OF assms(1)]
    CountColors_def sql_count_colors_def HasColor_def sql_has_color_def AddColor_def
    sql_insert_color_def send_ok[OF assms(1)] now_def Let_def saved_def colors_of_def
  show "fst (colorsvc_AddColor quota i c h e w) =
      (if \<not> owns (w_tables w) i c then Inl (Sentinel ErrNotFound)
       else if h \<in> saved (w_tables w) c then Inr False
       else if quota \<le> int (length (colors_of c (w_tables w))) then Inl (Sentinel ColorErrQuotaFull) else Inr True)"
    "w_tables (snd (colorsvc_AddColor quota i c h e w)) =
      (if fst (colorsvc_AddColor quota i c h e w) = Inr True
       then (w_tables w)\<lparr>t_colors := t_colors (w_tables w) @ [\<lparr>xr_collection_id = c, xr_hex = h,
          xr_created_at = pe_clock e (w_round w), xr_color_key = Feel (pe_math e) h\<rparr>]\<rparr>
       else w_tables w)"
    using run assms(2) by (auto simp: defs split: prod.split)
qed

text \<open>
  C7. Saving a colour.  A collection the caller does not own is not found.  A colour already in the
  collection is reported as not created, also when the collection is full.  A new colour is
  refused exactly when the collection is at its quota; otherwise one row is added, with the time
  of the transaction and the sort key of the hex, and nothing else changes.
\<close>

theorem AddColor_contract:
  assumes "delivered e" and "normal_hex h"
  shows "case colorsvc_AddColor quota i c h e w of (r, w') \<Rightarrow>
    let t = w_tables w in
    if \<not> owns t i c then r = Inl (Sentinel ErrNotFound) \<and> w_tables w' = t
    else if h \<in> saved t c then r = Inr False \<and> w_tables w' = t
    else if quota \<le> int (length (colors_of c t)) then r = Inl (Sentinel ColorErrQuotaFull) \<and> w_tables w' = t
    else r = Inr True \<and> w_tables w' = t\<lparr>t_colors := t_colors t @
      [\<lparr>xr_collection_id = c, xr_hex = h, xr_created_at = pe_clock e (w_round w),
        xr_color_key = Feel (pe_math e) h\<rparr>]\<rparr>"
  using AddColor_run[OF assms, of quota i c w] by (auto simp: Let_def split: prod.splits)

lemma sample_delivered: "delivered sample_env"
  by (simp add: delivered_def sample_env_def)

theorem AddColor_contract_witness:
  "case colorsvc_AddColor 5 1 2 ''#00ff7f'' sample_env signed_up of (r, w') \<Rightarrow>
     r = Inr True \<and> saved (w_tables w') 2 = {''#00ff7f''}"
  using AddColor_contract[OF sample_delivered, where h = "''#00ff7f''" and quota = 5 and i = 1 and c = 2 and w = signed_up]
  by (auto simp: signed_up_eval owns_def saved_def colors_of_def normal_hex_def HexLen_def is_hex_digit_def
      hex_digits_def Let_def split: prod.splits)

lemma DeleteColor_run:
  assumes "delivered e"
  shows "fst (colorsvc_DeleteColor i c h e w) =
      (if owns (w_tables w) i c \<and> h \<in> saved (w_tables w) c then Inr () else Inl (Sentinel ErrNotFound))"
    "w_tables (snd (colorsvc_DeleteColor i c h e w)) =
      (if owns (w_tables w) i c then (w_tables w)\<lparr>t_colors :=
          filter (\<lambda>r. \<not> (xr_collection_id r = c \<and> xr_hex r = h)) (t_colors (w_tables w))\<rparr> else w_tables w)"
    "fst (colorsvc_DeleteAllColors i c e w) = (if owns (w_tables w) i c then Inr () else Inl (Sentinel ErrNotFound))"
    "w_tables (snd (colorsvc_DeleteAllColors i c e w)) =
      (if owns (w_tables w) i c then (w_tables w)\<lparr>t_colors :=
          filter (\<lambda>r. xr_collection_id r \<noteq> c) (t_colors (w_tables w))\<rparr> else w_tables w)"
  using assms
  by (auto simp: colorsvc_DeleteColor_def colorsvc_DeleteAllColors_def ResolveCollection_def resolve_delivered
      DeleteColor_def DeleteAllColors_def sql_delete_color_def sql_delete_all_colors_def send_ok Let_def
      saved_def colors_of_def filter_empty_conv)

text \<open>
  Deleting colours.  Both operations find only the caller's collection; deleting one colour
  removes that colour from that collection and reports a missing one, deleting all empties the
  collection and reports nothing missing.  Every other row stays.
\<close>

theorem DeleteColor_contract:
  assumes "delivered e"
  shows "(case colorsvc_DeleteColor i c h e w of (r, w') \<Rightarrow>
      if owns (w_tables w) i c
      then r = (if h \<in> saved (w_tables w) c then Inr () else Inl (Sentinel ErrNotFound))
        \<and> w_tables w' = (w_tables w)\<lparr>t_colors :=
            filter (\<lambda>r. \<not> (xr_collection_id r = c \<and> xr_hex r = h)) (t_colors (w_tables w))\<rparr>
      else r = Inl (Sentinel ErrNotFound) \<and> w_tables w' = w_tables w) \<and>
    (case colorsvc_DeleteAllColors i c e w of (r, w') \<Rightarrow>
      if owns (w_tables w) i c
      then r = Inr () \<and> w_tables w' = (w_tables w)\<lparr>t_colors :=
            filter (\<lambda>r. xr_collection_id r \<noteq> c) (t_colors (w_tables w))\<rparr>
      else r = Inl (Sentinel ErrNotFound) \<and> w_tables w' = w_tables w)"
  using DeleteColor_run(1,2)[OF assms, of i c h w] DeleteColor_run(3,4)[OF assms, of i c w] by (auto split: prod.splits)

theorem DeleteColor_contract_witness:
  "fst (colorsvc_DeleteColor 1 2 ''#00ff7f'' sample_env signed_up) = Inl (Sentinel ErrNotFound)
   \<and> fst (colorsvc_DeleteAllColors 1 2 sample_env signed_up) = Inr ()"
  using DeleteColor_contract[OF sample_delivered, where i = 1 and c = 2 and h = "''#00ff7f''" and w = signed_up]
  by (simp add: signed_up_eval owns_def saved_def colors_of_def split: prod.splits)

section \<open>Collections\<close>

lemma LockUser_delivered:
  "delivered e \<Longrightarrow> LockUser q i e w =
    (if i \<in> ur_id ` set (t_users (w_tables w)) then Inr () else Inl (Sentinel ErrUserNotFound),
     w\<lparr>w_round := Suc (w_round w)\<rparr>)"
  by (auto simp: LockUser_def sql_lock_user_def send_ok row_error_def)

lemma CountCollections_delivered:
  "delivered e \<Longrightarrow> CountCollections q i e w =
    (Inr (int (length (collections_of i (w_tables w)))), w\<lparr>w_round := Suc (w_round w)\<rparr>)"
  by (simp add: CountCollections_def sql_count_collections_def send_ok collections_of_def)

lemma CreateCollection_delivered:
  assumes "delivered e" "\<not> cp_IsDefault p" "i \<in> ur_id ` set (t_users (w_tables w))"
    and "\<And>n. pe_uuid e n \<notin> cr_id ` set (t_collections (w_tables w))"
  shows "CreateCollection q i p e w =
    (let row = \<lparr>cr_id = pe_uuid e (w_round w), cr_user_id = i, cr_name = cp_Name p, cr_icon_slug = cp_Icon p,
        cr_icon_accent = cp_Accent p, cr_is_default = False, cr_created_at = now q e w\<rparr>
     in (Inr (scan_collection e row), w\<lparr>w_round := Suc (w_round w),
          w_tables := (w_tables w)\<lparr>t_collections := t_collections (w_tables w) @ [row]\<rparr>\<rparr>))"
proof -
  have "\<not> (\<exists>r \<in> set (t_collections (w_tables w)). cr_id r = pe_uuid e k)" for k using assms(4) by force
  moreover have "\<exists>r \<in> set (t_users (w_tables w)). ur_id r = i" using assms(3) by auto
  ultimately show ?thesis
    using assms(1,2) by (simp add: CreateCollection_def sql_insert_collection_def send_ok Let_def)
qed

definition new_row :: "pg_env \<Rightarrow> world \<Rightarrow> user_id \<Rightarrow> create_params \<Rightarrow> collection_row" where
  "new_row e w i p = \<lparr>cr_id = pe_uuid e (Suc (Suc (Suc (w_round w)))), cr_user_id = i, cr_name = cp_Name p,
     cr_icon_slug = cp_Icon p, cr_icon_accent = cp_Accent p, cr_is_default = False, cr_created_at = pe_clock e (w_round w)\<rparr>"

lemma CreateCollection_run:
  assumes "delivered e" and "\<And>n. pe_uuid e n \<notin> cr_id ` set (t_collections (w_tables w))"
  shows "fst (collectionsvc_CreateCollection quota i p e w) =
      (if i \<notin> ur_id ` set (t_users (w_tables w)) then Inl (Sentinel ErrUserNotFound)
       else if quota \<le> int (length (collections_of i (w_tables w))) then Inl (Sentinel CollectionErrQuotaFull)
       else Inr (scan_collection e (new_row e w i p)))"
    "w_tables (snd (collectionsvc_CreateCollection quota i p e w)) =
      (if i \<notin> ur_id ` set (t_users (w_tables w)) \<or> quota \<le> int (length (collections_of i (w_tables w))) then w_tables w
       else (w_tables w)\<lparr>t_collections := t_collections (w_tables w) @ [new_row e w i p]\<rparr>)"
proof -
  let ?p = "p\<lparr>cp_IsDefault := False\<rparr>" and ?tx = "Tx (pe_clock e (w_round w))"
  let ?w3 = "w\<lparr>w_round := Suc (Suc (Suc (w_round w)))\<rparr>"
  note ops = LockUser_delivered[OF assms(1)] CountCollections_delivered[OF assms(1)]
  have c: "CreateCollection ?tx i ?p e ?w3 = (Inr (scan_collection e (new_row e w i p)), w\<lparr>w_round := w_round w + 4,
      w_tables := (w_tables w)\<lparr>t_collections := t_collections (w_tables w) @ [new_row e w i p]\<rparr>\<rparr>)"
    if "i \<in> ur_id ` set (t_users (w_tables w))"
    using CreateCollection_delivered[OF assms(1), of ?p i ?w3 ?tx] assms(2) that
    by (simp add: new_row_def now_def Let_def numeral_eq_Suc del: image_iff)
  show "fst (collectionsvc_CreateCollection quota i p e w) =
      (if i \<notin> ur_id ` set (t_users (w_tables w)) then Inl (Sentinel ErrUserNotFound)
       else if quota \<le> int (length (collections_of i (w_tables w))) then Inl (Sentinel CollectionErrQuotaFull)
       else Inr (scan_collection e (new_row e w i p)))"
    "w_tables (snd (collectionsvc_CreateCollection quota i p e w)) =
      (if i \<notin> ur_id ` set (t_users (w_tables w)) \<or> quota \<le> int (length (collections_of i (w_tables w))) then w_tables w
       else (w_tables w)\<lparr>t_collections := t_collections (w_tables w) @ [new_row e w i p]\<rparr>)"
    using InTx_delivered[OF assms(1), of "create_collection_tx quota i ?p" w] c
    by (simp_all add: collectionsvc_CreateCollection_def create_collection_tx_def ops del: image_iff)
qed

text \<open>
  Creating a collection.  The account must exist; at the quota the request is refused and
  nothing is written; otherwise one row is added for the caller with the requested name and icon,
  and it is never a default collection, whatever the request asked for.
\<close>

theorem CreateCollection_contract:
  assumes "delivered e" and "\<And>n. pe_uuid e n \<notin> cr_id ` set (t_collections (w_tables w))"
  shows "case collectionsvc_CreateCollection quota i p e w of (r, w') \<Rightarrow>
    let t = w_tables w in
    if i \<notin> ur_id ` set (t_users t) then r = Inl (Sentinel ErrUserNotFound) \<and> w_tables w' = t
    else if quota \<le> int (length (collections_of i t))
    then r = Inl (Sentinel CollectionErrQuotaFull) \<and> w_tables w' = t
    else \<exists>row. r = Inr (scan_collection e row) \<and> w_tables w' = t\<lparr>t_collections := t_collections t @ [row]\<rparr>
      \<and> cr_user_id row = i \<and> cr_name row = cp_Name p \<and> cr_icon_slug row = cp_Icon p
      \<and> cr_icon_accent row = cp_Accent p \<and> \<not> cr_is_default row"
  using CreateCollection_run[OF assms, of quota i p] by (auto simp: Let_def new_row_def split: prod.splits)

theorem CreateCollection_contract_witness:
  "case collectionsvc_CreateCollection 2 1 \<lparr>cp_Name = ''work'', cp_Icon = ''tag'', cp_Accent = DefIconAccent,
      cp_IsDefault = True\<rparr> (sample_env\<lparr>pe_uuid := (\<lambda>_. 9)\<rparr>) signed_up of (r, w') \<Rightarrow>
     map cr_name (t_collections (w_tables w')) = [DefCollectionName, ''work'']
     \<and> map cr_is_default (t_collections (w_tables w')) = [True, False]"
proof -
  have d: "delivered (sample_env\<lparr>pe_uuid := (\<lambda>_. 9)\<rparr>)" by (simp add: delivered_def sample_env_def)
  show ?thesis
    using CreateCollection_contract[OF d, where w = signed_up and quota = 2 and i = 1 and p = "\<lparr>cp_Name = ''work'', cp_Icon = ''tag'',
      cp_Accent = DefIconAccent, cp_IsDefault = True\<rparr>"]
    by (auto simp: signed_up_eval collections_of_def Let_def split: prod.splits)
qed

lemma owned_row:
  assumes "schema_ok t" "owns t i c"
  obtains r where "r \<in> set (t_collections t)" "cr_id r = c" "cr_user_id r = i"
    "\<And>k. k \<in> set (t_collections t) \<Longrightarrow> cr_id k = c \<Longrightarrow> k = r"
    "find (\<lambda>k. cr_id k = c \<and> cr_user_id k = i) (t_collections t) = Some r"
proof -
  obtain r where r: "r \<in> set (t_collections t)" "cr_id r = c" "cr_user_id r = i" using assms(2) by (auto simp: owns_def)
  have one: "k = r" if "k \<in> set (t_collections t)" "cr_id k = c" for k
    using that assms(1) r by (auto simp: schema_ok_def collections_ok_def distinct_map dest: inj_onD)
  moreover have "find (\<lambda>k. cr_id k = c \<and> cr_user_id k = i) (t_collections t) = Some r"
    by (rule find_unique) (use r one in blast)+
  ultimately show thesis using that r by blast
qed

lemma not_owned: "\<not> owns t i c \<Longrightarrow> find (\<lambda>k. cr_id k = c \<and> cr_user_id k = i) (t_collections t) = None"
  by (auto simp: owns_def find_None_iff)

lemma DeleteCollection_run:
  assumes "delivered e" and "schema_ok (w_tables w)"
  shows "fst (collectionsvc_DeleteCollection i c e w) =
      (if \<not> owns (w_tables w) i c then Inl (Sentinel ErrNotFound)
       else if \<exists>k \<in> set (t_collections (w_tables w)). cr_id k = c \<and> cr_is_default k
       then Inl (Sentinel ErrDeleteDefault) else Inr ())"
    "w_tables (snd (collectionsvc_DeleteCollection i c e w)) =
      (if owns (w_tables w) i c \<and> \<not> (\<exists>k \<in> set (t_collections (w_tables w)). cr_id k = c \<and> cr_is_default k)
       then (w_tables w)\<lparr>t_collections := filter (\<lambda>k. cr_id k \<noteq> c) (t_collections (w_tables w)),
          t_colors := filter (\<lambda>x. xr_collection_id x \<noteq> c) (t_colors (w_tables w))\<rparr>
       else w_tables w)"
proof -
  let ?t = "w_tables w"
  have no: "fst (collectionsvc_DeleteCollection i c e w) = Inl (Sentinel ErrNotFound)
      \<and> w_tables (snd (collectionsvc_DeleteCollection i c e w)) = ?t" if "\<not> owns ?t i c"
    using assms(1) not_owned[OF that]
    by (simp add: collectionsvc_DeleteCollection_def CollectionByID_def sql_collection_def send_ok row_error_def)
  have yes: "fst (collectionsvc_DeleteCollection i c e w) =
      (if \<exists>k \<in> set (t_collections ?t). cr_id k = c \<and> cr_is_default k then Inl (Sentinel ErrDeleteDefault) else Inr ())
      \<and> w_tables (snd (collectionsvc_DeleteCollection i c e w)) =
        (if \<exists>k \<in> set (t_collections ?t). cr_id k = c \<and> cr_is_default k then ?t
         else ?t\<lparr>t_collections := filter (\<lambda>k. cr_id k \<noteq> c) (t_collections ?t),
           t_colors := filter (\<lambda>x. xr_collection_id x \<noteq> c) (t_colors ?t)\<rparr>)" if own: "owns ?t i c"
  proof -
    obtain r where r: "r \<in> set (t_collections ?t)" "cr_id r = c" "cr_user_id r = i"
      "\<And>k. k \<in> set (t_collections ?t) \<Longrightarrow> cr_id k = c \<Longrightarrow> k = r"
      "find (\<lambda>k. cr_id k = c \<and> cr_user_id k = i) (t_collections ?t) = Some r"
      using owned_row[OF assms(2) own] by blast
    have hit: "(\<exists>k \<in> set (t_collections ?t). cr_id k = c \<and> cr_is_default k) = cr_is_default r" using r(1,2) r(4) by metis
    have n: "filter (\<lambda>k. cr_id k = c \<and> cr_user_id k = i) (t_collections ?t) \<noteq> []" using r(1-3) by (auto simp: filter_empty_conv)
    have kept: "(cr_id k = c \<longrightarrow> cr_user_id k \<noteq> i) = (cr_id k \<noteq> c)" if "k \<in> set (t_collections ?t)" for k
      using r(3,4) that by metis
    have gone: "((\<exists>k \<in> set (t_collections ?t). cr_id k = c \<and> cr_user_id k = i) \<longrightarrow> c \<noteq> xr_collection_id x) = (xr_collection_id x \<noteq> c)" for x
      using r(1-3) by metis
    have out: "filter (\<lambda>k. cr_id k = c \<longrightarrow> cr_user_id k \<noteq> i) (t_collections ?t) = filter (\<lambda>k. cr_id k \<noteq> c) (t_collections ?t)"
      by (rule filter_cong) (use kept in simp_all)
    show ?thesis unfolding hit
      using assms(1) r(5) n
      by (simp add: collectionsvc_DeleteCollection_def CollectionByID_def sql_collection_def send_ok
          DeleteCollection_def sql_delete_collection_def scan_collection_def Let_def out gone)
  qed
  show "fst (collectionsvc_DeleteCollection i c e w) =
      (if \<not> owns ?t i c then Inl (Sentinel ErrNotFound)
       else if \<exists>k \<in> set (t_collections ?t). cr_id k = c \<and> cr_is_default k
       then Inl (Sentinel ErrDeleteDefault) else Inr ())"
    using no yes by (cases "owns ?t i c") simp_all
  show "w_tables (snd (collectionsvc_DeleteCollection i c e w)) =
      (if owns ?t i c \<and> \<not> (\<exists>k \<in> set (t_collections ?t). cr_id k = c \<and> cr_is_default k)
       then ?t\<lparr>t_collections := filter (\<lambda>k. cr_id k \<noteq> c) (t_collections ?t),
          t_colors := filter (\<lambda>x. xr_collection_id x \<noteq> c) (t_colors ?t)\<rparr>
       else ?t)"
    using no yes by (cases "owns ?t i c"; cases "\<exists>k \<in> set (t_collections ?t). cr_id k = c \<and> cr_is_default k") simp_all
qed

text \<open>
  C8. Deleting a collection.  One the caller does not own is not found, the default one is kept,
  and any other goes with all its colours and nothing else.
\<close>

theorem DeleteCollection_contract:
  assumes "delivered e" and "schema_ok (w_tables w)"
  shows "case collectionsvc_DeleteCollection i c e w of (r, w') \<Rightarrow>
    let t = w_tables w in
    if \<not> owns t i c then r = Inl (Sentinel ErrNotFound) \<and> w_tables w' = t
    else if \<exists>k \<in> set (t_collections t). cr_id k = c \<and> cr_is_default k
    then r = Inl (Sentinel ErrDeleteDefault) \<and> w_tables w' = t
    else r = Inr () \<and> w_tables w' = t\<lparr>t_collections := filter (\<lambda>k. cr_id k \<noteq> c) (t_collections t),
      t_colors := filter (\<lambda>x. xr_collection_id x \<noteq> c) (t_colors t)\<rparr>"
  using DeleteCollection_run[OF assms, of i c] by (auto simp: Let_def split: prod.splits)

lemma signed_up_schema: "schema_ok (w_tables signed_up)"
  by (simp add: signed_up_eval schema_ok_def users_ok_def tokens_ok_def collections_ok_def colors_ok_def)

theorem DeleteCollection_contract_witness:
  "fst (collectionsvc_DeleteCollection 1 2 sample_env signed_up) = Inl (Sentinel ErrDeleteDefault)
   \<and> fst (collectionsvc_DeleteCollection 7 2 sample_env signed_up) = Inl (Sentinel ErrNotFound)"
  using DeleteCollection_contract[OF sample_delivered signed_up_schema, where i = 1 and c = 2]
    DeleteCollection_contract[OF sample_delivered signed_up_schema, where i = 7 and c = 2]
  by (simp add: signed_up_eval owns_def split: prod.splits)

end
