(* ===== verification/Account_Contracts.thy ===== *)
theory Account_Contracts
  imports Service_Contracts
begin

text \<open>
  Accounts and sessions: signing up, deleting an account, updating a collection, logging in and
  out, and how long a token opens the API.
\<close>

section \<open>Accounts\<close>

definition nickname_taken :: "tables \<Rightarrow> string \<Rightarrow> bool" where
  "nickname_taken t nick \<longleftrightarrow> (\<exists>r \<in> set (t_users t). citext_key (ur_nickname r) = citext_key nick)"

lemma CreateUser_delivered:
  assumes "delivered e" and "w_next_user_id w \<notin> ur_id ` set (t_users (w_tables w))"
  shows "CreateUser q u e w =
    (if nickname_taken (w_tables w) (user_Nickname u)
     then (Inl (Sentinel ErrDuplicateNickname),
       w\<lparr>w_round := Suc (w_round w), w_next_user_id := w_next_user_id w + 1\<rparr>)
     else (Inr (u\<lparr>user_ID := w_next_user_id w, user_CreatedAt := scan_time e (now q e w)\<rparr>),
       w\<lparr>w_round := Suc (w_round w), w_next_user_id := w_next_user_id w + 1,
         w_tables := (w_tables w)\<lparr>t_users := t_users (w_tables w) @
           [\<lparr>ur_id = w_next_user_id w, ur_nickname = user_Nickname u,
             ur_password_hash = user_PasswordHash u, ur_created_at = now q e w\<rparr>]\<rparr>\<rparr>))"
proof -
  have "ur_id r \<noteq> w_next_user_id w" if "r \<in> set (t_users (w_tables w))" for r using assms(2) that by force
  then have "(\<exists>r \<in> set (t_users (w_tables w)). ur_id r = w_next_user_id w
      \<or> citext_key (ur_nickname r) = citext_key (user_Nickname u)) \<longleftrightarrow>
      nickname_taken (w_tables w) (user_Nickname u)"
    by (auto simp: nickname_taken_def)
  then show ?thesis
    using assms(1) by (simp add: CreateUser_def send_ok sql_insert_user_def uniqueViolation_def Let_def)
qed

lemma CreateDefault_delivered:
  assumes "delivered e" "i \<in> ur_id ` set (t_users (w_tables w))"
    and "i \<notin> cr_user_id ` set (t_collections (w_tables w))"
    and "\<And>n. pe_uuid e n \<notin> cr_id ` set (t_collections (w_tables w))"
  shows "CreateCollection q i \<lparr>cp_Name = nm, cp_Icon = ic, cp_Accent = ac, cp_IsDefault = True\<rparr> e w =
    (let row = \<lparr>cr_id = pe_uuid e (w_round w), cr_user_id = i, cr_name = nm, cr_icon_slug = ic,
        cr_icon_accent = ac, cr_is_default = True, cr_created_at = now q e w\<rparr>
     in (Inr (scan_collection e row), w\<lparr>w_round := Suc (w_round w),
          w_tables := (w_tables w)\<lparr>t_collections := t_collections (w_tables w) @ [row]\<rparr>\<rparr>))"
proof -
  have "\<not> (\<exists>r \<in> set (t_collections (w_tables w)). cr_id r = pe_uuid e (w_round w) \<or> cr_is_default r \<and> cr_user_id r = i)"
    using assms(3,4) by force
  moreover have "\<exists>r \<in> set (t_users (w_tables w)). ur_id r = i" using assms(2) by auto
  ultimately show ?thesis
    using assms(1) by (simp add: CreateCollection_def sql_insert_collection_def send_ok Let_def)
qed

definition first_row :: "pg_env \<Rightarrow> world \<Rightarrow> collection_row" where
  "first_row e w = \<lparr>cr_id = pe_uuid e (Suc (Suc (w_round w))), cr_user_id = w_next_user_id w, cr_name = DefCollectionName,
     cr_icon_slug = DefIconSlug, cr_icon_accent = DefIconAccent, cr_is_default = True, cr_created_at = pe_clock e (w_round w)\<rparr>"

lemma CreateUser_run:
  assumes "delivered e" and "schema_ok (w_tables w)"
    and "w_next_user_id w \<notin> ur_id ` set (t_users (w_tables w))"
    and "\<And>n. pe_uuid e n \<notin> cr_id ` set (t_collections (w_tables w))"
  shows "fst (usersvc_CreateUser u e w) =
      (if nickname_taken (w_tables w) (user_Nickname u) then Inl (Sentinel ErrDuplicateNickname)
       else Inr (u\<lparr>user_ID := w_next_user_id w, user_CreatedAt := scan_time e (pe_clock e (w_round w))\<rparr>))"
    "w_tables (snd (usersvc_CreateUser u e w)) =
      (if nickname_taken (w_tables w) (user_Nickname u) then w_tables w
       else (w_tables w)\<lparr>t_users := t_users (w_tables w) @ [\<lparr>ur_id = w_next_user_id w, ur_nickname = user_Nickname u,
           ur_password_hash = user_PasswordHash u, ur_created_at = pe_clock e (w_round w)\<rparr>],
         t_collections := t_collections (w_tables w) @ [first_row e w]\<rparr>)"
proof -
  have "w_next_user_id w \<notin> cr_user_id ` set (t_collections (w_tables w))"
    using assms(2,3) by (auto simp: schema_ok_def collections_ok_def)
  then show "fst (usersvc_CreateUser u e w) =
      (if nickname_taken (w_tables w) (user_Nickname u) then Inl (Sentinel ErrDuplicateNickname)
       else Inr (u\<lparr>user_ID := w_next_user_id w, user_CreatedAt := scan_time e (pe_clock e (w_round w))\<rparr>))"
    "w_tables (snd (usersvc_CreateUser u e w)) =
      (if nickname_taken (w_tables w) (user_Nickname u) then w_tables w
       else (w_tables w)\<lparr>t_users := t_users (w_tables w) @ [\<lparr>ur_id = w_next_user_id w, ur_nickname = user_Nickname u,
           ur_password_hash = user_PasswordHash u, ur_created_at = pe_clock e (w_round w)\<rparr>],
         t_collections := t_collections (w_tables w) @ [first_row e w]\<rparr>)"
    using assms InTx_delivered[OF assms(1), of "create_user_tx u" w]
    by (simp_all add: usersvc_CreateUser_def create_user_tx_def CreateUser_delivered CreateDefault_delivered
        now_def Let_def first_row_def)
qed

text \<open>
  C9. Signing up.  A nickname that differs from a stored one in case only is taken, and the request
  changes no table.  Otherwise one account and, in the same transaction, its default collection are
  written, and the answer carries the new id.
\<close>

theorem CreateUser_contract:
  assumes "delivered e" and "schema_ok (w_tables w)"
    and "w_next_user_id w \<notin> ur_id ` set (t_users (w_tables w))"
    and "\<And>n. pe_uuid e n \<notin> cr_id ` set (t_collections (w_tables w))"
  shows "case usersvc_CreateUser u e w of (r, w') \<Rightarrow>
    let t = w_tables w; i = w_next_user_id w; ts = pe_clock e (w_round w) in
    if nickname_taken t (user_Nickname u) then r = Inl (Sentinel ErrDuplicateNickname) \<and> w_tables w' = t
    else r = Inr (u\<lparr>user_ID := i, user_CreatedAt := scan_time e ts\<rparr>) \<and>
      t_users (w_tables w') = t_users t @ [\<lparr>ur_id = i, ur_nickname = user_Nickname u,
        ur_password_hash = user_PasswordHash u, ur_created_at = ts\<rparr>] \<and>
      (\<exists>c. t_collections (w_tables w') = t_collections t @ [\<lparr>cr_id = c, cr_user_id = i,
        cr_name = DefCollectionName, cr_icon_slug = DefIconSlug, cr_icon_accent = DefIconAccent,
        cr_is_default = True, cr_created_at = ts\<rparr>]) \<and>
      t_tokens (w_tables w') = t_tokens t \<and> t_colors (w_tables w') = t_colors t"
  using CreateUser_run[OF assms, of u] by (auto simp: first_row_def Let_def split: prod.splits)

theorem CreateUser_contract_witness:
  "fst (usersvc_CreateUser (sample_user\<lparr>user_Nickname := ''ANN''\<rparr>) (sample_env\<lparr>pe_uuid := (\<lambda>_. 9)\<rparr>) signed_up)
    = Inl (Sentinel ErrDuplicateNickname)"
proof -
  have d: "delivered (sample_env\<lparr>pe_uuid := (\<lambda>_. 9)\<rparr>)" by (simp add: delivered_def sample_env_def)
  have n: "nickname_taken (w_tables signed_up) ''ANN''"
  proof -
    have "citext_key ''ann'' = citext_key ''ANN''" by code_simp
    then show ?thesis by (simp add: nickname_taken_def signed_up_eval)
  qed
  show ?thesis
    using CreateUser_contract[OF d signed_up_schema, of "sample_user\<lparr>user_Nickname := ''ANN''\<rparr>"] n
    by (simp add: signed_up_eval split: prod.splits)
qed

lemma cascade_absent:
  assumes "schema_ok t" "i \<notin> ur_id ` set (t_users t)"
  shows "cascade_user i t = t"
proof -
  have "\<forall>k \<in> set (t_collections t). cr_user_id k \<noteq> i" "\<forall>k \<in> set (t_tokens t). tr_user_id k \<noteq> i"
    using assms unfolding schema_ok_def collections_ok_def tokens_ok_def by blast+
  moreover have "\<forall>k \<in> set (t_users t). ur_id k \<noteq> i" using assms(2) by auto
  ultimately show ?thesis by (simp add: cascade_user_def filter_id_conv[THEN iffD2])
qed

lemma DeleteUser_run:
  assumes "delivered e" and "schema_ok (w_tables w)"
  shows "fst (usersvc_DeleteUser i e w) =
      (if i \<in> ur_id ` set (t_users (w_tables w)) then Inr () else Inl (Sentinel ErrUserNotFound))"
    "w_tables (snd (usersvc_DeleteUser i e w)) = cascade_user i (w_tables w)"
  using assms(1)
  by (auto simp: usersvc_DeleteUser_def DeleteUser_def sql_delete_user_def send_ok Let_def filter_empty_conv)

text \<open>
  C10. Deleting an account removes everything the database holds for it; an account that does not
  exist is reported and nothing changes.
\<close>

theorem DeleteUser_contract:
  assumes "delivered e" and "schema_ok (w_tables w)"
  shows "case usersvc_DeleteUser i e w of (r, w') \<Rightarrow>
    if i \<in> ur_id ` set (t_users (w_tables w))
    then r = Inr () \<and> user_view i (w_tables w') = ([], [], [], []) \<and> schema_ok (w_tables w')
    else r = Inl (Sentinel ErrUserNotFound) \<and> w_tables w' = w_tables w"
  using DeleteUser_run[OF assms, of i] cascade_absent[OF assms(2), of i] schema_cascade_user[OF assms(2), of i]
  by (auto simp: user_view_def cascade_user_def owns_def filter_empty_conv split: prod.splits)

theorem DeleteUser_contract_witness:
  "user_view 1 (w_tables (snd (usersvc_DeleteUser 1 sample_env signed_up))) = ([], [], [], [])"
  using DeleteUser_contract[OF sample_delivered signed_up_schema, of 1]
  by (simp add: signed_up_eval split: prod.splits)

lemma update_rows_none: "find hit rows = None \<Longrightarrow> update_rows hit p rows = rows"
  unfolding update_rows_def by (intro map_idI) (auto simp: find_None_iff)

lemma UpdateCollection_run:
  assumes "delivered e"
  shows "fst (collectionsvc_UpdateCollection i c p e w) =
      (case find (\<lambda>k. cr_id k = c \<and> cr_user_id k = i) (t_collections (w_tables w)) of
         None \<Rightarrow> Inl (Sentinel ErrNotFound) | Some r \<Rightarrow> Inr (scan_collection e (update_row p r)))"
    "w_tables (snd (collectionsvc_UpdateCollection i c p e w)) = (w_tables w)\<lparr>t_collections :=
       update_rows (\<lambda>k. cr_id k = c \<and> cr_user_id k = i) p (t_collections (w_tables w))\<rparr>"
  using assms update_rows_none
  by (simp_all add: collectionsvc_UpdateCollection_def UpdateCollection_def sql_update_collection_def send_ok
      row_error_def Let_def split: option.split)

lemma update_rows_split:
  assumes "distinct (map cr_id (pre @ row # post))" "cr_id row = c" "cr_user_id row = i"
  shows "update_rows (\<lambda>k. cr_id k = c \<and> cr_user_id k = i) p (pre @ row # post) = pre @ update_row p row # post"
proof -
  have "c \<notin> cr_id ` set pre \<and> c \<notin> cr_id ` set post" using assms(1,2) by auto
  then have "\<forall>k \<in> set pre \<union> set post. \<not> (cr_id k = c \<and> cr_user_id k = i)" by blast
  then have "map (\<lambda>r. if cr_id r = c \<and> cr_user_id r = i then update_row p r else r) ks = ks" if "set ks \<subseteq> set pre \<union> set post" for ks
    using that by (intro map_idI) auto
  then show ?thesis using assms(2,3) by (simp add: update_rows_def)
qed

text \<open>
  Updating a collection changes the fields the request carries and keeps the others, on the
  caller's collection only; its id, owner, date and default mark never change.
\<close>

theorem UpdateCollection_contract:
  assumes "delivered e" and "schema_ok (w_tables w)"
  shows "case collectionsvc_UpdateCollection i c p e w of (r, w') \<Rightarrow>
    let t = w_tables w in
    if \<not> owns t i c then r = Inl (Sentinel ErrNotFound) \<and> w_tables w' = t
    else \<exists>pre row post. t_collections t = pre @ row # post \<and> cr_id row = c \<and> cr_user_id row = i \<and>
      (let row' = row\<lparr>
          cr_name := (case up_Name p of None \<Rightarrow> cr_name row | Some x \<Rightarrow> x),
          cr_icon_slug := (case up_Icon p of None \<Rightarrow> cr_icon_slug row | Some x \<Rightarrow> x),
          cr_icon_accent := (case up_Accent p of None \<Rightarrow> cr_icon_accent row | Some x \<Rightarrow> x)\<rparr>
       in r = Inr (scan_collection e row') \<and> w_tables w' = t\<lparr>t_collections := pre @ row' # post\<rparr>)"
proof (cases "owns (w_tables w) i c")
  case False
  then show ?thesis using UpdateCollection_run[OF assms(1), of i c p w] not_owned[OF False]
    by (auto simp: update_rows_none split: prod.splits)
next
  case True
  obtain row where r: "row \<in> set (t_collections (w_tables w))" "cr_id row = c" "cr_user_id row = i"
    "\<And>k. k \<in> set (t_collections (w_tables w)) \<Longrightarrow> cr_id k = c \<Longrightarrow> k = row"
    "find (\<lambda>k. cr_id k = c \<and> cr_user_id k = i) (t_collections (w_tables w)) = Some row"
    using owned_row[OF assms(2) True] by blast
  obtain pre post where split: "t_collections (w_tables w) = pre @ row # post" using r(1) by (meson split_list)
  have "distinct (map cr_id (pre @ row # post))" using assms(2) by (simp add: schema_ok_def collections_ok_def split)
  then have call: "fst (collectionsvc_UpdateCollection i c p e w) = Inr (scan_collection e (update_row p row))"
    "w_tables (snd (collectionsvc_UpdateCollection i c p e w)) = (w_tables w)\<lparr>t_collections := pre @ update_row p row # post\<rparr>"
    using UpdateCollection_run[OF assms(1), of i c p w] update_rows_split[of pre row post c i p] r(2,3,5)
    by (simp_all add: split)
  have row: "update_row p row = row\<lparr>
      cr_name := (case up_Name p of None \<Rightarrow> cr_name row | Some x \<Rightarrow> x),
      cr_icon_slug := (case up_Icon p of None \<Rightarrow> cr_icon_slug row | Some x \<Rightarrow> x),
      cr_icon_accent := (case up_Accent p of None \<Rightarrow> cr_icon_accent row | Some x \<Rightarrow> x)\<rparr>"
    by (simp add: update_row_def coalesce_def)
  show ?thesis
    using call True split r(2,3) unfolding row Let_def
    by (cases "collectionsvc_UpdateCollection i c p e w") (simp, rule exI[of _ pre], rule exI[of _ row], rule exI[of _ post], simp)
qed

theorem UpdateCollection_contract_witness:
  "map cr_name (t_collections (w_tables (snd (collectionsvc_UpdateCollection 1 2
     \<lparr>up_Name = None, up_Icon = Some ''tag'', up_Accent = None\<rparr> sample_env signed_up)))) = [DefCollectionName]"
  using UpdateCollection_contract[OF sample_delivered signed_up_schema, where i = 1 and c = 2
      and p = "\<lparr>up_Name = None, up_Icon = Some ''tag'', up_Accent = None\<rparr>"]
  by (auto simp: signed_up_eval owns_def Let_def Cons_eq_append_conv split: prod.splits)

section \<open>Sessions\<close>

lemma UserByNickname_delivered:
  "delivered e \<Longrightarrow> UserByNickname q n e w =
    (case find (\<lambda>r. citext_key (ur_nickname r) = citext_key n) (t_users (w_tables w)) of
       None \<Rightarrow> Inl (Sentinel ErrUserNotFound) | Some r \<Rightarrow> Inr (scan_user e r),
     w\<lparr>w_round := Suc (w_round w)\<rparr>)"
  by (auto simp: UserByNickname_def sql_user_by_nickname_def send_ok row_error_def split: option.split)

text \<open>The account a login is for, when nickname and password are the right ones.\<close>

definition authenticates :: "strvalid \<Rightarrow> crypto \<Rightarrow> tables \<Rightarrow> string \<Rightarrow> string \<Rightarrow> user_row option" where
  "authenticates sv cy t nick password =
     (case NormalizeNickname sv nick of
        Inl _ \<Rightarrow> None
      | Inr n \<Rightarrow> (case find (\<lambda>r. citext_key (ur_nickname r) = citext_key n) (t_users t) of
          None \<Rightarrow> None
        | Some r \<Rightarrow> if length password \<le> MaxPasswordLen \<and> cy_Compare cy (ur_password_hash r) password = Match
            then Some r else None))"

lemma Login_run:
  assumes "delivered e" and "cy_Sum256 cy (cy_Text cy) \<notin> tr_hash ` set (t_tokens (w_tables w))"
  shows "fst (Login sv cy ttl nick password e w) =
      (case authenticates sv cy (w_tables w) nick password of
         None \<Rightarrow> Inl (Sentinel ErrInvalidCredentials) | Some u \<Rightarrow> Inr (NewToken cy (ur_id u) ttl))
    \<and> fst (snd (Login sv cy ttl nick password e w)) = 1
    \<and> w_tables (snd (snd (Login sv cy ttl nick password e w))) =
      (case authenticates sv cy (w_tables w) nick password of
         None \<Rightarrow> w_tables w
       | Some u \<Rightarrow> (w_tables w)\<lparr>t_tokens := t_tokens (w_tables w) @ [\<lparr>tr_hash = cy_Sum256 cy (cy_Text cy),
           tr_user_id = ur_id u, tr_expiry = (unix_nano (cy_Now cy) + ttl) div 1000\<rparr>]\<rparr>)"
proof (cases "NormalizeNickname sv nick")
  case (Inl err)
  then show ?thesis by (simp add: Login_def refuse_def EqualizeTiming_def authenticates_def)
next
  case (Inr n)
  have h: "\<not> (\<exists>r \<in> set (t_tokens (w_tables w)). tr_hash r = cy_Sum256 cy (cy_Text cy))"
    using assms(2) by force
  show ?thesis
  proof (cases "find (\<lambda>r. citext_key (ur_nickname r) = citext_key n) (t_users (w_tables w))")
    case None
    then show ?thesis
      using Inr assms(1)
      by (simp add: Login_def refuse_def EqualizeTiming_def authenticates_def UserByNickname_delivered)
  next
    case (Some u)
    then have "\<exists>r \<in> set (t_users (w_tables w)). ur_id r = ur_id u" by (auto simp: find_Some_iff)
    then show ?thesis
      using Some Inr assms(1) h
      by (auto simp: Login_def authenticates_def UserByNickname_delivered PasswordMatches_def EqualizeTiming_def
          InsertToken_def sql_insert_token_def send_ok NewToken_def HashToken_def param_time_def scan_user_def
          Let_def split: bcrypt_result.splits)
  qed
qed

text \<open>
  C11. Logging in.  Every login runs exactly one password comparison, and every refused one answers
  the same error and changes nothing: an invalid or unknown nickname, a wrong or overlong password
  and a stored hash that bcrypt cannot use look alike.  An accepted one stores the hash of the new
  token, its owner and its expiry, and answers the token.
\<close>

theorem Login_contract:
  assumes "delivered e" and "schema_ok (w_tables w)"
    and "cy_Sum256 cy (cy_Text cy) \<notin> tr_hash ` set (t_tokens (w_tables w))"
  shows "case Login sv cy ttl nick password e w of (r, compares, w') \<Rightarrow>
    compares = 1 \<and>
    (case authenticates sv cy (w_tables w) nick password of
       None \<Rightarrow> r = Inl (Sentinel ErrInvalidCredentials) \<and> w_tables w' = w_tables w
     | Some u \<Rightarrow> r = Inr (NewToken cy (ur_id u) ttl) \<and>
         w_tables w' = (w_tables w)\<lparr>t_tokens := t_tokens (w_tables w) @
           [\<lparr>tr_hash = cy_Sum256 cy (cy_Text cy), tr_user_id = ur_id u,
             tr_expiry = (unix_nano (cy_Now cy) + ttl) div 1000\<rparr>]\<rparr>)"
  using Login_run[OF assms(1,3), of sv ttl nick password] by (auto split: prod.splits option.splits)

definition sample_strvalid :: strvalid where
  "sample_strvalid = \<lparr>sv_ParseHex = (\<lambda>_ s. Inr s), sv_ParseUUID = (\<lambda>_ _. Inr 2),
     sv_Normalize = (\<lambda>_ s. s), sv_Validate = (\<lambda>_ _. None), sv_ValidateUnicode = (\<lambda>_ _. None)\<rparr>"

definition sample_crypto :: crypto where
  "sample_crypto = \<lparr>cy_Generate = (\<lambda>s _. Inr s), cy_Compare = (\<lambda>hash s. if s = ''pw'' then Match else Mismatch),
     cy_Sum256 = rev, cy_Text = ''secret'', cy_Now = Time 7000 0\<rparr>"

theorem Login_contract_witness:
  "fst (Login sample_strvalid sample_crypto 3000 ''ann'' ''no'' sample_env signed_up)
     = Inl (Sentinel ErrInvalidCredentials)
   \<and> fst (Login sample_strvalid sample_crypto 3000 ''bob'' ''pw'' sample_env signed_up)
     = Inl (Sentinel ErrInvalidCredentials)
   \<and> fst (Login sample_strvalid sample_crypto 3000 ''ann'' ''pw'' sample_env signed_up)
     = Inr (NewToken sample_crypto 1 3000)"
proof -
  have k: "citext_key ''ann'' \<noteq> citext_key ''bob''" by code_simp
  have f: "cy_Sum256 sample_crypto (cy_Text sample_crypto) \<notin> tr_hash ` set (t_tokens (w_tables signed_up))"
    by (simp add: signed_up_eval)
  note L = Login_contract[OF sample_delivered signed_up_schema f, where sv = sample_strvalid and ttl = 3000]
  show ?thesis
    using L[where nick = "''ann''" and password = "''no''"] L[where nick = "''bob''" and password = "''pw''"]
      L[where nick = "''ann''" and password = "''pw''"] k
    by (simp add: signed_up_eval authenticates_def NormalizeNickname_def sample_strvalid_def sample_crypto_def
        MaxPasswordLen_def split: prod.splits)
qed

lemma find_fresh_last: "\<forall>x \<in> set xs. \<not> P x \<Longrightarrow> find P (xs @ [r]) = (if P r then Some r else None)"
  by (induction xs) auto

text \<open>Looking a token up, with the connection up.\<close>

lemma UserIDForTokenHash_delivered:
  "delivered e \<Longrightarrow> UserIDForTokenHash Pool h e w =
    (case find (\<lambda>r. tr_hash r = h \<and> tr_expiry r > pe_clock e (w_round w)) (t_tokens (w_tables w)) of
       None \<Rightarrow> Inl (Sentinel ErrTokenNotFound) | Some r \<Rightarrow> Inr (tr_user_id r),
     w\<lparr>w_round := Suc (w_round w)\<rparr>)"
  by (auto simp: UserIDForTokenHash_def sql_user_for_token_def send_ok row_error_def now_def split: option.split)

lemma InsertToken_Inr:
  assumes "InsertToken q t e w = (Inr v, w')"
  shows "t_tokens (w_tables w') = t_tokens (w_tables w) @ [\<lparr>tr_hash = tok_Hash t, tr_user_id = tok_UserID t,
      tr_expiry = param_time (tok_Expiry t)\<rparr>]"
    "tok_Hash t \<notin> tr_hash ` set (t_tokens (w_tables w))"
  using assms
  by (auto simp: InsertToken_def send_Inr_iff sql_insert_token_def Let_def split: prod.splits sum.splits if_splits)

lemma Login_Inr:
  assumes "Login sv cy ttl nick password e w = (Inr tok, n, w')"
  obtains w1 w2 i where "w_tables w1 = w_tables w" "tok = NewToken cy i ttl" "InsertToken Pool tok e w1 = (Inr (), w')"
proof -
  obtain nn where n: "NormalizeNickname sv nick = Inr nn"
    using assms by (auto simp: Login_def refuse_def split: sum.splits)
  obtain u w1 where u: "UserByNickname Pool nn e w = (Inr u, w1)"
    using assms n by (auto simp: Login_def refuse_def split: sum.splits prod.splits if_splits)
  have "w_tables w1 = w_tables w" using read_tables(1)[of Pool nn e w] u by simp
  moreover have "tok = NewToken cy (user_ID u) ttl \<and> InsertToken Pool tok e w1 = (Inr (), w')"
    using assms n u by (auto simp: Login_def Let_def split: sum.splits prod.splits if_splits)
  ultimately show thesis using that by blast
qed

text \<open>
  C12. The life of a session.  The token a login answered opens the API for its owner until the
  database's clock reaches the expiry that was stored, and never after it or after a logout with
  it; the token's text itself is not in the database.
\<close>

theorem token_lifetime:
  assumes "Login sv cy ttl nick password e w = (Inr tok, n, w')" and "delivered e'"
  shows "fst (UserIDForTokenHash Pool (HashToken cy (tok_Plaintext tok)) e' w') =
      (if pe_clock e' (w_round w') < param_time (tok_Expiry tok) then Inr (tok_UserID tok)
       else Inl (Sentinel ErrTokenNotFound))
    \<and> fst (UserIDForTokenHash Pool (HashToken cy (tok_Plaintext tok)) e'
        (snd (Logout (HashToken cy (tok_Plaintext tok)) e' w'))) = Inl (Sentinel ErrTokenNotFound)"
proof -
  obtain w1 i where w1: "w_tables w1 = w_tables w" and t: "tok = NewToken cy i ttl"
    and ins: "InsertToken Pool tok e w1 = (Inr (), w')"
    using Login_Inr[OF assms(1)] by blast
  have h: "HashToken cy (tok_Plaintext tok) = tok_Hash tok" by (simp add: t NewToken_def Let_def)
  have old: "\<forall>r \<in> set (t_tokens (w_tables w1)). tr_hash r \<noteq> tok_Hash tok"
    using InsertToken_Inr(2)[OF ins] by (metis imageI)
  have "find (\<lambda>r. tr_hash r = tok_Hash tok \<and> tr_expiry r > x) (t_tokens (w_tables w')) =
      (if x < param_time (tok_Expiry tok) then Some \<lparr>tr_hash = tok_Hash tok, tr_user_id = tok_UserID tok,
        tr_expiry = param_time (tok_Expiry tok)\<rparr> else None)" for x
    using old unfolding InsertToken_Inr(1)[OF ins] by (subst find_fresh_last) auto
  then show ?thesis
    using assms(2) unfolding h
    by (auto simp: UserIDForTokenHash_delivered Logout_def DeleteToken_def sql_delete_token_def send_ok
        find_None_iff Let_def split: option.split)
qed

theorem token_lifetime_witness:
  "\<exists>tok n w'. Login sample_strvalid sample_crypto 3000 ''ann'' ''pw'' sample_env signed_up = (Inr tok, n, w') \<and>
    fst (UserIDForTokenHash Pool (HashToken sample_crypto (tok_Plaintext tok)) sample_env w') = Inr 1"
proof -
  have L: "Login sample_strvalid sample_crypto 3000 ''ann'' ''pw'' sample_env signed_up =
    (Inr (NewToken sample_crypto 1 3000), 1, signed_up\<lparr>w_round := 6, w_tables := (w_tables signed_up)\<lparr>
      t_tokens := [\<lparr>tr_hash = ''terces'', tr_user_id = 1, tr_expiry = 10\<rparr>]\<rparr>\<rparr>)"
    by (simp add: Login_def NormalizeNickname_def sample_strvalid_def UserByNickname_delivered sample_delivered
        PasswordMatches_def MaxPasswordLen_def sample_crypto_def signed_up_eval scan_user_def InsertToken_def
        sql_insert_token_def send_ok NewToken_def HashToken_def param_time_def Let_def)
  show ?thesis
    using L token_lifetime[OF L sample_delivered] by (simp add: NewToken_def sample_env_def sample_crypto_def param_time_def Let_def)
qed

end
