(* ===== verification/Paging.thy ===== *)
theory Paging
  imports Account_Contracts
begin

text \<open>
  Keyset paging.  The contract between an ordering and the comparison that continues after a row is
  the locale \<^verbatim>\<open>keyset_listing\<close>; it is interpreted on the ORDER BY and WHERE parts of the query that
  \<^verbatim>\<open>keyset\<close> builds, and gives that a client who follows the cursors sees every colour once, in
  order.  The export's grouping of joined rows is the second half of the theory.
\<close>

section \<open>Orderings and continuations\<close>

lemma last_take_nth: "0 < k \<Longrightarrow> k \<le> length xs \<Longrightarrow> last (take k xs) = xs ! (k - 1)"
  by (subst last_conv_nth) auto

locale keyset_listing =
  fixes order :: "'r list \<Rightarrow> 'r list"
    and after :: "'r \<Rightarrow> 'r \<Rightarrow> bool"
    and unique :: "'r list \<Rightarrow> bool"
  assumes order_mset: "mset (order rows) = mset rows"
    and order_filter: "order (filter P rows) = filter P (order rows)"
    and order_sorted: "unique rows \<Longrightarrow> sorted_wrt after (order rows)"
    and after_asym: "after r x \<Longrightarrow> \<not> after x r"
begin

lemma order_length [simp]: "length (order rows) = length rows"
  using order_mset[of rows] by (metis size_mset)

lemma continue_after:
  assumes "unique rows" and "order rows = pre @ r # post"
  shows "order (filter (after r) rows) = post"
proof -
  have s: "sorted_wrt after (pre @ r # post)" using order_sorted[OF assms(1)] assms(2) by simp
  then have "filter (after r) pre = []" using after_asym by (auto simp: sorted_wrt_append filter_empty_conv)
  moreover have "\<not> after r r" using after_asym by blast
  moreover have "filter (after r) post = post" using s by (auto simp: sorted_wrt_append filter_id_conv)
  ultimately show ?thesis by (simp add: order_filter assms(2))
qed

text \<open>Continuing after the last row of a prefix gives the rest.\<close>

lemma continue_after_take:
  assumes "unique rows" and "0 < k" and "k \<le> length rows"
  shows "order (filter (after (last (take k (order rows)))) rows) = drop k (order rows)"
proof -
  have "k - 1 < length (order rows)" using assms by simp
  then have d: "order rows = take (k - 1) (order rows) @ order rows ! (k - 1) # drop k (order rows)"
    using id_take_nth_drop[of "k - 1" "order rows"] assms(2) by simp
  have "last (take k (order rows)) = order rows ! (k - 1)"
    by (rule last_take_nth) (use assms in simp_all)
  then show ?thesis using continue_after[OF assms(1) d] by simp
qed

end

text \<open>The comparison that goes with a direction.\<close>

definition cmp_of :: "direction \<Rightarrow> comparison" where
  "cmp_of d = (case d of ASC \<Rightarrow> Greater | DESC \<Rightarrow> Less)"

lemma sorted_wrt_sort_key_strict:
  "distinct (map f xs) \<Longrightarrow> sorted_wrt (\<lambda>x y. f x < f y) (sort_key f xs)"
proof -
  assume d: "distinct (map f xs)"
  have "sorted (map f (sort_key f xs))" by simp
  moreover have "distinct (map f (sort_key f xs))"
    using d by (metis distinct_map mset_sort distinct_sort set_sort)
  ultimately have "sorted_wrt (<) (map f (sort_key f xs))" by (simp add: strict_sorted_iff)
  then show ?thesis by (simp add: sorted_wrt_map)
qed

interpretation listing: keyset_listing "sql_order (cs, d)"
    "\<lambda>r x. sql_compare (cmp_of d) (row_value cs x) (row_value cs r)"
    "\<lambda>rows. distinct (map (row_value cs) rows)" for cs d
proof
  show "mset (sql_order (cs, d) rows) = mset rows" for rows
    by (cases d) (simp_all add: sql_order_def Let_def)
  show "sql_order (cs, d) (filter P rows) = filter P (sql_order (cs, d) rows)" for P rows
    by (cases d) (simp_all add: sql_order_def Let_def filter_sort rev_filter[symmetric])
  show "sorted_wrt (\<lambda>r x. sql_compare (cmp_of d) (row_value cs x) (row_value cs r)) (sql_order (cs, d) rows)"
    if "distinct (map (row_value cs) rows)" for rows
    using sorted_wrt_sort_key_strict[OF that]
    by (cases d) (simp_all add: sql_order_def cmp_of_def sql_compare_def Let_def sorted_wrt_rev)
  show "\<not> sql_compare (cmp_of d) (row_value cs r) (row_value cs x)"
    if "sql_compare (cmp_of d) (row_value cs x) (row_value cs r)" for r x
    using that by (cases d) (auto simp: cmp_of_def sql_compare_def)
qed

section \<open>The query for a listing\<close>

definition direction_of :: "list_params \<Rightarrow> direction" where
  "direction_of p = (if lp_Order p = OrderDesc then DESC else ASC)"

definition listing :: "list_params \<Rightarrow> color_row list \<Rightarrow> color_row list" where
  "listing p rows = sql_order (keyset_columns (lp_Sort p), direction_of p) rows"

definition valid_params :: "list_params \<Rightarrow> bool" where
  "valid_params p \<longleftrightarrow> lp_Sort p \<in> {SortByCreatedAt, SortByHex, SortByColor}
     \<and> lp_Order p \<in> {OrderAsc, OrderDesc} \<and> 0 < lp_Limit p \<and> lp_Limit p \<le> MaxColorLimit"

lemma keyset_valid:
  assumes "lp_Sort p \<in> {SortByCreatedAt, SortByHex, SortByColor}" "lp_Order p \<in> {OrderAsc, OrderDesc}"
  shows "\<exists>args. keyset m p = Inr \<lparr>kq_order = (keyset_columns (lp_Sort p), direction_of p),
      kq_predicate = (keyset_columns (lp_Sort p), cmp_of (direction_of p)), kq_args = args\<rparr>"
  using assms by (auto simp: keyset_def keyset_columns_def direction_of_def cmp_of_def Let_def)

text \<open>The cursor of a row: what the page's last colour holds.\<close>

definition cursor_at :: "color \<Rightarrow> color_cursor" where
  "cursor_at x = \<lparr>cur_CreatedAt = color_CreatedAt x, cur_Hex = color_Hex x\<rparr>"

text \<open>Its bound values are the row's, as long as stored keys are the keys of their hexes.\<close>

lemma keyset_cursor_args:
  assumes "keyset m (p\<lparr>lp_After := Some (cursor_at (scan_color e r))\<rparr>) = Inr k"
    and "xr_color_key r = Feel m (xr_hex r)"
  shows "kq_args k = row_value (keyset_columns (lp_Sort p)) r"
  using assms
  by (auto simp: keyset_def keyset_columns_def cursor_at_def scan_color_def row_value_def column_value_def Let_def
      split: if_splits)

lemma row_value_unique:
  assumes "colors_ok t"
  shows "distinct (map (row_value (keyset_columns s)) (colors_of c t))"
proof -
  have "distinct (map (\<lambda>r. (xr_collection_id r, xr_hex r)) (colors_of c t))"
    using assms by (simp add: colors_ok_def colors_of_def distinct_map_filter)
  then have "inj_on (\<lambda>r. (xr_collection_id r, xr_hex r)) (set (colors_of c t))" "distinct (colors_of c t)"
    by (simp_all add: distinct_map)
  moreover have "xr_collection_id r = c" if "r \<in> set (colors_of c t)" for r using that by (simp add: colors_of_def)
  ultimately have "inj_on xr_hex (set (colors_of c t))" by (auto simp: inj_on_def)
  then have "inj_on (row_value (keyset_columns s)) (set (colors_of c t))"
    by (auto simp: inj_on_def row_value_def keyset_columns_def column_value_def)
  then show ?thesis using \<open>distinct (colors_of c t)\<close> by (simp add: distinct_map)
qed

section \<open>Pages\<close>

lemma normalizedParams_valid:
  assumes "valid_params p"
  shows "normalizedParams p = p"
proof -
  have "lp_Sort p \<noteq> []" "lp_Order p \<noteq> []"
    using assms by (auto simp: valid_params_def SortByCreatedAt_def SortByHex_def SortByColor_def OrderAsc_def OrderDesc_def)
  then show ?thesis using assms by (simp add: normalizedParams_def valid_params_def Let_def)
qed

text \<open>The rows a page is cut from.\<close>

definition rows_after :: "list_params \<Rightarrow> color_row option \<Rightarrow> color_row list \<Rightarrow> color_row list" where
  "rows_after p r rows = (case r of None \<Rightarrow> rows
     | Some r \<Rightarrow> filter (\<lambda>x. sql_compare (cmp_of (direction_of p))
         (row_value (keyset_columns (lp_Sort p)) x) (row_value (keyset_columns (lp_Sort p)) r)) rows)"

lemma sql_filter_fun:
  "sql_filter None args = (\<lambda>_. True)"
  "sql_filter (Some (cs, cmp)) args = (\<lambda>x. sql_compare cmp (row_value cs x) args)"
  by (rule ext, simp add: sql_filter_def)+

lemma ListColors_granted:
  assumes "delivered e" "valid_params p"
  shows "\<exists>page. fst (ListColors Pool c p e w) = Inr page"
proof -
  obtain args where "keyset (pe_math e) p = Inr \<lparr>kq_order = (keyset_columns (lp_Sort p), direction_of p),
      kq_predicate = (keyset_columns (lp_Sort p), cmp_of (direction_of p)), kq_args = args\<rparr>"
    using keyset_valid[of p "pe_math e"] assms(2) by (auto simp: valid_params_def)
  then show ?thesis
    by (auto simp: ListColors_def listQuery_def normalizedParams_valid[OF assms(2)] send_ok[OF assms(1)]
        run_list_query_def Let_def split: option.split)
qed

lemma ListColors_page:
  assumes "delivered e" "valid_params p" "\<And>r. ro = Some r \<Longrightarrow> xr_color_key r = Feel (pe_math e) (xr_hex r)"
  shows "ListColors q c (p\<lparr>lp_After := map_option (\<lambda>r. cursor_at (scan_color e r)) ro\<rparr>) e w =
    (let xs = listing p (rows_after p ro (colors_of c (w_tables w))); n = nat (lp_Limit p) in
     (Inr \<lparr>page_Colors = map (scan_color e) (take n xs), page_HasMore = (n < length xs)\<rparr>,
      w\<lparr>w_round := Suc (w_round w)\<rparr>))"
proof -
  let ?p = "p\<lparr>lp_After := map_option (\<lambda>r. cursor_at (scan_color e r)) ro\<rparr>"
  have v: "valid_params ?p" using assms(2) by (simp add: valid_params_def)
  obtain args where k: "keyset (pe_math e) ?p = Inr \<lparr>kq_order = (keyset_columns (lp_Sort p), direction_of p),
      kq_predicate = (keyset_columns (lp_Sort p), cmp_of (direction_of p)), kq_args = args\<rparr>"
    using keyset_valid[of ?p "pe_math e"] v by (auto simp: valid_params_def direction_of_def)
  have a: "args = row_value (keyset_columns (lp_Sort p)) r" if "ro = Some r" for r
    using keyset_cursor_args[where m = "pe_math e" and p = p and e = e and r = r] k that assms(3)[OF that] by simp
  have pos: "0 < lp_Limit p" using assms(2) by (simp add: valid_params_def)
  have n: "nat (lp_Limit p + 1) = Suc (nat (lp_Limit p))" using pos by simp
  let ?xs = "listing p (rows_after p ro (colors_of c (w_tables w)))"
  have rows: "sql_order (keyset_columns (lp_Sort p), direction_of p)
      (filter (sql_filter (case ro of None \<Rightarrow> None | Some _ \<Rightarrow> Some (keyset_columns (lp_Sort p), cmp_of (direction_of p)))
        (case ro of None \<Rightarrow> [] | Some _ \<Rightarrow> args)) (colors_of c (w_tables w))) = ?xs"
    using a by (cases ro) (simp_all add: listing_def rows_after_def sql_filter_fun)
  have lq: "listQuery (pe_math e) ?p c = Inr \<lparr>lq_collection = c, lq_limit = lp_Limit p + 1,
      lq_order = (keyset_columns (lp_Sort p), direction_of p),
      lq_filter = (case ro of None \<Rightarrow> None | Some _ \<Rightarrow> Some (keyset_columns (lp_Sort p), cmp_of (direction_of p))),
      lq_args = (case ro of None \<Rightarrow> [] | Some _ \<Rightarrow> args)\<rparr>"
    using k by (cases ro) (simp_all add: listQuery_def)
  have "ListColors q c ?p e w = (let colors = map (scan_color e) (take (Suc (nat (lp_Limit p))) ?xs) in
      (Inr (if int (length colors) > lp_Limit p
        then \<lparr>page_Colors = take (nat (lp_Limit p)) colors, page_HasMore = True\<rparr>
        else \<lparr>page_Colors = colors, page_HasMore = False\<rparr>), w\<lparr>w_round := Suc (w_round w)\<rparr>))"
    using lq rows n
    by (simp add: ListColors_def normalizedParams_valid[OF v] send_ok[OF assms(1)] run_list_query_def Let_def)
  then show ?thesis using pos by (auto simp: Let_def min_def take_map)
qed

section \<open>Following the cursors\<close>

text \<open>
  What a client does with the answers: while a page says there is more, ask again with the cursor of
  its last colour.  Running out of fuel or an error is \<^verbatim>\<open>None\<close>.
\<close>

fun follow :: "nat \<Rightarrow> clt_id \<Rightarrow> list_params \<Rightarrow> pg_env \<Rightarrow> world \<Rightarrow> color list option" where
  "follow 0 c p e w = None"
| "follow (Suc k) c p e w =
     (case ListColors Pool c p e w of
        (Inl err, w') \<Rightarrow> None
      | (Inr page, w') \<Rightarrow>
          if page_HasMore page
          then map_option (\<lambda>rest. page_Colors page @ rest)
            (follow k c (p\<lparr>lp_After := Some (cursor_at (last (page_Colors page)))\<rparr>) e w')
          else Some (page_Colors page))"

lemma rows_after_listing:
  assumes "distinct (map (row_value (keyset_columns (lp_Sort p))) rows)" "0 < k" "k \<le> length rows"
  shows "listing p (rows_after p (Some (last (take k (listing p rows)))) rows) = drop k (listing p rows)"
  using listing.continue_after_take[OF assms] by (simp add: listing_def rows_after_def)

lemma listing_length [simp]: "length (listing p rows) = length rows"
  by (simp add: listing_def listing.order_length)

lemma listing_set: "set (listing p rows) = set rows"
  using listing.order_mset by (metis listing_def mset_eq_setD)

lemma follow_listing:
  assumes "delivered e" "valid_params p" "colors_ok (w_tables w)" "keys_ok (pe_math e) (w_tables w)"
    and "rows = colors_of c (w_tables w)" and "k \<le> length rows" and "length rows < k + fuel"
    and "ro = (if k = 0 then None else Some (last (take k (listing p rows))))"
  shows "follow fuel c (p\<lparr>lp_After := map_option (\<lambda>r. cursor_at (scan_color e r)) ro\<rparr>) e w
    = Some (map (scan_color e) (drop k (listing p rows)))"
  using assms
proof (induction fuel arbitrary: k ro w)
  case 0
  then show ?case by simp
next
  case (Suc fuel)
  let ?xs = "listing p rows"
  let ?n = "nat (lp_Limit p)"
  have n: "0 < ?n" using Suc.prems(2) by (simp add: valid_params_def)
  have uniq: "distinct (map (row_value (keyset_columns (lp_Sort p))) rows)"
    unfolding Suc.prems(5) using Suc.prems(3) by (rule row_value_unique)
  have key: "xr_color_key r = Feel (pe_math e) (xr_hex r)" if "ro = Some r" for r
  proof -
    have "0 < k" "take k ?xs \<noteq> []" "r = last (take k ?xs)"
      using that Suc.prems(6,8) by (auto split: if_splits simp flip: length_greater_0_conv)
    then have "r \<in> set (take k ?xs)" using last_in_set by blast
    then have "r \<in> set rows" using set_take_subset[of k ?xs] listing_set by blast
    then show ?thesis using Suc.prems(4,5) by (simp add: keys_ok_def colors_of_def)
  qed
  have rest: "listing p (rows_after p ro rows) = drop k ?xs"
    using rows_after_listing[OF uniq] Suc.prems(6,8) by (cases "k = 0") (auto simp: rows_after_def)
  let ?w' = "w\<lparr>w_round := Suc (w_round w)\<rparr>"
  have page: "ListColors Pool c (p\<lparr>lp_After := map_option (\<lambda>r. cursor_at (scan_color e r)) ro\<rparr>) e w =
    (Inr \<lparr>page_Colors = map (scan_color e) (take ?n (drop k ?xs)), page_HasMore = (?n < length (drop k ?xs))\<rparr>, ?w')"
    using ListColors_page[where q = Pool and c = c and w = w and ro = ro, OF Suc.prems(1,2) key]
    unfolding Suc.prems(5)[symmetric] rest Let_def by simp
  show ?case
  proof (cases "?n < length (drop k ?xs)")
    case False
    then show ?thesis by (simp add: page del: length_drop)
  next
    case True
    let ?k = "k + ?n"
    have last: "last (take ?n (drop k ?xs)) = last (take ?k ?xs)" "take ?n (drop k ?xs) \<noteq> []"
      using True n by (auto simp: take_add last_append)
    have "follow fuel c (p\<lparr>lp_After := map_option (\<lambda>r. cursor_at (scan_color e r)) (Some (last (take ?k ?xs)))\<rparr>) e ?w'
        = Some (map (scan_color e) (drop ?k ?xs))"
      using Suc.prems n True by (intro Suc.IH) auto
    then have "follow (Suc fuel) c (p\<lparr>lp_After := map_option (\<lambda>r. cursor_at (scan_color e r)) ro\<rparr>) e w
        = Some (map (scan_color e) (take ?n (drop k ?xs)) @ map (scan_color e) (drop ?k ?xs))"
      using page True last by (simp add: last_map)
    moreover have "take ?n (drop k ?xs) @ drop ?k ?xs = drop k ?xs"
      using append_take_drop_id[of ?n "drop k ?xs"] by (simp add: add.commute)
    ultimately show ?thesis by (metis map_append)
  qed
qed

text \<open>
  C13. Paging is complete.  A client who starts without a cursor and follows the cursors of the
  answers receives, for every sort, order and page size, each colour of the collection exactly
  once, in the order asked for with the hex as the tie break, after at most one request more than
  there are colours.
\<close>

theorem follow_complete:
  assumes "delivered e" "valid_params p" "lp_After p = None" "app_ok (pe_math e) (w_tables w)"
    and "length (colors_of c (w_tables w)) < fuel"
  shows "follow fuel c p e w = Some (map (scan_color e) (listing p (colors_of c (w_tables w))))
    \<and> mset (listing p (colors_of c (w_tables w))) = mset (colors_of c (w_tables w))
    \<and> sorted_wrt (\<lambda>x y. if lp_Order p = OrderDesc then row_value (keyset_columns (lp_Sort p)) y < row_value (keyset_columns (lp_Sort p)) x
        else row_value (keyset_columns (lp_Sort p)) x < row_value (keyset_columns (lp_Sort p)) y)
      (listing p (colors_of c (w_tables w)))"
proof (intro conjI)
  have ok: "colors_ok (w_tables w)" "keys_ok (pe_math e) (w_tables w)"
    using assms(4) by (auto simp: app_ok_def schema_ok_def)
  have "p\<lparr>lp_After := None\<rparr> = p" using assms(3) by simp
  then show "follow fuel c p e w = Some (map (scan_color e) (listing p (colors_of c (w_tables w))))"
    using follow_listing[OF assms(1,2) ok refl, where k = 0 and fuel = fuel and ro = None] assms(5) by simp
  show "mset (listing p (colors_of c (w_tables w))) = mset (colors_of c (w_tables w))"
    by (simp add: listing_def listing.order_mset)
  show "sorted_wrt (\<lambda>x y. if lp_Order p = OrderDesc then row_value (keyset_columns (lp_Sort p)) y < row_value (keyset_columns (lp_Sort p)) x
        else row_value (keyset_columns (lp_Sort p)) x < row_value (keyset_columns (lp_Sort p)) y)
      (listing p (colors_of c (w_tables w)))"
    using listing.order_sorted[where cs = "keyset_columns (lp_Sort p)" and d = "direction_of p", OF row_value_unique[OF ok(1)]]
    by (auto simp: listing_def direction_of_def cmp_of_def sql_compare_def split: if_splits)
qed

text \<open>A collection with two colours whose stored keys are computed, read one colour per page.\<close>

definition two_colors :: world where
  "two_colors = signed_up\<lparr>w_tables := (w_tables signed_up)\<lparr>t_colors :=
     [\<lparr>xr_collection_id = 2, xr_hex = ''#00ff7f'', xr_created_at = 5, xr_color_key = Feel binary64_env ''#00ff7f''\<rparr>,
      \<lparr>xr_collection_id = 2, xr_hex = ''#102030'', xr_created_at = 3, xr_color_key = Feel binary64_env ''#102030''\<rparr>]\<rparr>\<rparr>"

theorem follow_complete_witness:
  "follow 3 2 \<lparr>lp_Sort = SortByCreatedAt, lp_Order = OrderAsc, lp_After = None, lp_Limit = 1\<rparr> sample_env two_colors
    = Some [\<lparr>color_Hex = ''#102030'', color_CreatedAt = Time 3000 0\<rparr>, \<lparr>color_Hex = ''#00ff7f'', color_CreatedAt = Time 5000 0\<rparr>]"
proof -
  let ?p = "\<lparr>lp_Sort = SortByCreatedAt, lp_Order = OrderAsc, lp_After = None, lp_Limit = 1\<rparr>"
  have ok: "app_ok (pe_math sample_env) (w_tables two_colors)"
    by (simp add: two_colors_def signed_up_eval app_ok_def schema_ok_def users_ok_def tokens_ok_def
        collections_ok_def colors_ok_def keys_ok_def defaults_ok_def sample_env_def normal_hex_def HexLen_def
        is_hex_digit_def hex_digits_def)
  have v: "valid_params ?p" by (simp add: valid_params_def MaxColorLimit_def)
  have n: "length (colors_of 2 (w_tables two_colors)) < 3" by (simp add: two_colors_def colors_of_def)
  have "listing ?p (colors_of 2 (w_tables two_colors)) = rev (t_colors (w_tables two_colors))"
    by (simp add: listing_def sql_order_def direction_of_def keyset_columns_def two_colors_def colors_of_def
        row_value_def column_value_def less_sql_value_def)
  then show ?thesis
    using follow_complete[OF sample_delivered v _ ok n]
    by (simp add: two_colors_def scan_color_def scan_time_def sample_env_def)
qed

end
