(* ===== verification/Cursor.thy ===== *)
theory Cursor
  imports Base64 Go_Time Paging
begin

text \<open>
  \<^verbatim>\<open>internal/handlers/cursor.go\<close>: the token that names the last colour of a page, and its decoding from
  untrusted input.
\<close>

section \<open>strings.Split\<close>

fun Split :: "string \<Rightarrow> char \<Rightarrow> string list" where
  "Split [] sep = [[]]"
| "Split (c # s) sep =
     (if c = sep then [] # Split s sep
      else case Split s sep of [] \<Rightarrow> [[c]] | w # ws \<Rightarrow> (c # w) # ws)"

lemma Split_no_sep: "sep \<notin> set s \<Longrightarrow> Split s sep = [s]"
  by (induction s) auto

lemma Split_append: "sep \<notin> set s \<Longrightarrow> Split (s @ sep # r) sep = s # Split r sep"
  by (induction s) auto

section \<open>Encoding and decoding\<close>

definition cursorSep :: string where "cursorSep = ''|''"
definition cursorHeaderParts :: nat where "cursorHeaderParts = 2"

definition cursorKey :: "color_sort \<Rightarrow> color \<Rightarrow> string list" where
  "cursorKey srt lst =
     (if srt = SortByCreatedAt then [Format (color_CreatedAt lst), color_Hex lst]
      else if srt = SortByHex \<or> srt = SortByColor then [color_Hex lst]
      else [])"

definition encodeCursor :: "color_sort \<Rightarrow> sort_order \<Rightarrow> color \<Rightarrow> string" where
  "encodeCursor srt order lst =
     EncodeToString (join_text cursorSep ([srt, order] @ cursorKey srt lst))"

definition badCursor :: "string \<Rightarrow> (go_error, 'a) result" where
  "badCursor msg = Inl (Errorf msg [Sentinel ErrInvalidCursor])"

text \<open>Go's zero \<^verbatim>\<open>time.Time\<close>: the first second of year 1.\<close>

definition zeroTime :: gotime where
  "zeroTime = Time (- 62135596800000000000) 0"

definition decodeCursor :: "strvalid \<Rightarrow> string \<Rightarrow> color_sort \<Rightarrow> sort_order \<Rightarrow> (go_error, color_cursor) result" where
  "decodeCursor sv token srt order =
     (case DecodeString token of
        None \<Rightarrow> badCursor ''not unpadded base64url''
      | Some raw \<Rightarrow>
          let parts = Split raw (CHR ''|'') in
          if length parts \<le> cursorHeaderParts then badCursor ''want more than 2 fields''
          else
            let gotSort = parts ! 0; gotOrder = parts ! 1 in
            if gotSort \<noteq> srt \<or> gotOrder \<noteq> order then badCursor ''cursor was created for another sort''
            else
              let key = drop cursorHeaderParts parts in
              if srt = SortByCreatedAt then
                if length key \<noteq> 2 then badCursor ''want a timestamp and a hex''
                else (case ParseTime (key ! 0) of
                        None \<Rightarrow> badCursor ''not an RFC3339 timestamp''
                      | Some createdAt \<Rightarrow>
                          (case NewHexSV sv (key ! 1) of
                             Inl err \<Rightarrow> Inl (Errorf [] [Sentinel ErrInvalidCursor, err])
                           | Inr hex \<Rightarrow> Inr \<lparr>cur_CreatedAt = createdAt, cur_Hex = hex\<rparr>))
              else if srt = SortByHex \<or> srt = SortByColor then
                if length key \<noteq> 1 then badCursor ''want one hex''
                else (case NewHexSV sv (key ! 0) of
                        Inl err \<Rightarrow> Inl (Errorf [] [Sentinel ErrInvalidCursor, err])
                      | Inr hex \<Rightarrow> Inr \<lparr>cur_CreatedAt = zeroTime, cur_Hex = hex\<rparr>)
              else badCursor ''unknown sort'')"

section \<open>Round trip\<close>

definition plain :: "string \<Rightarrow> bool" where
  "plain s \<longleftrightarrow> CHR ''|'' \<notin> set s"

lemma plain_append [simp]: "plain (s @ t) \<longleftrightarrow> plain s \<and> plain t"
  by (auto simp: plain_def)

lemma plain_Nil [simp]: "plain []"
  by (simp add: plain_def)

lemma plain_Cons [simp]: "plain (c # s) \<longleftrightarrow> c \<noteq> CHR ''|'' \<and> plain s"
  by (auto simp: plain_def)

lemma digit_plain: "digit n \<noteq> CHR ''|''"
proof
  assume "digit n = CHR ''|''"
  then have "isDigit (CHR ''|'')" by (metis digit_simps(1))
  then show False by (simp add: isDigit_def)
qed

lemma fixed_plain: "plain (fixed w n)"
  by (induction w n rule: fixed.induct) (simp_all add: digit_plain)

lemma decimal_plain: "plain (decimal n)"
  by (induction n rule: decimal.induct) (subst decimal.simps, simp add: digit_plain)

lemma fraction_plain: "plain (fraction n)"
proof -
  have "set (fraction n) \<subseteq> insert (CHR ''.'') (set (fixed 9 n))"
    by (auto simp: fraction_def dest!: set_dropWhileD)
  then show ?thesis using fixed_plain[of 9 n] by (auto simp: plain_def)
qed

lemma Format_plain: "plain (Format t)"
  by (simp add: Format_def Let_def appendInt_def zoneText_def fixed_plain decimal_plain fraction_plain
      split: prod.split)

lemma names_plain:
  "plain SortByCreatedAt" "plain SortByHex" "plain SortByColor" "plain OrderAsc" "plain OrderDesc"
  by (simp_all add: SortByCreatedAt_def SortByHex_def SortByColor_def OrderAsc_def OrderDesc_def)

lemma normal_hex_plain:
  assumes "normal_hex h"
  shows "plain h"
proof (cases h)
  case Nil
  then show ?thesis by simp
next
  case (Cons c s)
  have "\<not> is_hex_digit (CHR ''|'')" by (simp add: is_hex_digit_def hex_digits_def)
  moreover have "c = CHR ''#''" "list_all is_hex_digit s" using assms Cons by (simp_all add: normal_hex_def)
  ultimately show ?thesis by (auto simp: Cons plain_def list_all_iff)
qed

lemma Split_join: "xs \<noteq> [] \<Longrightarrow> list_all plain xs \<Longrightarrow> Split (join_text cursorSep xs) (CHR ''|'') = xs"
proof (induction cursorSep xs rule: join_text.induct)
  case (2 x)
  then show ?case by (simp add: Split_no_sep plain_def)
next
  case (3 x v va)
  then show ?case by (simp add: Split_append plain_def cursorSep_def)
qed simp

lemma decodeCursor_encodeCursor:
  assumes "srt \<in> {SortByCreatedAt, SortByHex, SortByColor}" "order \<in> {OrderAsc, OrderDesc}"
    and "normal_hex (color_Hex x)" "printable (color_CreatedAt x)"
    and "sv_ParseHex sv hexCfg (color_Hex x) = Inr (color_Hex x)"
  shows "decodeCursor sv (encodeCursor srt order x) srt' order' =
    (if (srt', order') = (srt, order)
     then Inr \<lparr>cur_CreatedAt = (if srt = SortByCreatedAt then color_CreatedAt x else zeroTime), cur_Hex = color_Hex x\<rparr>
     else badCursor ''cursor was created for another sort'')"
proof -
  have pl: "plain srt" "plain order" using assms(1,2) names_plain by auto
  have "Split (join_text cursorSep ([srt, order] @ cursorKey srt x)) (CHR ''|'') = [srt, order] @ cursorKey srt x"
    using pl normal_hex_plain[OF assms(3)] Format_plain by (intro Split_join) (auto simp: cursorKey_def)
  then have d: "case DecodeString (encodeCursor srt order x) of None \<Rightarrow> False
      | Some raw \<Rightarrow> Split raw (CHR ''|'') = [srt, order] @ cursorKey srt x"
    by (simp add: encodeCursor_def DecodeString_EncodeToString)
  then obtain raw where raw: "DecodeString (encodeCursor srt order x) = Some raw"
    "Split raw (CHR ''|'') = [srt, order] @ cursorKey srt x" by (auto split: option.splits)
  have h: "NewHexSV sv (color_Hex x) = Inr (color_Hex x)" using assms(5) by (simp add: NewHexSV_def NewHex_def)
  have k: "length (cursorKey srt x) > 0" using assms(1) by (auto simp: cursorKey_def)
  show ?thesis
    using assms(1) raw h k ParseTime_Format[OF assms(4)]
    by (auto simp: decodeCursor_def cursorHeaderParts_def cursorKey_def Let_def)
qed

text \<open>
  C16. A cursor leads back to the colour it was made from.  Decoded under the sort and order it was
  made for, it names the colour's hex and, for the order by date, its very instant (for dates the
  format can print, years 0 to 9999); decoded under another sort or order it is refused.
\<close>

theorem cursor_roundtrip:
  assumes "srt \<in> {SortByCreatedAt, SortByHex, SortByColor}" "order \<in> {OrderAsc, OrderDesc}"
    and "normal_hex (color_Hex x)" "printable (color_CreatedAt x)"
    and "sv_ParseHex sv hexCfg (color_Hex x) = Inr (color_Hex x)"
  shows "decodeCursor sv (encodeCursor srt order x) srt order = Inr \<lparr>
      cur_CreatedAt = (if srt = SortByCreatedAt then color_CreatedAt x else zeroTime), cur_Hex = color_Hex x\<rparr>
    \<and> (\<forall>srt' order'. (srt', order') = (srt, order) \<or>
        decodeCursor sv (encodeCursor srt order x) srt' order' = badCursor ''cursor was created for another sort'')"
  by (simp add: decodeCursor_encodeCursor[OF assms])

theorem cursor_roundtrip_witness:
  "decodeCursor sample_strvalid (encodeCursor SortByCreatedAt OrderDesc
      \<lparr>color_Hex = ''#00ff7f'', color_CreatedAt = Time 1700000000123456000 120\<rparr>) SortByCreatedAt OrderDesc
   = Inr \<lparr>cur_CreatedAt = Time 1700000000123456000 120, cur_Hex = ''#00ff7f''\<rparr>"
proof -
  let ?x = "\<lparr>color_Hex = ''#00ff7f'', color_CreatedAt = Time 1700000000123456000 120\<rparr>"
  have "normal_hex (color_Hex ?x)" by (simp add: normal_hex_def HexLen_def is_hex_digit_def hex_digits_def)
  moreover have "printable (color_CreatedAt ?x)"
    by (simp add: printable_def yearOf_def yearDays_def epochDays_def)
  ultimately show ?thesis
    using cursor_roundtrip[of SortByCreatedAt OrderDesc ?x sample_strvalid] by (simp add: sample_strvalid_def)
qed

text \<open>
  Whatever a client sends as a cursor, the answer is a cursor or an error that is
  \<^verbatim>\<open>errInvalidCursor\<close>; a cursor's hex is one that \<^verbatim>\<open>NewHex\<close> accepted.
\<close>

lemma decodeCursor_total:
  "case decodeCursor sv token srt order of
     Inl err \<Rightarrow> errors_is err ErrInvalidCursor
   | Inr c \<Rightarrow> (\<exists>s. NewHexSV sv s = Inr (cur_Hex c)) \<and> srt \<in> {SortByCreatedAt, SortByHex, SortByColor}"
  by (auto simp: decodeCursor_def badCursor_def Let_def split: option.splits sum.splits)

end
