(* ===== verification/Gamut.thy ===== *)
theory Gamut
  imports Color_Space
begin

text \<open>
  \<^verbatim>\<open>internal/color/gamut.go\<close>: bringing an OkLCh colour back inside sRGB.  \<^verbatim>\<open>maxChromaAt\<close> is a
  bisection of 20 halvings for the most chroma a lightness and hue hold; \<^verbatim>\<open>fitToSRGB\<close> scans a grid
  of 129 lightnesses and walks to the gamut's edge by a second bisection.  Both loops have a fixed
  count and are recursions on it.
\<close>

section \<open>Model\<close>

definition gamutSteps :: nat where "gamutSteps = 20"
definition lightnessSamples :: nat where "lightnessSamples = 128"
definition chromaCeiling :: real where "chromaCeiling = 1 / 2"

definition in_gamut :: "fenv \<Rightarrow> real \<Rightarrow> real \<Rightarrow> real \<Rightarrow> bool" where
  "in_gamut m lightness a b = (case oklabToLinear m lightness a b of (_, _, _, ok) \<Rightarrow> ok)"

fun chromaSearch :: "fenv \<Rightarrow> nat \<Rightarrow> real \<Rightarrow> real \<Rightarrow> real \<Rightarrow> real \<Rightarrow> real \<Rightarrow> real" where
  "chromaSearch m 0 lightness cs sn low high = low"
| "chromaSearch m (Suc n) lightness cs sn low high =
     (let mid = fdiv m (fadd m low high) 2 in
      if in_gamut m lightness (fmul m mid cs) (fmul m mid sn)
      then chromaSearch m n lightness cs sn mid high
      else chromaSearch m n lightness cs sn low mid)"

definition maxChromaAt :: "fenv \<Rightarrow> real \<Rightarrow> real \<Rightarrow> real \<Rightarrow> real" where
  "maxChromaAt m lightness cs sn = chromaSearch m gamutSteps lightness cs sn 0 chromaCeiling"

definition colorAt :: "fenv \<Rightarrow> real \<Rightarrow> real \<Rightarrow> real \<Rightarrow> real \<Rightarrow> hex" where
  "colorAt m lightness chroma cs sn =
     (case oklabToLinear m lightness (fmul m chroma cs) (fmul m chroma sn) of
        (red, green, blue, _) \<Rightarrow> linearToHex m red green blue)"

text \<open>What the grid scan keeps between samples.\<close>

record grid =
  g_nearest :: real
  g_fits :: bool
  g_peak :: real
  g_peakChroma :: real

definition gridStep :: "fenv \<Rightarrow> real \<Rightarrow> real \<Rightarrow> real \<Rightarrow> real \<Rightarrow> nat \<Rightarrow> grid \<Rightarrow> grid" where
  "gridStep m lightness chroma cs sn i g =
     (let l = fdiv m (of_nat i) (of_nat lightnessSamples);
          held = maxChromaAt m l cs sn;
          g = (if held > g_peakChroma g then g\<lparr>g_peak := l, g_peakChroma := held\<rparr> else g)
      in if held \<ge> chroma \<and> (\<not> g_fits g \<or>
            \<bar>fsub m l lightness\<bar> < \<bar>fsub m (g_nearest g) lightness\<bar>)
         then g\<lparr>g_nearest := l, g_fits := True\<rparr> else g)"

definition gridScan :: "fenv \<Rightarrow> real \<Rightarrow> real \<Rightarrow> real \<Rightarrow> real \<Rightarrow> nat list \<Rightarrow> grid" where
  "gridScan m lightness chroma cs sn is =
     fold (gridStep m lightness chroma cs sn) is
       \<lparr>g_nearest = 0, g_fits = False, g_peak = 0, g_peakChroma = - 1\<rparr>"

fun edgeSearch :: "fenv \<Rightarrow> nat \<Rightarrow> real \<Rightarrow> real \<Rightarrow> real \<Rightarrow> real \<Rightarrow> real \<Rightarrow> real" where
  "edgeSearch m 0 chroma cs sn low high = low"
| "edgeSearch m (Suc n) chroma cs sn low high =
     (let mid = fdiv m (fadd m low high) 2 in
      if maxChromaAt m mid cs sn \<ge> chroma
      then edgeSearch m n chroma cs sn mid high
      else edgeSearch m n chroma cs sn low mid)"

definition fitToSRGB :: "fenv \<Rightarrow> real \<Rightarrow> real \<Rightarrow> real \<Rightarrow> hex" where
  "fitToSRGB m lightness chroma hue =
     (let cs = f_cos m hue; sn = f_sin m hue in
      case oklabToLinear m lightness (fmul m chroma cs) (fmul m chroma sn) of
        (red, green, blue, ok) \<Rightarrow>
          if ok then linearToHex m red green blue
          else let g = gridScan m lightness chroma cs sn [0..<lightnessSamples + 1] in
               if \<not> g_fits g then colorAt m (g_peak g) (g_peakChroma g) cs sn
               else colorAt m (edgeSearch m gamutSteps chroma cs sn (g_nearest g) lightness) chroma cs sn)"

end
