(* ===== verification/Harmony.thy ===== *)
theory Harmony
  imports Gamut Sort_Key Go_Errors
begin

text \<open>
  \<^verbatim>\<open>internal/color/derive.go\<close> and \<^verbatim>\<open>internal/color/color.go\<close>: turning the hue on either wheel, the
  ramp and tone scales, and the table of harmonies with its lookups.
\<close>

section \<open>Deriving one colour from another\<close>

type_synonym space = string

definition SpaceOkLab :: space where "SpaceOkLab = ''oklab''"
definition SpaceHSL :: space where "SpaceHSL = ''hsl''"
definition DefSpace :: space where "DefSpace = SpaceHSL"

definition rampSteps :: nat where "rampSteps = 7"
definition rampDarkest :: real where "rampDarkest = 0.3"
definition rampLightest :: real where "rampLightest = 0.9"
definition rampLightStep :: real where
  "rampLightStep = (rampLightest - rampDarkest) / (of_nat rampSteps - 1)"
definition toneSteps :: nat where "toneSteps = rampSteps"

definition rotateOkLCh :: "fenv \<Rightarrow> hex \<Rightarrow> real \<Rightarrow> hex" where
  "rotateOkLCh m h deg =
     (if length h \<noteq> HexLen then h
      else case hexToOklab m h of (lightness, a, b) \<Rightarrow>
        let chroma = f_hypot m a b in
        if chroma < neutralChroma m then h
        else let hue = fadd m (f_atan2 m b a) (fdiv m (fmul m deg (lit m pi)) 180)
             in fitToSRGB m lightness chroma hue)"

definition rotateHSL :: "fenv \<Rightarrow> hex \<Rightarrow> real \<Rightarrow> hex" where
  "rotateHSL m h deg =
     (if length h \<noteq> HexLen then h
      else case hexToOklab m h of (_, a, b) \<Rightarrow>
        if f_hypot m a b < neutralChroma m then h
        else case hexToHSL m h of (hue, saturation, lightness) \<Rightarrow>
          hslToHex m (fadd m hue deg) saturation lightness)"

definition rotate :: "fenv \<Rightarrow> space \<Rightarrow> hex \<Rightarrow> real \<Rightarrow> hex" where
  "rotate m space h deg =
     (if space = SpaceHSL then rotateHSL m h deg else rotateOkLCh m h deg)"

definition unitHue :: "fenv \<Rightarrow> real \<Rightarrow> real \<Rightarrow> real \<times> real" where
  "unitHue m a b = (let hue = f_atan2 m b a in (f_cos m hue, f_sin m hue))"

definition ramp :: "fenv \<Rightarrow> hex \<Rightarrow> hex list" where
  "ramp m h =
     (if length h \<noteq> HexLen then map (\<lambda>_. h) [0..<rampSteps]
      else case hexToOklab m h of (_, a, b) \<Rightarrow>
        let chroma = f_hypot m a b in
        case unitHue m a b of (cs, sn) \<Rightarrow>
          map (\<lambda>i. let lightness = fadd m (lit m rampDarkest) (fmul m (lit m rampLightStep) (of_nat i))
                   in colorAt m lightness (min chroma (maxChromaAt m lightness cs sn)) cs sn)
            [0..<rampSteps])"

definition tones :: "fenv \<Rightarrow> hex \<Rightarrow> hex list" where
  "tones m h =
     (case (if length h = HexLen then hexToOklab m h else (0, 0, 0)) of (lightness, a, b) \<Rightarrow>
        if f_hypot m a b < neutralChroma m then map (\<lambda>_. h) [0..<toneSteps]
        else case unitHue m a b of (cs, sn) \<Rightarrow>
          let step = fdiv m (maxChromaAt m lightness cs sn) (of_nat toneSteps - 1) in
          map (\<lambda>i. colorAt m lightness (fmul m step (of_nat i)) cs sn) [0..<toneSteps])"

section \<open>The table of harmonies\<close>

type_synonym harmony = string

definition Complement :: harmony where "Complement = ''complement''"
definition SplitComplement :: harmony where "SplitComplement = ''split-complement''"
definition Triad :: harmony where "Triad = ''triad''"
definition Analogous :: harmony where "Analogous = ''analogous''"
definition Square :: harmony where "Square = ''square''"
definition Ramp :: harmony where "Ramp = ''ramp''"
definition Tones :: harmony where "Tones = ''tones''"

definition complementDeg :: real where "complementDeg = 180"
definition splitComplementDeg :: real where "splitComplementDeg = 150"
definition triadDeg :: real where "triadDeg = 120"
definition analogousDeg :: real where "analogousDeg = 30"
definition squareDeg :: real where "squareDeg = 90"

text \<open>A row is a name with its rotations, or with the sweep that replaces them.\<close>

record harmony_row =
  hr_name :: harmony
  hr_degs :: "real list"
  hr_of :: "(hex \<Rightarrow> hex list) option"

definition harmonies :: "fenv \<Rightarrow> harmony_row list" where
  "harmonies m =
    [\<lparr>hr_name = Complement, hr_degs = [complementDeg], hr_of = None\<rparr>,
     \<lparr>hr_name = SplitComplement, hr_degs = [splitComplementDeg, 360 - splitComplementDeg], hr_of = None\<rparr>,
     \<lparr>hr_name = Triad, hr_degs = [triadDeg, 2 * triadDeg], hr_of = None\<rparr>,
     \<lparr>hr_name = Analogous, hr_degs = [- analogousDeg, analogousDeg], hr_of = None\<rparr>,
     \<lparr>hr_name = Square, hr_degs = [squareDeg, 2 * squareDeg, 3 * squareDeg], hr_of = None\<rparr>,
     \<lparr>hr_name = Ramp, hr_degs = [], hr_of = Some (ramp m)\<rparr>,
     \<lparr>hr_name = Tones, hr_degs = [], hr_of = Some (tones m)\<rparr>]"

definition rotations :: "fenv \<Rightarrow> space \<Rightarrow> hex \<Rightarrow> real list \<Rightarrow> hex list" where
  "rotations m space h degs = map (\<lambda>deg. rotate m space h deg) degs"

text \<open>The loop of \<^verbatim>\<open>Harmony.Colors\<close>; an unknown harmony is a nil slice.\<close>

fun colorsLoop :: "fenv \<Rightarrow> harmony_row list \<Rightarrow> harmony \<Rightarrow> space \<Rightarrow> hex \<Rightarrow> hex list" where
  "colorsLoop m [] harmony space hex = []"
| "colorsLoop m (h # hs) harmony space hex =
     (if hr_name h \<noteq> harmony then colorsLoop m hs harmony space hex
      else case hr_of h of Some f \<Rightarrow> f hex | None \<Rightarrow> rotations m space hex (hr_degs h))"

definition Colors :: "fenv \<Rightarrow> harmony \<Rightarrow> space \<Rightarrow> hex \<Rightarrow> hex list" where
  "Colors m harmony space hex = colorsLoop m (harmonies m) harmony space hex"

definition HarmonyNames :: "fenv \<Rightarrow> harmony list" where
  "HarmonyNames m = map hr_name (harmonies m)"

fun harmonyLoop :: "harmony_row list \<Rightarrow> string \<Rightarrow> (go_error, harmony) result" where
  "harmonyLoop [] s = Inl (Errorf s [Sentinel ErrUnknownHarmony])"
| "harmonyLoop (h # hs) s = (if hr_name h = s then Inr s else harmonyLoop hs s)"

definition ParseHarmony :: "fenv \<Rightarrow> string \<Rightarrow> (go_error, harmony) result" where
  "ParseHarmony m s = harmonyLoop (harmonies m) s"

definition ParseSpace :: "string \<Rightarrow> (go_error, space) result" where
  "ParseSpace s =
     (if s = SpaceOkLab \<or> s = SpaceHSL then Inr s else Inl (Errorf s [Sentinel ErrUnknownSpace]))"

end
