(* ===== verification/Palette.thy ===== *)
theory Palette
  imports Harmony "HOL-Library.Product_Lexorder"
begin

text \<open>
  \<^verbatim>\<open>internal/palette\<close>: the CSS named colours with their pre-computed keys, the three pre-built
  orderings and the listing; and \<^verbatim>\<open>internal/shades\<close>: the Open Color families.  \<^verbatim>\<open>slices.SortFunc\<close> of
  the standard library is an insertion sort here; the orderings compare no two entries as equal, so
  every correct sort gives the same list.
\<close>

section \<open>The table\<close>

datatype entry = Entry (entry_Hex: hex) (entry_Name: string) (entry_Feel: int)

definition entries :: "entry list" where
  "entries =
   [Entry ''#000000'' ''black'' 0, Entry ''#ffffff'' ''white'' 1000000,
    Entry ''#ff0000'' ''red'' 10628258, Entry ''#00ff00'' ''lime'' 50866295,
    Entry ''#0000ff'' ''blue'' 90452313, Entry ''#ffff00'' ''yellow'' 30968211,
    Entry ''#00ffff'' ''cyan'' 60905155, Entry ''#ff00ff'' ''magenta'' 110702322,
    Entry ''#c0c0c0'' ''silver'' 808000, Entry ''#808080'' ''gray'' 600000,
    Entry ''#800000'' ''maroon'' 10377155, Entry ''#808000'' ''olive'' 30581127,
    Entry ''#008000'' ''green'' 50520177, Entry ''#800080'' ''purple'' 110421193,
    Entry ''#008080'' ''teal'' 60543093, Entry ''#000080'' ''navy'' 90271188,
    Entry ''#696969'' ''dimgray'' 521000, Entry ''#d3d3d3'' ''lightgray'' 867000,
    Entry ''#a9a9a9'' ''darkgray'' 735000, Entry ''#dcdcdc'' ''gainsboro'' 894000,
    Entry ''#dc143c'' ''crimson'' 10571222, Entry ''#b22222'' ''firebrick'' 10497180,
    Entry ''#8b0000'' ''darkred'' 10400164, Entry ''#cd5c5c'' ''indianred'' 10615144,
    Entry ''#f08080'' ''lightcoral'' 10725138, Entry ''#fa8072'' ''salmon'' 10735152,
    Entry ''#e9967a'' ''darksalmon'' 10751108, Entry ''#ffa07a'' ''lightsalmon'' 10794125,
    Entry ''#ffc0cb'' ''pink'' 120868074, Entry ''#ffb6c1'' ''lightpink'' 120847086,
    Entry ''#ff69b4'' ''hotpink'' 120728197, Entry ''#ff1493'' ''deeppink'' 120655261,
    Entry ''#db7093'' ''palevioletred'' 120678138, Entry ''#c71585'' ''mediumvioletred'' 110553222,
    Entry ''#ff7f50'' ''coral'' 10735168, Entry ''#ff6347'' ''tomato'' 10696196,
    Entry ''#ff4500'' ''orangered'' 10660229, Entry ''#ff8c00'' ''darkorange'' 20751179,
    Entry ''#ffa500'' ''orange'' 20793171, Entry ''#ffd700'' ''gold'' 30887182,
    Entry ''#f0e68c'' ''khaki'' 30913112, Entry ''#bdb76b'' ''darkkhaki'' 30767098,
    Entry ''#daa520'' ''goldenrod'' 30752147, Entry ''#b8860b'' ''darkgoldenrod'' 30652132,
    Entry ''#eee8aa'' ''palegoldenrod'' 30921080, Entry ''#ffffe0'' ''lightyellow'' 30992040,
    Entry ''#fffacd'' ''lemonchiffon'' 30978058, Entry ''#fff8dc'' ''cornsilk'' 30977037,
    Entry ''#f5deb3'' ''wheat'' 30909061, Entry ''#d2b48c'' ''tan'' 20786064,
    Entry ''#deb887'' ''burlywood'' 20805078, Entry ''#f4a460'' ''sandybrown'' 20784127,
    Entry ''#cd853f'' ''peru'' 20678123, Entry ''#d2691e'' ''chocolate'' 20634155,
    Entry ''#8b4513'' ''saddlebrown'' 20471112, Entry ''#a0522d'' ''sienna'' 10526115,
    Entry ''#a52a2a'' ''brown'' 10481160, Entry ''#bc8f8f'' ''rosybrown'' 120693055,
    Entry ''#f5f5dc'' ''beige'' 30964033, Entry ''#ffe4c4'' ''bisque'' 20933051,
    Entry ''#adff2f'' ''greenyellow'' 40913233, Entry ''#7fff00'' ''chartreuse'' 40890265,
    Entry ''#7cfc00'' ''lawngreen'' 40882263, Entry ''#32cd32'' ''limegreen'' 50742229,
    Entry ''#228b22'' ''forestgreen'' 50558169, Entry ''#006400'' ''darkgreen'' 50436148,
    Entry ''#9acd32'' ''yellowgreen'' 40785184, Entry ''#6b8e23'' ''olivedrab'' 40599137,
    Entry ''#556b2f'' ''darkolivegreen'' 40496090, Entry ''#98fb98'' ''palegreen'' 50904162,
    Entry ''#90ee90'' ''lightgreen'' 50868156, Entry ''#00ff7f'' ''springgreen'' 50875235,
    Entry ''#00fa9a'' ''mediumspringgreen'' 50867207, Entry ''#2e8b57'' ''seagreen'' 50569119,
    Entry ''#3cb371'' ''mediumseagreen'' 50684144, Entry ''#8fbc8f'' ''darkseagreen'' 50751080,
    Entry ''#7fffd4'' ''aquamarine'' 50915130, Entry ''#66cdaa'' ''mediumaquamarine'' 50777110,
    Entry ''#40e0d0'' ''turquoise'' 60822131, Entry ''#48d1cc'' ''mediumturquoise'' 60787116,
    Entry ''#00ced1'' ''darkturquoise'' 60772131, Entry ''#e0ffff'' ''lightcyan'' 60978032,
    Entry ''#afeeee'' ''paleturquoise'' 60907063, Entry ''#008b8b'' ''darkcyan'' 60577098,
    Entry ''#5f9ea0'' ''cadetblue'' 60658065, Entry ''#4682b4'' ''steelblue'' 80588099,
    Entry ''#b0c4de'' ''lightsteelblue'' 80814043, Entry ''#b0e0e6'' ''powderblue'' 70875050,
    Entry ''#add8e6'' ''lightblue'' 70856049, Entry ''#87ceeb'' ''skyblue'' 70815082,
    Entry ''#00bfff'' ''deepskyblue'' 80755153, Entry ''#1e90ff'' ''dodgerblue'' 80652190,
    Entry ''#6495ed'' ''cornflowerblue'' 90675141, Entry ''#4169e1'' ''royalblue'' 90560188,
    Entry ''#0000cd'' ''mediumblue'' 90383266, Entry ''#00008b'' ''darkblue'' 90288199,
    Entry ''#191970'' ''midnightblue'' 90288144, Entry ''#6a5acd'' ''slateblue'' 90544171,
    Entry ''#8a2be2'' ''blueviolet'' 100534250, Entry ''#4b0082'' ''indigo'' 100339179]"

record common =
  common_Hex :: hex
  common_Name :: string

section \<open>Sorting\<close>

text \<open>\<^verbatim>\<open>strings.Compare\<close>.\<close>

definition Compare :: "string \<Rightarrow> string \<Rightarrow> int" where
  "Compare a b = (if a = b then 0 else if a < b then - 1 else 1)"

fun insert_by :: "('a \<Rightarrow> 'a \<Rightarrow> int) \<Rightarrow> 'a \<Rightarrow> 'a list \<Rightarrow> 'a list" where
  "insert_by cmp x [] = [x]"
| "insert_by cmp x (y # ys) = (if cmp x y \<le> 0 then x # y # ys else y # insert_by cmp x ys)"

definition SortFunc :: "'a list \<Rightarrow> ('a \<Rightarrow> 'a \<Rightarrow> int) \<Rightarrow> 'a list" where
  "SortFunc xs cmp = foldr (insert_by cmp) xs []"

definition sorted_entries :: "(entry \<Rightarrow> entry \<Rightarrow> int) \<Rightarrow> common list" where
  "sorted_entries cmp = map (\<lambda>e. \<lparr>common_Hex = entry_Hex e, common_Name = entry_Name e\<rparr>) (SortFunc entries cmp)"

definition cmpName :: "entry \<Rightarrow> entry \<Rightarrow> int" where
  "cmpName a b = Compare (entry_Name a) (entry_Name b)"

definition cmpHex :: "entry \<Rightarrow> entry \<Rightarrow> int" where
  "cmpHex a b = Compare (entry_Hex a) (entry_Hex b)"

definition cmpFeel :: "entry \<Rightarrow> entry \<Rightarrow> int" where
  "cmpFeel a b =
     (let c = entry_Feel a - entry_Feel b in if c \<noteq> 0 then c else Compare (entry_Hex a) (entry_Hex b))"

definition byName :: "common list" where "byName = sorted_entries cmpName"
definition byHex :: "common list" where "byHex = sorted_entries cmpHex"
definition byFeel :: "common list" where "byFeel = sorted_entries cmpFeel"

section \<open>Listing\<close>

type_synonym palette_sort = string

definition SortByName :: palette_sort where "SortByName = ''name''"
definition palette_SortByHex :: palette_sort where "palette_SortByHex = ''hex''"
definition SortByFeel :: palette_sort where "SortByFeel = ''color''"

definition ParseSort :: "string \<Rightarrow> (go_error, palette_sort) result" where
  "ParseSort s =
     (if s = SortByName \<or> s = palette_SortByHex \<or> s = SortByFeel then Inr s
      else Inl (Errorf s [Sentinel ErrInvalidPaletteSort]))"

record sort_params =
  sp_Sort :: palette_sort
  sp_Desc :: bool

definition List :: "sort_params \<Rightarrow> (go_error, common list) result" where
  "List p =
     (case (if sp_Sort p = [] \<or> sp_Sort p = SortByName then Some byName
            else if sp_Sort p = palette_SortByHex then Some byHex
            else if sp_Sort p = SortByFeel then Some byFeel
            else None) of
        None \<Rightarrow> Inl (Errorf (sp_Sort p) [Sentinel ErrInvalidPaletteSort])
      | Some src \<Rightarrow> Inr (if sp_Desc p then rev src else src))"

section \<open>Lemmas on the sort\<close>

text \<open>A comparison that orders by a key: its sign is the key's order.\<close>

definition compares_by :: "('a \<Rightarrow> 'k::linorder) \<Rightarrow> ('a \<Rightarrow> 'a \<Rightarrow> int) \<Rightarrow> bool" where
  "compares_by key cmp \<longleftrightarrow> (\<forall>a b. cmp a b \<le> 0 \<longleftrightarrow> key a \<le> key b)"

lemma insert_by_insort: "compares_by key cmp \<Longrightarrow> insert_by cmp x ys = insort_key key x ys"
  by (induction ys) (auto simp: compares_by_def)

lemma SortFunc_sort_key: "compares_by key cmp \<Longrightarrow> SortFunc xs cmp = sort_key key xs"
  by (induction xs) (simp_all add: SortFunc_def insert_by_insort)

lemma Compare_le: "Compare a b \<le> 0 \<longleftrightarrow> a \<le> b"
  by (auto simp: Compare_def)

lemma compares:
  "compares_by entry_Name cmpName" "compares_by entry_Hex cmpHex"
  "compares_by (\<lambda>e. (entry_Feel e, entry_Hex e)) cmpFeel"
  by (auto simp: compares_by_def cmpName_def cmpHex_def cmpFeel_def Compare_le Let_def less_eq_prod_def less_le)

lemma entries_distinct: "distinct (map entry_Name entries)" "distinct (map entry_Hex entries)"
  by code_simp+

lemma entries_normal: "list_all (\<lambda>e. normal_hex (entry_Hex e)) entries"
  by code_simp

definition common_of :: "entry \<Rightarrow> common" where
  "common_of e = \<lparr>common_Hex = entry_Hex e, common_Name = entry_Name e\<rparr>"

definition before :: "palette_sort \<Rightarrow> entry \<Rightarrow> entry \<Rightarrow> bool" where
  "before s a b \<longleftrightarrow>
     (if s = palette_SortByHex then entry_Hex a < entry_Hex b
      else if s = SortByFeel then entry_Feel a < entry_Feel b \<or> entry_Feel a = entry_Feel b \<and> entry_Hex a < entry_Hex b
      else entry_Name a < entry_Name b)"

lemma sorted_wrt_sort_key_lt:
  assumes "distinct (map f xs)"
  shows "sorted_wrt (\<lambda>x y. f x < f y) (sort_key f xs)"
proof -
  have "sorted (map f (sort_key f xs))" by simp
  moreover have "distinct (map f (sort_key f xs))" using assms by (simp add: distinct_map)
  ultimately have "sorted_wrt (<) (map f (sort_key f xs))" by (simp add: strict_sorted_iff)
  then show ?thesis by (simp add: sorted_wrt_map)
qed

lemma palette_orders:
  assumes "compares_by key cmp" "distinct (map key entries)" "\<And>a b. key a < key b \<longleftrightarrow> before s a b"
  shows "\<exists>es. sorted_entries cmp = map common_of es \<and> mset es = mset entries \<and> sorted_wrt (before s) es"
proof (intro exI conjI)
  show "sorted_entries cmp = map common_of (sort_key key entries)"
    using SortFunc_sort_key[OF assms(1)] by (simp add: sorted_entries_def common_of_def)
  show "sorted_wrt (before s) (sort_key key entries)"
    using sorted_wrt_sort_key_lt[OF assms(2)] assms(3) by simp
qed simp

lemma sort_names [simp]:
  "SortByName \<noteq> []" "palette_SortByHex \<noteq> []" "SortByFeel \<noteq> []" "SortByName \<noteq> palette_SortByHex"
  "palette_SortByHex \<noteq> SortByName" "SortByFeel \<noteq> palette_SortByHex" "palette_SortByHex \<noteq> SortByFeel"
  "SortByName \<noteq> SortByFeel" "SortByFeel \<noteq> SortByName"
  by (simp_all add: SortByName_def palette_SortByHex_def SortByFeel_def)

lemma stored_orders:
  "\<exists>es. byName = map common_of es \<and> mset es = mset entries \<and> sorted_wrt (before SortByName) es"
  "\<exists>es. byHex = map common_of es \<and> mset es = mset entries \<and> sorted_wrt (before palette_SortByHex) es"
  "\<exists>es. byFeel = map common_of es \<and> mset es = mset entries \<and> sorted_wrt (before SortByFeel) es"
proof -
  show "\<exists>es. byName = map common_of es \<and> mset es = mset entries \<and> sorted_wrt (before SortByName) es"
    unfolding byName_def by (rule palette_orders[OF compares(1)]) (simp_all add: entries_distinct before_def)
  show "\<exists>es. byHex = map common_of es \<and> mset es = mset entries \<and> sorted_wrt (before palette_SortByHex) es"
    unfolding byHex_def by (rule palette_orders[OF compares(2)]) (simp_all add: entries_distinct before_def)
  have "distinct (map (\<lambda>e. (entry_Feel e, entry_Hex e)) entries)"
    using entries_distinct(2) by (auto simp: distinct_map inj_on_def)
  then show "\<exists>es. byFeel = map common_of es \<and> mset es = mset entries \<and> sorted_wrt (before SortByFeel) es"
    unfolding byFeel_def
    by (rule palette_orders[OF compares(3)]) (auto simp: before_def less_prod_def less_le)
qed

text \<open>
  C15. The palette listing.  Each sort that \<^verbatim>\<open>ParseSort\<close> accepts, and the empty one, answers the
  whole table strictly ordered by its column (the perceptual order tied by hex), descending as the
  reverse; any other sort is an error.
\<close>

theorem List_ordered:
  "case List p of
     Inl err \<Rightarrow> errors_is err ErrInvalidPaletteSort \<and> sp_Sort p \<noteq> [] \<and> (\<forall>t. ParseSort (sp_Sort p) \<noteq> Inr t)
   | Inr out \<Rightarrow> (sp_Sort p = [] \<or> ParseSort (sp_Sort p) = Inr (sp_Sort p)) \<and>
       (\<exists>es. mset es = mset entries \<and> sorted_wrt (before (sp_Sort p)) es \<and>
          out = (if sp_Desc p then rev (map common_of es) else map common_of es))"
proof -
  have nm: "before [] = before SortByName" by (intro ext) (simp add: before_def sort_names[symmetric])
  show ?thesis
    using stored_orders nm by (auto simp: List_def ParseSort_def split: if_splits)
qed

end
