(* ===== verification/Color_Info.thy ===== *)
theory Color_Info
  imports Color_Space
begin

text \<open>
  \<^verbatim>\<open>internal/color/contrast.go\<close> and \<^verbatim>\<open>internal/color/info.go\<close>: the WCAG contrast of a colour
  against white and black, and everything \<^verbatim>\<open>Describe\<close> derives from one hex code.
\<close>

section \<open>Contrast\<close>

type_synonym level = string

definition LevelAAA :: level where "LevelAAA = ''aaa''"
definition LevelAA :: level where "LevelAA = ''aa''"
definition LevelAALarge :: level where "LevelAALarge = ''aa-large''"
definition LevelFail :: level where "LevelFail = ''fail''"

definition ratioAAA :: real where "ratioAAA = 7"
definition ratioAA :: real where "ratioAA = 4.5"
definition ratioAALarge :: real where "ratioAALarge = 3"

record contrast =
  Ratio :: real
  Level :: level

definition contrastRatioDecimals :: nat where "contrastRatioDecimals = 2"

definition relativeLuminance :: "fenv \<Rightarrow> hex \<Rightarrow> real" where
  "relativeLuminance m h = wsum m 0.2126 (srgbToLinear m (RNorm m h))
     0.7152 (srgbToLinear m (GNorm m h)) 0.0722 (srgbToLinear m (BNorm m h))"

definition contrastRatio :: "fenv \<Rightarrow> real \<Rightarrow> real \<Rightarrow> real" where
  "contrastRatio m a b = fdiv m (fadd m (max a b) (lit m 0.05)) (fadd m (min a b) (lit m 0.05))"

definition levelOf :: "real \<Rightarrow> level" where
  "levelOf ratio = (if ratio \<ge> ratioAAA then LevelAAA else if ratio \<ge> ratioAA then LevelAA
     else if ratio \<ge> ratioAALarge then LevelAALarge else LevelFail)"

definition contrastOf :: "fenv \<Rightarrow> real \<Rightarrow> contrast" where
  "contrastOf m ratio =
     (let scale = f_pow m 10 (of_nat contrastRatioDecimals);
          trancated = fdiv m (of_int (go_trunc (fmul m ratio scale))) scale
      in \<lparr>Ratio = trancated, Level = levelOf trancated\<rparr>)"

definition whiteLuminance :: real where "whiteLuminance = 1"
definition blackLuminance :: real where "blackLuminance = 0"

definition contrastsOfBW :: "fenv \<Rightarrow> hex \<Rightarrow> contrast \<times> contrast" where
  "contrastsOfBW m h =
     (let luminance = relativeLuminance m h
      in (contrastOf m (contrastRatio m luminance whiteLuminance),
          contrastOf m (contrastRatio m luminance blackLuminance)))"

section \<open>Info\<close>

record rgb_info = rgb_R :: int  rgb_G :: int  rgb_B :: int
record hsl_info = hsl_Hue :: int  hsl_Saturation :: int  hsl_Lightness :: int
record hsv_info = hsv_Hue :: int  hsv_Saturation :: int  hsv_Value :: int
record oklch_info = ok_Lightness :: real  ok_Chroma :: real  ok_Hue :: int

record info =
  info_Hex :: hex
  info_RGB :: rgb_info
  info_HSL :: hsl_info
  info_HSV :: hsv_info
  info_OkLCh :: oklch_info
  AgainstWhite :: contrast
  AgainstBlack :: contrast

text \<open>\<^verbatim>\<open>Info{Hex: h}\<close>: Go's zero values in the other fields.\<close>

definition zeroInfo :: "hex \<Rightarrow> info" where
  "zeroInfo h = \<lparr>info_Hex = h, info_RGB = \<lparr>rgb_R = 0, rgb_G = 0, rgb_B = 0\<rparr>,
     info_HSL = \<lparr>hsl_Hue = 0, hsl_Saturation = 0, hsl_Lightness = 0\<rparr>,
     info_HSV = \<lparr>hsv_Hue = 0, hsv_Saturation = 0, hsv_Value = 0\<rparr>,
     info_OkLCh = \<lparr>ok_Lightness = 0, ok_Chroma = 0, ok_Hue = 0\<rparr>,
     AgainstWhite = \<lparr>Ratio = 0, Level = []\<rparr>, AgainstBlack = \<lparr>Ratio = 0, Level = []\<rparr>\<rparr>"

text \<open>Go's \<^verbatim>\<open>%\<close> has the sign of its left operand.\<close>

definition wholeDegrees :: "real \<Rightarrow> int" where
  "wholeDegrees v = sgn (go_round v) * (\<bar>go_round v\<bar> mod 360)"

definition wholePercent :: "fenv \<Rightarrow> real \<Rightarrow> int" where
  "wholePercent m v = go_round (fmul m v 100)"

definition roundTo :: "fenv \<Rightarrow> real \<Rightarrow> nat \<Rightarrow> real" where
  "roundTo m v decimals =
     (let scale = f_pow m 10 (of_nat decimals) in fdiv m (of_int (go_round (fmul m v scale))) scale)"

definition okLightnessDecimals :: nat where "okLightnessDecimals = 1"
definition okChromaDecimals :: nat where "okChromaDecimals = 3"

definition oklabHueDegrees :: "fenv \<Rightarrow> real \<Rightarrow> real \<Rightarrow> real" where
  "oklabHueDegrees m a b =
     (let deg = fdiv m (fmul m (f_atan2 m b a) 180) (lit m pi)
      in if deg < 0 then fadd m deg 360 else deg)"

definition Describe :: "fenv \<Rightarrow> hex \<Rightarrow> info" where
  "Describe m h =
     (if length h \<noteq> HexLen then zeroInfo h
      else case hexToHSL m h of (hslHue, hslSaturation, hslLightness) \<Rightarrow>
           case hexToHSV m h of (hsvHue, hsvSaturation, hsvValue) \<Rightarrow>
           case hexToOklab m h of (lightness, a, b) \<Rightarrow>
           let chroma = f_hypot m a b;
               oklabHue = (if neutralChroma m \<le> chroma then oklabHueDegrees m a b else 0)
           in case contrastsOfBW m h of (white, black) \<Rightarrow>
           \<lparr>info_Hex = h,
             info_RGB = \<lparr>rgb_R = RByte h, rgb_G = GByte h, rgb_B = BByte h\<rparr>,
             info_HSL = \<lparr>hsl_Hue = wholeDegrees hslHue, hsl_Saturation = wholePercent m hslSaturation,
               hsl_Lightness = wholePercent m hslLightness\<rparr>,
             info_HSV = \<lparr>hsv_Hue = wholeDegrees hsvHue, hsv_Saturation = wholePercent m hsvSaturation,
               hsv_Value = wholePercent m hsvValue\<rparr>,
             info_OkLCh = \<lparr>ok_Lightness = roundTo m (fmul m lightness 100) okLightnessDecimals,
               ok_Chroma = roundTo m chroma okChromaDecimals, ok_Hue = wholeDegrees oklabHue\<rparr>,
             AgainstWhite = white, AgainstBlack = black\<rparr>)"

end
