(* ===== verification/Http.thy ===== *)
theory Http
  imports Cursor Shades Color_Info
begin

text \<open>
  Requests, replies and the parts all handlers share: \<^verbatim>\<open>internal/handlers/handler.go\<close>, the token hash
  in the request's context (\<^verbatim>\<open>internal/auth/context.go\<close>), the version (\<^verbatim>\<open>internal/version\<close>).

  Package \<^verbatim>\<open>httputils\<close> is not in the repository.  What it reads from a request (a JSON body, an integer
  query parameter) is a field of \<^verbatim>\<open>http_lib\<close>; what a handler gives it to write (a status with a body or
  an error) is kept in the reply as it was given.
\<close>

section \<open>Requests\<close>

record create_user_req =
  cur_Nickname :: string
  cur_Password :: string

record create_token_req =
  ctr_Nickname :: string
  ctr_Password :: string

record create_collection_req =
  ccr_Name :: string
  ccr_Icon :: string
  ccr_Accent :: string

text \<open>A nil pointer, a field that was not sent, is \<^verbatim>\<open>None\<close>.\<close>

record update_collection_req =
  ucr_Name :: "string option"
  ucr_Icon :: "string option"
  ucr_Accent :: "string option"

record add_color_req =
  acr_Hex :: string

text \<open>
  What the handlers read: the method, the path as it was sent (percent-escaped, already cleaned), the
  wildcards of the route, the query (an absent parameter is the empty string, as \<^verbatim>\<open>Get\<close> answers),
  the headers, the body, the peer's address, and from the context the token hash that the auth
  wrapper puts there, the correlation id of the outermost middleware and the error the context ends
  with (the client hung up, the deadline passed).
\<close>

record request =
  rq_method :: string
  rq_path :: string
  rq_PathValue :: "string \<Rightarrow> string"
  rq_Query :: "string \<Rightarrow> string"
  rq_Header :: "string \<Rightarrow> string list"
  rq_body :: string
  rq_RemoteAddr :: string
  rq_token_hash :: "bytes option"
  rq_id :: "string option"
  rq_Err :: "string option"

text \<open>\<^verbatim>\<open>ReadJSON\<close> at each type it is used at, and \<^verbatim>\<open>ParseIntQuery(req, name, def, min, max)\<close>.\<close>

record http_lib =
  hl_ReadCreateUser :: "request \<Rightarrow> nat \<Rightarrow> (go_error, create_user_req) result"
  hl_ReadCreateToken :: "request \<Rightarrow> nat \<Rightarrow> (go_error, create_token_req) result"
  hl_ReadCreateCollection :: "request \<Rightarrow> nat \<Rightarrow> (go_error, create_collection_req) result"
  hl_ReadUpdateCollection :: "request \<Rightarrow> nat \<Rightarrow> (go_error, update_collection_req) result"
  hl_ReadAddColor :: "request \<Rightarrow> nat \<Rightarrow> (go_error, add_color_req) result"
  hl_ParseIntQuery :: "request \<Rightarrow> string \<Rightarrow> int \<Rightarrow> int \<Rightarrow> int \<Rightarrow> (go_error, int) result"

definition hexPathValue :: string where "hexPathValue = ''hex''"
definition harmonyPathValue :: string where "harmonyPathValue = ''harmony''"
definition collectionIDPathValue :: string where "collectionIDPathValue = ''id''"

definition limitQuery :: string where "limitQuery = ''limit''"
definition sortQuery :: string where "sortQuery = ''sort''"
definition orderQuery :: string where "orderQuery = ''order''"
definition cursorQuery :: string where "cursorQuery = ''cursor''"
definition spaceQuery :: string where "spaceQuery = ''space''"

definition staticCacheControl :: string where "staticCacheControl = ''public, max-age=600, immutable''"
definition maxRequestBodyBytes :: nat where "maxRequestBodyBytes = 65536"
definition redactedValue :: string where "redactedValue = ''[redacted]''"

text \<open>\<^verbatim>\<open>auth.ContextWithTokenHash\<close> and \<^verbatim>\<open>TokenHashFromContext\<close>.\<close>

definition ContextWithTokenHash :: "bytes \<Rightarrow> request \<Rightarrow> request" where
  "ContextWithTokenHash hash req = req\<lparr>rq_token_hash := Some hash\<rparr>"

definition TokenHashFromContext :: "request \<Rightarrow> bytes option" where
  "TokenHashFromContext req = rq_token_hash req"

section \<open>Replies\<close>

record user_resp =
  ur_Nickname :: string
  ur_CreatedAt :: gotime

record create_token_resp =
  ctr_Token :: string
  ctr_Expiry :: gotime

record collection_resp =
  cr_ID :: string
  cr_Name :: string
  cr_Icon :: string
  cr_Accent :: string
  cr_IsDefault :: bool
  cr_CreatedAt :: gotime

record saved_color_resp =
  scr_Hex :: string
  scr_CreatedAt :: gotime

text \<open>\<^verbatim>\<open>next_cursor\<close> is left out when it is empty.\<close>

record cursor_meta =
  cm_Limit :: int
  cm_NextCursor :: string

record list_colors_resp =
  lcr_Colors :: "saved_color_resp list"
  lcr_Metadata :: cursor_meta

record export_collection_resp =
  ecr_Collection :: collection_resp
  ecr_Colors :: "saved_color_resp list"

record export_resp =
  er_Format :: int
  er_ExportedAt :: gotime
  er_User :: user_resp
  er_Collections :: "export_collection_resp list"

record common_color_resp =
  ccr_HexCode :: string
  ccr_CommonName :: string

record shade_family_resp =
  sfr_Name :: string
  sfr_Colors :: "common_color_resp list"

record harmony_resp =
  hr_Hex :: string
  hr_Harmony :: string
  hr_Space :: string
  hr_Colors :: "string list"

record health_resp =
  hr_Status :: string
  hr_Dependency :: string

record contrast_resp =
  cr_Ratio :: real
  cr_Level :: string

record color_info_resp =
  cir_Hex :: string
  cir_RGB :: "int \<times> int \<times> int"
  cir_HSL :: "int \<times> int \<times> int"
  cir_HSV :: "int \<times> int \<times> int"
  cir_OkLCh :: "real \<times> real \<times> int"
  cir_White :: contrast_resp
  cir_Black :: contrast_resp

datatype body =
    NoBody
  | ErrorBody go_error
  | VersionBody string
  | HealthBody health_resp
  | UserBody user_resp
  | TokenBody create_token_resp
  | CollectionBody collection_resp
  | CollectionsBody "collection_resp list"
  | AddColorBody string
  | ColorsBody list_colors_resp
  | ExportBody export_resp
  | CommonColorsBody "common_color_resp list"
  | ShadesBody "shade_family_resp list"
  | HarmonyBody harmony_resp
  | InfoBody color_info_resp
  | FileBody string

record reply =
  rp_status :: nat
  rp_headers :: "(string \<times> string) list"
  rp_body :: body

definition WriteJSON :: "nat \<Rightarrow> body \<Rightarrow> reply" where
  "WriteJSON status b = \<lparr>rp_status = status, rp_headers = [], rp_body = b\<rparr>"

definition WriteError :: "go_error \<Rightarrow> nat \<Rightarrow> reply" where
  "WriteError err status = \<lparr>rp_status = status, rp_headers = [], rp_body = ErrorBody err\<rparr>"

definition NoContent :: reply where
  "NoContent = \<lparr>rp_status = 204, rp_headers = [], rp_body = NoBody\<rparr>"

text \<open>A header set before the reply is written.\<close>

definition with_header :: "string \<Rightarrow> string \<Rightarrow> reply \<Rightarrow> reply" where
  "with_header name val r = r\<lparr>rp_headers := (name, val) # rp_headers r\<rparr>"

section \<open>handler.go\<close>

text \<open>
  What the handlers are built with: the libraries, the configuration, the database and the build's
  version.
\<close>

record server_env =
  se_lib :: http_lib
  se_sv :: strvalid
  se_cy :: crypto
  se_pg :: pg_env
  se_colorQuota :: int
  se_collectionQuota :: int
  se_ttl :: int
  se_version :: string

type_synonym handler = "server_env \<Rightarrow> request \<Rightarrow> world \<Rightarrow> reply \<times> world"
type_synonym authed_handler = "server_env \<Rightarrow> request \<Rightarrow> user_id \<Rightarrow> world \<Rightarrow> reply \<times> world"

definition version_Dev :: string where "version_Dev = ''dev''"

definition HandleVersion :: handler where
  "HandleVersion s req w = (WriteJSON 200 (VersionBody (se_version s)), w)"

definition collectionIDFromPath :: "server_env \<Rightarrow> request \<Rightarrow> (go_error, clt_id) result" where
  "collectionIDFromPath s req = ParseID (se_sv s) (rq_PathValue req collectionIDPathValue)"

definition hexFromPath :: "server_env \<Rightarrow> request \<Rightarrow> (go_error, hex) result" where
  "hexFromPath s req =
     (let raw = rq_PathValue req hexPathValue in
      if CHR ''#'' \<in> set raw then Inl (Errorf ''must be 6 hex digits without #'' [])
      else NewHexSV (se_sv s) raw)"

definition writeRequestError :: "go_error \<Rightarrow> reply" where
  "writeRequestError err =
     (if as_max_bytes err then WriteError (NewError ''request body too large'') 413
      else WriteError err 400)"

definition writeStorageError :: "go_error \<Rightarrow> reply" where
  "writeStorageError err =
     (if errors_is err ErrUserNotFound then WriteError (NewError ''user not found'') 404
      else if errors_is err ErrNotFound then WriteError (NewError ''not found'') 404
      else if errors_is err ErrDuplicateNickname then WriteError (NewError ''nickname already taken'') 409
      else if errors_is err ErrInvalidCredentials then WriteError (NewError ''invalid credentials'') 401
      else if errors_is err ColorErrQuotaFull then WriteError (NewError ''color quota full'') 409
      else if errors_is err CollectionErrQuotaFull then WriteError (NewError ''collection quota full'') 409
      else if errors_is err ErrDeleteDefault
      then WriteError (NewError ''default collection cannot be deleted'') 409
      else WriteError err 500)"

text \<open>\<^verbatim>\<open>uuid.UUID.String\<close>: lower-case hexadecimal in groups of 8, 4, 4, 4 and 12.\<close>

definition uuid_nibble :: "uuid \<Rightarrow> nat \<Rightarrow> char" where
  "uuid_nibble u i = hex_digits ! unat (take_bit 4 (drop_bit (4 * (31 - i)) u))"

definition ID_String :: "clt_id \<Rightarrow> string" where
  "ID_String u =
     (let d = \<lambda>i j. map (uuid_nibble u) [i..<j] in
      join_text ''-'' [d 0 8, d 8 12, d 12 16, d 16 20, d 20 32])"

end
