(* ===== verification/Public_Handlers.thy ===== *)
theory Public_Handlers
  imports Http
begin

text \<open>
  The handlers that need no account: the palettes (\<^verbatim>\<open>catalog_handler.go\<close>, \<^verbatim>\<open>shades_handler.go\<close>), what is
  derived from one hex (\<^verbatim>\<open>info_handler.go\<close>, \<^verbatim>\<open>harmony_handler.go\<close>), the probes (\<^verbatim>\<open>health_handler.go\<close>) and
  the static files (\<^verbatim>\<open>static_handler.go\<close>).
\<close>

section \<open>Palettes\<close>

definition common_resp :: "common \<Rightarrow> common_color_resp" where
  "common_resp c = \<lparr>ccr_HexCode = common_Hex c, ccr_CommonName = common_Name c\<rparr>"

definition listCommonColorsParams :: "request \<Rightarrow> (go_error, sort_params) result" where
  "listCommonColorsParams req =
     (let p = \<lparr>sp_Sort = [], sp_Desc = False\<rparr>;
          raw = rq_Query req sortQuery in
      case (if raw \<noteq> [] then (case ParseSort raw of Inl err \<Rightarrow> Inl err | Inr s \<Rightarrow> Inr (p\<lparr>sp_Sort := s\<rparr>))
            else Inr p) of
        Inl err \<Rightarrow> Inl err
      | Inr p \<Rightarrow>
          let raw = rq_Query req orderQuery in
          if raw \<noteq> []
          then (case ParseSortOrder raw of Inl err \<Rightarrow> Inl err | Inr ord \<Rightarrow> Inr (p\<lparr>sp_Desc := (ord = OrderDesc)\<rparr>))
          else Inr p)"

definition HandleListCommonColors :: handler where
  "HandleListCommonColors s req w =
     ((case listCommonColorsParams req of
         Inl err \<Rightarrow> writeRequestError err
       | Inr params \<Rightarrow>
           (case List params of
              Inl err \<Rightarrow> WriteError err 500
            | Inr common \<Rightarrow> with_header ''Cache-Control'' staticCacheControl
                (WriteJSON 200 (CommonColorsBody (map common_resp common))))), w)"

definition HandleListShades :: handler where
  "HandleListShades s req w =
     (with_header ''Cache-Control'' staticCacheControl (WriteJSON 200 (ShadesBody
        (map (\<lambda>f. \<lparr>sfr_Name = family_Name f, sfr_Colors = map common_resp (family_Colors f)\<rparr>) Families))), w)"

section \<open>Derived from one hex\<close>

definition contrastResp :: "contrast \<Rightarrow> contrast_resp" where
  "contrastResp c = \<lparr>cr_Ratio = Ratio c, cr_Level = Level c\<rparr>"

definition colorInfoResp :: "info \<Rightarrow> color_info_resp" where
  "colorInfoResp i =
     \<lparr>cir_Hex = info_Hex i,
      cir_RGB = (rgb_R (info_RGB i), rgb_G (info_RGB i), rgb_B (info_RGB i)),
      cir_HSL = (hsl_Hue (info_HSL i), hsl_Saturation (info_HSL i), hsl_Lightness (info_HSL i)),
      cir_HSV = (hsv_Hue (info_HSV i), hsv_Saturation (info_HSV i), hsv_Value (info_HSV i)),
      cir_OkLCh = (ok_Lightness (info_OkLCh i), ok_Chroma (info_OkLCh i), ok_Hue (info_OkLCh i)),
      cir_White = contrastResp (AgainstWhite i), cir_Black = contrastResp (AgainstBlack i)\<rparr>"

definition HandleColorInfo :: handler where
  "HandleColorInfo s req w =
     ((case hexFromPath s req of
         Inl err \<Rightarrow> writeRequestError err
       | Inr hex \<Rightarrow> with_header ''Cache-Control'' staticCacheControl
           (WriteJSON 200 (InfoBody (colorInfoResp (Describe (pe_math (se_pg s)) hex))))), w)"

definition harmonyNameList :: "fenv \<Rightarrow> string" where
  "harmonyNameList m = join_text '', '' (HarmonyNames m)"

definition HandleHarmony :: handler where
  "HandleHarmony s req w =
     (let m = pe_math (se_pg s) in
      (case hexFromPath s req of
         Inl err \<Rightarrow> writeRequestError err
       | Inr hex \<Rightarrow>
           (case ParseHarmony m (rq_PathValue req harmonyPathValue) of
              Inl err \<Rightarrow> WriteError (Errorf (''one of '' @ harmonyNameList m) [err]) 404
            | Inr harmony \<Rightarrow>
                (case (let raw = rq_Query req spaceQuery in if raw \<noteq> [] then ParseSpace raw else Inr DefSpace) of
                   Inl err \<Rightarrow> writeRequestError err
                 | Inr space \<Rightarrow> with_header ''Cache-Control'' staticCacheControl
                     (WriteJSON 200 (HarmonyBody \<lparr>hr_Hex = hex, hr_Harmony = harmony, hr_Space = space,
                        hr_Colors = Colors m harmony space hex\<rparr>))))), w)"

section \<open>Probes\<close>

definition healthDependency :: string where "healthDependency = ''postgres''"

definition HandleLive :: handler where
  "HandleLive s req w = (WriteJSON 200 (HealthBody \<lparr>hr_Status = ''ok'', hr_Dependency = []\<rparr>), w)"

definition HandleReady :: handler where
  "HandleReady s req w =
     (case Ping Pool (se_pg s) w of
        (Inl err, w1) \<Rightarrow> (WriteJSON 503 (HealthBody \<lparr>hr_Status = ''unavailable'', hr_Dependency = healthDependency\<rparr>), w1)
      | (Inr _, w1) \<Rightarrow> (WriteJSON 200 (HealthBody \<lparr>hr_Status = ''ok'', hr_Dependency = []\<rparr>), w1))"

section \<open>Static files\<close>

text \<open>\<^verbatim>\<open>http.FileServerFS\<close> over the embedded files is the argument \<^verbatim>\<open>files\<close>.\<close>

definition readOnly :: "(request \<Rightarrow> reply) \<Rightarrow> request \<Rightarrow> reply" where
  "readOnly nxt req =
     (if rq_method req \<noteq> ''GET'' \<and> rq_method req \<noteq> ''HEAD''
      then \<lparr>rp_status = 404, rp_headers = [], rp_body = FileBody ''404 page not found''\<rparr>
      else nxt req)"

text \<open>\<^verbatim>\<open>strconv.Quote\<close> of a version string, which has no character to escape.\<close>

definition quote :: "string \<Rightarrow> string" where
  "quote s = CHR 0x22 # s @ [CHR 0x22]"

definition NewStaticHandler :: "(request \<Rightarrow> reply) \<Rightarrow> handler" where
  "NewStaticHandler files s req w =
     ((if se_version s = version_Dev then readOnly files req
       else with_header ''Etag'' (quote (se_version s))
              (with_header ''Cache-Control'' ''no-cache'' (readOnly files req))), w)"

end
