(* ===== verification/Account_Handlers.thy ===== *)
theory Account_Handlers
  imports Http
begin

text \<open>
  \<^verbatim>\<open>user_handler.go\<close> and \<^verbatim>\<open>token_handler.go\<close>: signing up, the account, the export, signing in and out,
  and what of their bodies reaches the log.
\<close>

section \<open>What is logged\<close>

text \<open>A \<^verbatim>\<open>slog.GroupValue\<close>: its attributes by name.\<close>

datatype log_value = LogString string | LogTime gotime

definition CreateUserReq_LogValue :: "create_user_req \<Rightarrow> (string \<times> log_value) list" where
  "CreateUserReq_LogValue r =
     [(''nickname'', LogString (cur_Nickname r)), (''password'', LogString redactedValue)]"

definition CreateTokenReq_LogValue :: "create_token_req \<Rightarrow> (string \<times> log_value) list" where
  "CreateTokenReq_LogValue r =
     [(''nickname'', LogString (ctr_Nickname r)), (''password'', LogString redactedValue)]"

definition CreateTokenResp_LogValue :: "create_token_resp \<Rightarrow> (string \<times> log_value) list" where
  "CreateTokenResp_LogValue r =
     [(''token'', LogString redactedValue), (''expiry'', LogTime (ctr_Expiry r))]"

section \<open>user_handler.go\<close>

definition userToResp :: "user \<Rightarrow> user_resp" where
  "userToResp u = \<lparr>ur_Nickname = user_Nickname u, ur_CreatedAt = UTC (user_CreatedAt u)\<rparr>"

text \<open>The zero value of a \<^verbatim>\<open>user.User\<close> with its nickname and hash set.\<close>

definition newUser :: "string \<Rightarrow> bytes \<Rightarrow> user" where
  "newUser nickname hash =
     \<lparr>user_ID = 0, user_Nickname = nickname, user_PasswordHash = hash, user_CreatedAt = zeroTime\<rparr>"

definition HandleCreateUser :: handler where
  "HandleCreateUser s req w =
     (case hl_ReadCreateUser (se_lib s) req maxRequestBodyBytes of
        Inl err \<Rightarrow> (writeRequestError err, w)
      | Inr data \<Rightarrow>
          (case NormalizeNickname (se_sv s) (cur_Nickname data) of
             Inl err \<Rightarrow> (writeRequestError err, w)
           | Inr nickname \<Rightarrow>
               (case HashPassword (se_cy s) (cur_Password data) of
                  Inl err \<Rightarrow> (writeRequestError err, w)
                | Inr hash \<Rightarrow>
                    (case usersvc_CreateUser (newUser nickname hash) (se_pg s) w of
                       (Inl err, w1) \<Rightarrow> (writeStorageError err, w1)
                     | (Inr u, w1) \<Rightarrow> (WriteJSON 201 (UserBody (userToResp u)), w1)))))"

definition HandleGetMe :: authed_handler where
  "HandleGetMe s req i w =
     (case usersvc_UserByID i (se_pg s) w of
        (Inl err, w1) \<Rightarrow> (writeStorageError err, w1)
      | (Inr u, w1) \<Rightarrow> (WriteJSON 200 (UserBody (userToResp u)), w1))"

definition HandleDeleteMe :: authed_handler where
  "HandleDeleteMe s req i w =
     (case usersvc_DeleteUser i (se_pg s) w of
        (Inl err, w1) \<Rightarrow> (writeStorageError err, w1)
      | (Inr _, w1) \<Rightarrow> (NoContent, w1))"

definition exportVer :: int where "exportVer = 1"

definition collectionToResp :: "collection \<Rightarrow> collection_resp" where
  "collectionToResp c = \<lparr>cr_ID = ID_String (col_ID c), cr_Name = col_Name c, cr_Icon = col_IconSlug c,
     cr_Accent = col_IconAccent c, cr_IsDefault = col_IsDefault c, cr_CreatedAt = UTC (col_CreatedAt c)\<rparr>"

definition savedColorResp :: "color \<Rightarrow> saved_color_resp" where
  "savedColorResp x = \<lparr>scr_Hex = color_Hex x, scr_CreatedAt = UTC (color_CreatedAt x)\<rparr>"

text \<open>\<^verbatim>\<open>Format("20060102T150405Z")\<close>, whose \<^verbatim>\<open>Z\<close> is a letter of the layout.\<close>

definition FormatStamp :: "gotime \<Rightarrow> string" where
  "FormatStamp t =
     (let sec = unix_nano t div 1000000000 + zone_min t * 60;
          sod = nat (sec mod 86400) in
      case civil (sec div 86400 + epochDays) of (y, mo, d) \<Rightarrow>
        appendInt y 4 @ fixed 2 mo @ fixed 2 d @ ''T'' @
        fixed 2 (sod div 3600) @ fixed 2 (sod div 60 mod 60) @ fixed 2 (sod mod 60) @ ''Z'')"

definition contentDisposition :: "string \<Rightarrow> gotime \<Rightarrow> string" where
  "contentDisposition nickname ts =
     ''attachment; filename='' @ [CHR 0x22] @ ''wavelen-'' @ nickname @ ''-'' @ FormatStamp ts @ ''.json'' @ [CHR 0x22]"

definition exportCollectionResp :: "clt_with_colors \<Rightarrow> export_collection_resp" where
  "exportCollectionResp c =
     \<lparr>ecr_Collection = collectionToResp (cwc_Clt c), ecr_Colors = map savedColorResp (cwc_Colors c)\<rparr>"

definition HandleExport :: authed_handler where
  "HandleExport s req i w =
     (case usersvc_ExportUser i (se_pg s) w of
        (Inl err, w1) \<Rightarrow> (writeStorageError err, w1)
      | (Inr (usr, collections), w1) \<Rightarrow>
          (let now = UTC (cy_Now (se_cy s)) in
           (with_header ''Content-Disposition'' (contentDisposition (user_Nickname usr) now)
              (WriteJSON 200 (ExportBody \<lparr>er_Format = exportVer, er_ExportedAt = now,
                 er_User = userToResp usr, er_Collections = map exportCollectionResp collections\<rparr>)), w1)))"

section \<open>token_handler.go\<close>

definition HandleCreateToken :: handler where
  "HandleCreateToken s req w =
     (case hl_ReadCreateToken (se_lib s) req maxRequestBodyBytes of
        Inl err \<Rightarrow> (writeRequestError err, w)
      | Inr data \<Rightarrow>
          (case Login (se_sv s) (se_cy s) (se_ttl s) (ctr_Nickname data) (ctr_Password data) (se_pg s) w of
             (Inl err, _, w1) \<Rightarrow> (writeStorageError err, w1)
           | (Inr token, _, w1) \<Rightarrow>
               (WriteJSON 201 (TokenBody \<lparr>ctr_Token = tok_Plaintext token, ctr_Expiry = UTC (tok_Expiry token)\<rparr>), w1)))"

definition HandleDeleteToken :: authed_handler where
  "HandleDeleteToken s req i w =
     (case TokenHashFromContext req of
        None \<Rightarrow> (WriteError (NewError ''internal server error'') 500, w)
      | Some hash \<Rightarrow>
          (case Logout hash (se_pg s) w of
             (Inl err, w1) \<Rightarrow> (writeStorageError err, w1)
           | (Inr _, w1) \<Rightarrow> (NoContent, w1)))"

end
