(* ===== verification/Color_Handlers.thy ===== *)
theory Color_Handlers
  imports Account_Handlers
begin

text \<open>
  \<^verbatim>\<open>collection_handler.go\<close> and \<^verbatim>\<open>color_handler.go\<close>: an account's collections and the colours saved in
  them.
\<close>

section \<open>collection_handler.go\<close>

definition createCollectionParams :: "strvalid \<Rightarrow> create_collection_req \<Rightarrow> (go_error, create_params) result" where
  "createCollectionParams sv data =
     (case NormalizeName sv (ccr_Name data) of
        Inl err \<Rightarrow> Inl err
      | Inr name \<Rightarrow>
          (case (if ccr_Icon data \<noteq> [] then ParseSlug (ccr_Icon data) else Inr DefIconSlug) of
             Inl err \<Rightarrow> Inl err
           | Inr slug \<Rightarrow>
               (case (if ccr_Accent data \<noteq> [] then NewHexSV sv (ccr_Accent data) else Inr DefIconAccent) of
                  Inl err \<Rightarrow> Inl err
                | Inr accent \<Rightarrow> Inr \<lparr>cp_Name = name, cp_Icon = slug, cp_Accent = accent, cp_IsDefault = False\<rparr>)))"

text \<open>Validation of a field that may be absent.\<close>

definition optional :: "('a \<Rightarrow> (go_error, 'b) result) \<Rightarrow> 'a option \<Rightarrow> (go_error, 'b option) result" where
  "optional f v = (case v of
       None \<Rightarrow> Inr None
     | Some x \<Rightarrow> (case f x of Inl err \<Rightarrow> Inl err | Inr y \<Rightarrow> Inr (Some y)))"

definition updateCollectionParams :: "strvalid \<Rightarrow> update_collection_req \<Rightarrow> (go_error, update_params) result" where
  "updateCollectionParams sv data =
     (if ucr_Name data = None \<and> ucr_Icon data = None \<and> ucr_Accent data = None
      then Inl (NewError ''nothing to update: send name, icon or accent'')
      else case optional (NormalizeName sv) (ucr_Name data) of
             Inl err \<Rightarrow> Inl err
           | Inr name \<Rightarrow>
               (case optional ParseSlug (ucr_Icon data) of
                  Inl err \<Rightarrow> Inl err
                | Inr slug \<Rightarrow>
                    (case optional (NewHexSV sv) (ucr_Accent data) of
                       Inl err \<Rightarrow> Inl err
                     | Inr accent \<Rightarrow> Inr \<lparr>up_Name = name, up_Icon = slug, up_Accent = accent\<rparr>)))"

definition HandleCreateCollection :: authed_handler where
  "HandleCreateCollection s req i w =
     (case hl_ReadCreateCollection (se_lib s) req maxRequestBodyBytes of
        Inl err \<Rightarrow> (writeRequestError err, w)
      | Inr data \<Rightarrow>
          (case createCollectionParams (se_sv s) data of
             Inl err \<Rightarrow> (writeRequestError err, w)
           | Inr params \<Rightarrow>
               (case collectionsvc_CreateCollection (se_collectionQuota s) i params (se_pg s) w of
                  (Inl err, w1) \<Rightarrow> (writeStorageError err, w1)
                | (Inr created, w1) \<Rightarrow> (WriteJSON 201 (CollectionBody (collectionToResp created)), w1))))"

definition HandleListCollections :: authed_handler where
  "HandleListCollections s req i w =
     (case collectionsvc_ListCollections i (se_pg s) w of
        (Inl err, w1) \<Rightarrow> (writeStorageError err, w1)
      | (Inr collections, w1) \<Rightarrow> (WriteJSON 200 (CollectionsBody (map collectionToResp collections)), w1))"

definition HandleGetCollection :: authed_handler where
  "HandleGetCollection s req i w =
     (case collectionIDFromPath s req of
        Inl err \<Rightarrow> (writeRequestError err, w)
      | Inr c \<Rightarrow>
          (case collectionsvc_CollectionByID i c (se_pg s) w of
             (Inl err, w1) \<Rightarrow> (writeStorageError err, w1)
           | (Inr col, w1) \<Rightarrow> (WriteJSON 200 (CollectionBody (collectionToResp col)), w1)))"

definition HandleUpdateCollection :: authed_handler where
  "HandleUpdateCollection s req i w =
     (case collectionIDFromPath s req of
        Inl err \<Rightarrow> (writeRequestError err, w)
      | Inr c \<Rightarrow>
          (case hl_ReadUpdateCollection (se_lib s) req maxRequestBodyBytes of
             Inl err \<Rightarrow> (writeRequestError err, w)
           | Inr data \<Rightarrow>
               (case updateCollectionParams (se_sv s) data of
                  Inl err \<Rightarrow> (writeRequestError err, w)
                | Inr params \<Rightarrow>
                    (case collectionsvc_UpdateCollection i c params (se_pg s) w of
                       (Inl err, w1) \<Rightarrow> (writeStorageError err, w1)
                     | (Inr updated, w1) \<Rightarrow> (WriteJSON 200 (CollectionBody (collectionToResp updated)), w1)))))"

definition HandleDeleteCollection :: authed_handler where
  "HandleDeleteCollection s req i w =
     (case collectionIDFromPath s req of
        Inl err \<Rightarrow> (writeRequestError err, w)
      | Inr c \<Rightarrow>
          (case collectionsvc_DeleteCollection i c (se_pg s) w of
             (Inl err, w1) \<Rightarrow> (writeStorageError err, w1)
           | (Inr _, w1) \<Rightarrow> (NoContent, w1)))"

section \<open>color_handler.go\<close>

definition listColorsParams :: "server_env \<Rightarrow> request \<Rightarrow> (go_error, list_params) result" where
  "listColorsParams s req =
     (case hl_ParseIntQuery (se_lib s) req limitQuery DefaultColorLimit 1 MaxColorLimit of
        Inl err \<Rightarrow> Inl err
      | Inr limit \<Rightarrow>
          (case (let raw = rq_Query req sortQuery in if raw \<noteq> [] then ParseColorSort raw else Inr DefaultColorSort) of
             Inl err \<Rightarrow> Inl err
           | Inr srt \<Rightarrow>
               (case (let raw = rq_Query req orderQuery in if raw \<noteq> [] then ParseSortOrder raw else Inr DefaultColorOrder) of
                  Inl err \<Rightarrow> Inl err
                | Inr order \<Rightarrow>
                    (case (let raw = rq_Query req cursorQuery in
                           optional (\<lambda>c. decodeCursor (se_sv s) c srt order) (if raw \<noteq> [] then Some raw else None)) of
                       Inl err \<Rightarrow> Inl err
                     | Inr after \<Rightarrow> Inr \<lparr>lp_Sort = srt, lp_Order = order, lp_After = after, lp_Limit = limit\<rparr>))))"

definition HandleAddColor :: authed_handler where
  "HandleAddColor s req i w =
     (case collectionIDFromPath s req of
        Inl err \<Rightarrow> (writeRequestError err, w)
      | Inr c \<Rightarrow>
          (case hl_ReadAddColor (se_lib s) req maxRequestBodyBytes of
             Inl err \<Rightarrow> (writeRequestError err, w)
           | Inr data \<Rightarrow>
               (case NewHexSV (se_sv s) (acr_Hex data) of
                  Inl err \<Rightarrow> (writeRequestError err, w)
                | Inr hex \<Rightarrow>
                    (case colorsvc_AddColor (se_colorQuota s) i c hex (se_pg s) w of
                       (Inl err, w1) \<Rightarrow> (writeStorageError err, w1)
                     | (Inr created, w1) \<Rightarrow> (WriteJSON (if created then 201 else 200) (AddColorBody hex), w1)))))"

definition HandleListColors :: authed_handler where
  "HandleListColors s req i w =
     (case collectionIDFromPath s req of
        Inl err \<Rightarrow> (writeRequestError err, w)
      | Inr c \<Rightarrow>
          (case listColorsParams s req of
             Inl err \<Rightarrow> (writeRequestError err, w)
           | Inr params \<Rightarrow>
               (case colorsvc_ListColors i c params (se_pg s) w of
                  (Inl err, w1) \<Rightarrow> (writeStorageError err, w1)
                | (Inr page, w1) \<Rightarrow>
                    (WriteJSON 200 (ColorsBody \<lparr>lcr_Colors = map savedColorResp (page_Colors page),
                       lcr_Metadata = \<lparr>cm_Limit = lp_Limit params, cm_NextCursor =
                         (if page_HasMore page \<and> length (page_Colors page) > 0
                          then encodeCursor (lp_Sort params) (lp_Order params) (last (page_Colors page))
                          else [])\<rparr>\<rparr>), w1))))"

definition HandleDeleteColor :: authed_handler where
  "HandleDeleteColor s req i w =
     (case collectionIDFromPath s req of
        Inl err \<Rightarrow> (writeRequestError err, w)
      | Inr c \<Rightarrow>
          (case hexFromPath s req of
             Inl err \<Rightarrow> (writeRequestError err, w)
           | Inr hex \<Rightarrow>
               (case colorsvc_DeleteColor i c hex (se_pg s) w of
                  (Inl err, w1) \<Rightarrow> (writeStorageError err, w1)
                | (Inr _, w1) \<Rightarrow> (NoContent, w1))))"

definition HandleDeleteAllColors :: authed_handler where
  "HandleDeleteAllColors s req i w =
     (case collectionIDFromPath s req of
        Inl err \<Rightarrow> (writeRequestError err, w)
      | Inr c \<Rightarrow>
          (case colorsvc_DeleteAllColors i c (se_pg s) w of
             (Inl err, w1) \<Rightarrow> (writeStorageError err, w1)
           | (Inr _, w1) \<Rightarrow> (NoContent, w1)))"

end
