(* ===== verification/Routes.thy ===== *)
theory Routes
  imports Public_Handlers Color_Handlers
begin

text \<open>
  \<^verbatim>\<open>internal/server/auth.go\<close>, \<^verbatim>\<open>limit.go\<close> (what a limited route does once the semaphore has decided;
  the semaphore itself is \<^verbatim>\<open>Concurrency\<close>) and \<^verbatim>\<open>routes.go\<close>: the table of routes and the multiplexer of
  \<^verbatim>\<open>net/http\<close> over it.  Requests run one after another here.
\<close>

section \<open>auth.go\<close>

definition bearerScheme :: string where "bearerScheme = ''Bearer''"
definition bearerPrefix :: string where "bearerPrefix = bearerScheme @ '' ''"

text \<open>\<^verbatim>\<open>Header.Get\<close>: the first value, or the empty string.\<close>

definition Header_Get :: "request \<Rightarrow> string \<Rightarrow> string" where
  "Header_Get req name = (case rq_Header req name of [] \<Rightarrow> [] | v # _ \<Rightarrow> v)"

text \<open>\<^verbatim>\<open>strings.CutPrefix\<close>.\<close>

definition CutPrefix :: "string \<Rightarrow> string \<Rightarrow> string option" where
  "CutPrefix s p = (if take (length p) s = p then Some (drop (length p) s) else None)"

definition unauthorized :: reply where
  "unauthorized = with_header ''WWW-Authenticate'' bearerScheme (WriteError (NewError ''invalid credentials'') 401)"

definition authenticate :: "authed_handler \<Rightarrow> handler" where
  "authenticate nxt s req w =
     (case (case CutPrefix (Header_Get req ''Authorization'') bearerPrefix of
              None \<Rightarrow> (unauthorized, w)
            | Some plaintext \<Rightarrow>
                if plaintext = [] then (unauthorized, w)
                else
                  let hash = HashToken (se_cy s) plaintext in
                  (case UserIDForTokenHash Pool hash (se_pg s) w of
                     (Inl err, w1) \<Rightarrow>
                       (if errors_is err ErrTokenNotFound then unauthorized else WriteError err 500, w1)
                   | (Inr i, w1) \<Rightarrow> nxt s (ContextWithTokenHash hash req) i w1)) of
        (r, w') \<Rightarrow> (with_header ''Vary'' ''Authorization'' r, w'))"

section \<open>limit.go\<close>

text \<open>How waiting for a slot of the semaphore ends.\<close>

datatype admission = Slot | NoSlot | HungUp

definition retryAfterBusy :: string where "retryAfterBusy = ''2''"

definition tooManyRequests :: reply where
  "tooManyRequests =
     with_header ''Retry-After'' retryAfterBusy (WriteError (NewError ''server is busy, retry later'') 429)"

text \<open>A handler that returns without writing: \<^verbatim>\<open>net/http\<close> sends an empty 200 if anybody is left to read it.\<close>

definition Unwritten :: reply where
  "Unwritten = \<lparr>rp_status = 200, rp_headers = [], rp_body = NoBody\<rparr>"

definition limitConcurrent :: "int \<Rightarrow> admission \<Rightarrow> handler \<Rightarrow> handler" where
  "limitConcurrent limit adm nxt s req w =
     (if limit \<le> 0 then nxt s req w
      else case adm of
             Slot \<Rightarrow> nxt s req w
           | NoSlot \<Rightarrow> (tooManyRequests, w)
           | HungUp \<Rightarrow> (Unwritten, w))"

section \<open>The multiplexer\<close>

text \<open>
  \<^verbatim>\<open>http.ServeMux\<close> for the patterns the table uses: an optional method, literal segments, wildcards of
  one segment, and the pattern \<^verbatim>\<open>/\<close>, which matches every path.  A wildcard matches neither an empty
  segment nor one that decodes to a slash.  \<^verbatim>\<open>GET\<close> also matches \<^verbatim>\<open>HEAD\<close>; a pattern with the method of
  the request goes before one without.
\<close>

datatype segment = Literal string | Wildcard string

record pattern =
  pat_method :: string
  pat_segments :: "segment list option"

definition parseSegment :: "string \<Rightarrow> segment" where
  "parseSegment seg =
     (if seg \<noteq> [] \<and> hd seg = CHR ''{'' \<and> last seg = CHR ''}'' then Wildcard (butlast (tl seg)) else Literal seg)"

definition parsePath :: "string \<Rightarrow> segment list option" where
  "parsePath path = (if path = ''/'' then None else Some (map parseSegment (Split (drop 1 path) (CHR ''/''))))"

definition parsePattern :: "string \<Rightarrow> pattern" where
  "parsePattern s =
     (case Split s (CHR '' '') of
        [method, path] \<Rightarrow> \<lparr>pat_method = method, pat_segments = parsePath path\<rparr>
      | _ \<Rightarrow> \<lparr>pat_method = [], pat_segments = parsePath s\<rparr>)"

text \<open>\<^verbatim>\<open>url.PathUnescape\<close>, or the segment as it is when it has a malformed escape.\<close>

definition unhex :: "char \<Rightarrow> nat option" where
  "unhex c =
     (if isDigit c then Some (digitVal c)
      else if c \<in> set ''abcdef'' then Some (of_char c - 87)
      else if c \<in> set ''ABCDEF'' then Some (of_char c - 55)
      else None)"

fun unescape :: "string \<Rightarrow> string option" where
  "unescape [] = Some []"
| "unescape (c # s) =
     (if c = CHR ''%'' then
        (case s of
           a # b # r \<Rightarrow>
             (case (unhex a, unhex b, unescape r) of
                (Some x, Some y, Some r') \<Rightarrow> Some (char_of (16 * x + y) # r')
              | _ \<Rightarrow> None)
         | _ \<Rightarrow> None)
      else map_option ((#) c) (unescape s))"

definition pathSegments :: "string \<Rightarrow> string list" where
  "pathSegments path =
     map (\<lambda>seg. case unescape seg of None \<Rightarrow> seg | Some t \<Rightarrow> t) (Split (drop 1 path) (CHR ''/''))"

fun matchSegments :: "segment list \<Rightarrow> string list \<Rightarrow> (string \<times> string) list option" where
  "matchSegments [] [] = Some []"
| "matchSegments (Literal l # ps) (x # xs) = (if l = x then matchSegments ps xs else None)"
| "matchSegments (Wildcard v # ps) (x # xs) =
     (if x = [] \<or> x = ''/'' then None else map_option ((#) (v, x)) (matchSegments ps xs))"
| "matchSegments _ _ = None"

definition matchPattern :: "pattern \<Rightarrow> string \<Rightarrow> string list \<Rightarrow> (string \<times> string) list option" where
  "matchPattern p method segs =
     (if pat_method p = method then (case pat_segments p of None \<Rightarrow> Some [] | Some ps \<Rightarrow> matchSegments ps segs)
      else None)"

fun findPattern :: "(pattern \<times> 'a) list \<Rightarrow> string \<Rightarrow> string list \<Rightarrow> ('a \<times> (string \<times> string) list) option" where
  "findPattern [] method segs = None"
| "findPattern ((p, h) # rest) method segs =
     (case matchPattern p method segs of
        None \<Rightarrow> findPattern rest method segs
      | Some binds \<Rightarrow> Some (h, binds))"

definition ServeMux :: "(pattern \<times> 'a) list \<Rightarrow> request \<Rightarrow> ('a \<times> (string \<times> string) list) option" where
  "ServeMux table req =
     (let segs = pathSegments (rq_path req) in
      case findPattern table (rq_method req) segs of
        Some h \<Rightarrow> Some h
      | None \<Rightarrow>
          (case (if rq_method req = ''HEAD'' then findPattern table ''GET'' segs else None) of
             Some h \<Rightarrow> Some h
           | None \<Rightarrow> findPattern table [] segs))"

definition PathValue :: "(string \<times> string) list \<Rightarrow> string \<Rightarrow> string" where
  "PathValue binds name = (case map_of binds name of None \<Rightarrow> [] | Some v \<Rightarrow> v)"

section \<open>routes.go\<close>

record handler_config =
  hc_WebFS :: "request \<Rightarrow> reply"
  hc_UserColorQuota :: int
  hc_UserCollectionQuota :: int
  hc_AuthTokenTTL :: int
  hc_AuthConcurLimit :: int
  hc_AuthConcurWait :: int

datatype route = Open handler | BcryptLimited handler | Authed authed_handler

definition routes :: "handler_config \<Rightarrow> (pattern \<times> route) list" where
  "routes cfg = map (\<lambda>(pat, h). (parsePattern pat, h))
     [(''GET /livez'', Open HandleLive),
      (''GET /readyz'', Open HandleReady),
      (''GET /api/v1/version'', Open HandleVersion),
      (''/'', Open (NewStaticHandler (hc_WebFS cfg))),
      (''POST /api/v1/users'', BcryptLimited HandleCreateUser),
      (''POST /api/v1/tokens'', BcryptLimited HandleCreateToken),
      (''DELETE /api/v1/tokens'', Authed HandleDeleteToken),
      (''GET /api/v1/me'', Authed HandleGetMe),
      (''DELETE /api/v1/me'', Authed HandleDeleteMe),
      (''GET /api/v1/me/export'', Authed HandleExport),
      (''GET /api/v1/me/collections'', Authed HandleListCollections),
      (''POST /api/v1/me/collections'', Authed HandleCreateCollection),
      (''GET /api/v1/me/collections/{id}'', Authed HandleGetCollection),
      (''PATCH /api/v1/me/collections/{id}'', Authed HandleUpdateCollection),
      (''DELETE /api/v1/me/collections/{id}'', Authed HandleDeleteCollection),
      (''GET /api/v1/me/collections/{id}/colors'', Authed HandleListColors),
      (''POST /api/v1/me/collections/{id}/colors'', Authed HandleAddColor),
      (''DELETE /api/v1/me/collections/{id}/colors'', Authed HandleDeleteAllColors),
      (''DELETE /api/v1/me/collections/{id}/colors/{hex}'', Authed HandleDeleteColor),
      (''GET /api/v1/palettes/css'', Open HandleListCommonColors),
      (''GET /api/v1/palettes/open-color'', Open HandleListShades),
      (''GET /api/v1/colors/{hex}/info'', Open HandleColorInfo),
      (''GET /api/v1/colors/{hex}/harmonies/{harmony}'', Open HandleHarmony)]"

text \<open>The services are built over the storage with the quotas and the lifetime of the configuration.\<close>

definition configured :: "handler_config \<Rightarrow> server_env \<Rightarrow> server_env" where
  "configured cfg s = s\<lparr>se_colorQuota := hc_UserColorQuota cfg,
     se_collectionQuota := hc_UserCollectionQuota cfg, se_ttl := hc_AuthTokenTTL cfg\<rparr>"

definition run_route :: "handler_config \<Rightarrow> admission \<Rightarrow> route \<Rightarrow> handler" where
  "run_route cfg adm r s req w =
     (case r of
        Open h \<Rightarrow> h s req w
      | BcryptLimited h \<Rightarrow> limitConcurrent (hc_AuthConcurLimit cfg) adm h s req w
      | Authed h \<Rightarrow> authenticate h s req w)"

definition newMux :: "handler_config \<Rightarrow> admission \<Rightarrow> handler" where
  "newMux cfg adm s req w =
     (case ServeMux (routes cfg) req of
        None \<Rightarrow> (\<lparr>rp_status = 404, rp_headers = [], rp_body = FileBody ''404 page not found''\<rparr>, w)
      | Some (r, binds) \<Rightarrow> run_route cfg adm r (configured cfg s) (req\<lparr>rq_PathValue := PathValue binds\<rparr>) w)"

text \<open>The table with its patterns parsed.\<close>

lemma routes_eval:
  "routes cfg = (let a = Literal ''api''; v = Literal ''v1''; m = Literal ''me''; cs = Literal ''collections'';
       xs = Literal ''colors''; i = Wildcard ''id''; h = Wildcard ''hex'';
       on = \<lambda>method segs. \<lparr>pat_method = method, pat_segments = Some segs\<rparr> in
     [(on ''GET'' [Literal ''livez''], Open HandleLive),
      (on ''GET'' [Literal ''readyz''], Open HandleReady),
      (on ''GET'' [a, v, Literal ''version''], Open HandleVersion),
      (\<lparr>pat_method = [], pat_segments = None\<rparr>, Open (NewStaticHandler (hc_WebFS cfg))),
      (on ''POST'' [a, v, Literal ''users''], BcryptLimited HandleCreateUser),
      (on ''POST'' [a, v, Literal ''tokens''], BcryptLimited HandleCreateToken),
      (on ''DELETE'' [a, v, Literal ''tokens''], Authed HandleDeleteToken),
      (on ''GET'' [a, v, m], Authed HandleGetMe),
      (on ''DELETE'' [a, v, m], Authed HandleDeleteMe),
      (on ''GET'' [a, v, m, Literal ''export''], Authed HandleExport),
      (on ''GET'' [a, v, m, cs], Authed HandleListCollections),
      (on ''POST'' [a, v, m, cs], Authed HandleCreateCollection),
      (on ''GET'' [a, v, m, cs, i], Authed HandleGetCollection),
      (on ''PATCH'' [a, v, m, cs, i], Authed HandleUpdateCollection),
      (on ''DELETE'' [a, v, m, cs, i], Authed HandleDeleteCollection),
      (on ''GET'' [a, v, m, cs, i, xs], Authed HandleListColors),
      (on ''POST'' [a, v, m, cs, i, xs], Authed HandleAddColor),
      (on ''DELETE'' [a, v, m, cs, i, xs], Authed HandleDeleteAllColors),
      (on ''DELETE'' [a, v, m, cs, i, xs, h], Authed HandleDeleteColor),
      (on ''GET'' [a, v, Literal ''palettes'', Literal ''css''], Open HandleListCommonColors),
      (on ''GET'' [a, v, Literal ''palettes'', Literal ''open-color''], Open HandleListShades),
      (on ''GET'' [a, v, xs, h, Literal ''info''], Open HandleColorInfo),
      (on ''GET'' [a, v, xs, h, Literal ''harmonies'', Wildcard ''harmony''], Open HandleHarmony)])"
  unfolding routes_def Let_def list.map prod.case parsePattern_def parsePath_def parseSegment_def
  by (simp add: isDigit_def)

section \<open>No route overlaps another\<close>

text \<open>Whether some path matches both.\<close>

fun overlap :: "segment list \<Rightarrow> segment list \<Rightarrow> bool" where
  "overlap [] [] = True"
| "overlap (Literal a # ps) (Literal b # qs) = (a = b \<and> overlap ps qs)"
| "overlap (Literal a # ps) (Wildcard v # qs) = overlap ps qs"
| "overlap (Wildcard v # ps) (_ # qs) = overlap ps qs"
| "overlap _ _ = False"

definition clash :: "pattern \<Rightarrow> pattern \<Rightarrow> bool" where
  "clash p q \<longleftrightarrow> pat_method p = pat_method q \<and>
     (case (pat_segments p, pat_segments q) of (Some ps, Some qs) \<Rightarrow> overlap ps qs | _ \<Rightarrow> True)"

lemma matchSegments_iff:
  "matchSegments [] segs = Some binds \<longleftrightarrow> segs = [] \<and> binds = []"
  "matchSegments (Literal l # ps) segs = Some binds \<longleftrightarrow> (\<exists>xs. segs = l # xs \<and> matchSegments ps xs = Some binds)"
  "matchSegments (Wildcard v # ps) segs = Some binds \<longleftrightarrow>
    (\<exists>x xs b. segs = x # xs \<and> x \<noteq> [] \<and> x \<noteq> ''/'' \<and> matchSegments ps xs = Some b \<and> binds = (v, x) # b)"
  by (cases segs; auto)+

lemma matchSegments_tail:
  "matchSegments (p # ps) (x # xs) = Some binds \<Longrightarrow> \<exists>b. matchSegments ps xs = Some b"
  by (cases p) (auto split: if_splits)

lemma matchSegments_overlap:
  "matchSegments ps segs = Some b \<Longrightarrow> matchSegments qs segs = Some b' \<Longrightarrow> overlap ps qs"
  by (induction ps qs arbitrary: segs b b' rule: overlap.induct)
    (auto simp: matchSegments_iff dest!: matchSegments_tail)

lemma matchPattern_clash:
  "matchPattern p m segs = Some b \<Longrightarrow> matchPattern q m segs = Some b' \<Longrightarrow> clash p q"
  by (auto simp: matchPattern_def clash_def dest: matchSegments_overlap split: if_splits option.splits)

lemma routes_disjoint: "sorted_wrt (\<lambda>p q. \<not> clash p q) (map fst (routes cfg))"
  by (simp add: routes_eval Let_def clash_def)

lemma disjoint_unique:
  assumes "sorted_wrt (\<lambda>p q. \<not> clash p q) (map fst table)" "(p, r) \<in> set table" "(q, r') \<in> set table"
    and "matchPattern p m segs = Some b" "matchPattern q m segs = Some b'"
  shows "(p, r) = (q, r')"
  using assms
proof (induction table)
  case (Cons x table)
  have "clash p q" "clash q p" using Cons.prems(4,5) matchPattern_clash by blast+
  then show ?case using Cons by (cases x) (auto simp: image_iff; force)
qed simp

lemma findPattern_iff:
  assumes "sorted_wrt (\<lambda>p q. \<not> clash p q) (map fst table)" "set table' = set table"
  shows "findPattern table' m segs = Some (r, b) \<longleftrightarrow> (\<exists>p. (p, r) \<in> set table \<and> matchPattern p m segs = Some b)"
  using assms(2)
proof -
  have one: "\<exists>p. (p, r) \<in> set t \<and> matchPattern p m segs = Some b" if "findPattern t m segs = Some (r, b)" for t r b
    using that by (induction t m segs rule: findPattern.induct) (auto split: option.splits)
  have some: "\<exists>r b. findPattern t m segs = Some (r, b)" if "(p, r) \<in> set t" "matchPattern p m segs = Some b" for t p r b
    using that by (induction t m segs rule: findPattern.induct) (auto split: option.splits)
  show ?thesis
  proof
    assume "findPattern table' m segs = Some (r, b)"
    then show "\<exists>p. (p, r) \<in> set table \<and> matchPattern p m segs = Some b" using one assms(2) by metis
  next
    assume "\<exists>p. (p, r) \<in> set table \<and> matchPattern p m segs = Some b"
    then obtain p where p: "(p, r) \<in> set table" "matchPattern p m segs = Some b" by blast
    obtain r' b' where f: "findPattern table' m segs = Some (r', b')" using some p assms(2) by metis
    then obtain q where q: "(q, r') \<in> set table" "matchPattern q m segs = Some b'" using one assms(2) by metis
    then have "(p, r) = (q, r')" using disjoint_unique[OF assms(1) p(1) q(1) p(2) q(2)] by simp
    then show "findPattern table' m segs = Some (r, b)" using f p(2) q(2) by simp
  qed
qed

lemma findPattern_same:
  assumes "sorted_wrt (\<lambda>p q. \<not> clash p q) (map fst table)" "set table' = set table"
  shows "findPattern table' m segs = findPattern table m segs"
  using findPattern_iff[OF assms] findPattern_iff[OF assms(1) refl]
  by (metis not_None_eq prod.exhaust)

text \<open>
  C17. Routing is unambiguous and total.  No two routes claim the same request, so the order in which
  they are registered does not matter; and a request that no method pattern claims, whatever its
  method, is answered by the static handler and never by a 405.
\<close>

theorem routing_unambiguous:
  assumes "mset table = mset (routes cfg)"
  shows "ServeMux table req = ServeMux (routes cfg) req
    \<and> ServeMux table req \<noteq> None
    \<and> (findPattern table (rq_method req) (pathSegments (rq_path req)) = None
        \<and> (rq_method req \<noteq> ''HEAD'' \<or> findPattern table ''GET'' (pathSegments (rq_path req)) = None) \<longrightarrow>
        ServeMux table req = Some (Open (NewStaticHandler (hc_WebFS cfg)), []))"
proof -
  have f: "findPattern table m segs = findPattern (routes cfg) m segs" for m segs
    using findPattern_same[OF routes_disjoint] assms by (metis mset_eq_setD)
  have "findPattern (routes cfg) [] segs = Some (Open (NewStaticHandler (hc_WebFS cfg)), [])" for segs
    by (simp add: routes_eval Let_def matchPattern_def)
  then show ?thesis by (auto simp: ServeMux_def f Let_def split: option.split)
qed

theorem routing_unambiguous_witness:
  "\<forall>cfg req. ServeMux (rev (routes cfg)) req = ServeMux (routes cfg) req \<and> ServeMux (rev (routes cfg)) req \<noteq> None"
  using routing_unambiguous[OF mset_rev] by blast

end
