(* ===== verification/Requests.thy ===== *)
theory Requests
  imports Routes
begin

text \<open>
  What a request does to the database: every handler is a short sequence of the service calls of
  \<^verbatim>\<open>System\<close>, chosen by the route and the token, so what holds of the calls holds of the API.
\<close>

section \<open>Sequences of calls\<close>

definition run_calls :: "server_env \<Rightarrow> svc_call list \<Rightarrow> world \<Rightarrow> world" where
  "run_calls s calls w = fold (\<lambda>call. run_call (se_colorQuota s) (se_collectionQuota s) call (se_pg s)) calls w"

lemma run_calls_simps [simp]:
  "run_calls s [] w = w"
  "run_calls s (call # calls) w = run_calls s calls (run_call (se_colorQuota s) (se_collectionQuota s) call (se_pg s) w)"
  by (simp_all add: run_calls_def)

text \<open>The handler made at most one call, and that one is allowed.\<close>

definition one_call :: "server_env \<Rightarrow> (svc_call \<Rightarrow> bool) \<Rightarrow> world \<Rightarrow> world \<Rightarrow> bool" where
  "one_call s P w w' \<longleftrightarrow> (\<exists>calls. length calls \<le> 1 \<and> (\<forall>call \<in> set calls. P call) \<and> w' = run_calls s calls w)"

lemma no_call: "one_call s P w w"
  by (auto simp: one_call_def intro!: exI[of _ "[]"])

lemma the_call:
  "P call \<Longrightarrow> w' = run_call (se_colorQuota s) (se_collectionQuota s) call (se_pg s) w \<Longrightarrow> one_call s P w w'"
  by (auto simp: one_call_def intro!: exI[of _ "[call]"])

lemma reply_of_call:
  "(case r of (Inl err, w1) \<Rightarrow> (f err, w1) | (Inr v, w1) \<Rightarrow> (g v, w1)) = ((case fst r of Inl err \<Rightarrow> f err | Inr v \<Rightarrow> g v), snd r)"
  by (auto split: prod.split sum.split)

lemma reply_of_pair_call:
  "(case r of (Inl err, w1) \<Rightarrow> (f err, w1) | (Inr (a, b), w1) \<Rightarrow> (g a b, w1)) =
    ((case fst r of Inl err \<Rightarrow> f err | Inr (a, b) \<Rightarrow> g a b), snd r)"
  by (auto split: prod.split sum.split)

lemma reply_of_login:
  "(case r of (Inl err, n, w1) \<Rightarrow> (f err, w1) | (Inr v, n, w1) \<Rightarrow> (g v, w1)) =
    ((case fst r of Inl err \<Rightarrow> f err | Inr v \<Rightarrow> g v), snd (snd r))"
  by (auto split: prod.split sum.split)

text \<open>Each handler over its service call.\<close>

lemmas handler_call_simps = reply_of_call reply_of_pair_call reply_of_login run_call_def

lemma public_handlers_calls:
  "one_call s (\<lambda>call. call = Probe) w (snd (HandleLive s req w))"
  "one_call s (\<lambda>call. call = Probe) w (snd (HandleReady s req w))"
  "one_call s (\<lambda>call. call = Probe) w (snd (HandleVersion s req w))"
  "one_call s (\<lambda>call. call = Probe) w (snd (NewStaticHandler files s req w))"
  "one_call s (\<lambda>call. call = Probe) w (snd (HandleListCommonColors s req w))"
  "one_call s (\<lambda>call. call = Probe) w (snd (HandleListShades s req w))"
  "one_call s (\<lambda>call. call = Probe) w (snd (HandleColorInfo s req w))"
  "one_call s (\<lambda>call. call = Probe) w (snd (HandleHarmony s req w))"
  by (auto simp: HandleLive_def HandleReady_def HandleVersion_def NewStaticHandler_def HandleListCommonColors_def
      HandleListShades_def HandleColorInfo_def HandleHarmony_def handler_call_simps Let_def
      intro!: no_call the_call[where call = Probe])

definition opens_account :: "svc_call \<Rightarrow> bool" where
  "opens_account call \<longleftrightarrow> (case call of SignUp _ \<Rightarrow> True | SignIn _ _ _ _ _ \<Rightarrow> True | _ \<Rightarrow> False)"

lemma entry_handlers_calls:
  "one_call s opens_account w (snd (HandleCreateUser s req w))"
  "one_call s opens_account w (snd (HandleCreateToken s req w))"
proof -
  show "one_call s opens_account w (snd (HandleCreateUser s req w))"
    by (auto simp: HandleCreateUser_def handler_call_simps intro: no_call
        the_call[where call = "SignUp _"] simp: opens_account_def split: sum.split)
  show "one_call s opens_account w (snd (HandleCreateToken s req w))"
    by (auto simp: HandleCreateToken_def handler_call_simps intro: no_call
        the_call[where call = "SignIn _ _ _ _ _"] simp: opens_account_def split: sum.split)
qed

text \<open>A handler behind the auth wrapper acts for the account of the token, or deletes the token.\<close>

definition of_session :: "bytes \<Rightarrow> user_id \<Rightarrow> svc_call \<Rightarrow> bool" where
  "of_session hash i call \<longleftrightarrow> acts_for call = Some i \<or> call = SignOut hash"

lemma session_calls [simp]:
  "of_session hash i (CloseAccount i)" "of_session hash i (Export i)" "of_session hash i (NewCollection i p)"
  "of_session hash i (ChangeCollection i c up)" "of_session hash i (DropCollection i c)"
  "of_session hash i (Collections i)" "of_session hash i (SaveColor i c h)" "of_session hash i (DropColor i c h)"
  "of_session hash i (DropAllColors i c)" "of_session hash i (SavedColors i c lp)"
  "of_session hash i (Account i)" "of_session hash i (OneCollection i c)" "of_session hash i (SignOut hash)"
  by (simp_all add: of_session_def acts_for_def)

lemma account_handlers_calls:
  "one_call s (of_session hash i) w (snd (HandleGetMe s req i w))"
  "one_call s (of_session hash i) w (snd (HandleDeleteMe s req i w))"
  "one_call s (of_session hash i) w (snd (HandleExport s req i w))"
  "rq_token_hash req = Some hash \<Longrightarrow> one_call s (of_session hash i) w (snd (HandleDeleteToken s req i w))"
proof -
  have "snd (HandleExport s req i w) = snd (usersvc_ExportUser i (se_pg s) w)"
    by (auto simp: HandleExport_def Let_def split: prod.split sum.split)
  then show "one_call s (of_session hash i) w (snd (HandleExport s req i w))"
    by (auto simp: run_call_def intro: the_call[where call = "Export i"])
qed (auto simp: HandleGetMe_def HandleDeleteMe_def HandleDeleteToken_def TokenHashFromContext_def handler_call_simps
      intro: the_call[where call = "Account i"] the_call[where call = "CloseAccount i"]
        the_call[where call = "SignOut hash"])

lemma collection_handlers_calls:
  "one_call s (of_session hash i) w (snd (HandleCreateCollection s req i w))"
  "one_call s (of_session hash i) w (snd (HandleListCollections s req i w))"
  "one_call s (of_session hash i) w (snd (HandleGetCollection s req i w))"
  "one_call s (of_session hash i) w (snd (HandleUpdateCollection s req i w))"
  "one_call s (of_session hash i) w (snd (HandleDeleteCollection s req i w))"
  by (auto simp: HandleCreateCollection_def HandleListCollections_def HandleGetCollection_def
      HandleUpdateCollection_def HandleDeleteCollection_def handler_call_simps intro: no_call
      intro: the_call[where call = "NewCollection i _"] the_call[where call = "Collections i"]
        the_call[where call = "OneCollection i _"] the_call[where call = "ChangeCollection i _ _"]
        the_call[where call = "DropCollection i _"] split: sum.split)

lemma color_handlers_calls:
  "one_call s (of_session hash i) w (snd (HandleAddColor s req i w))"
  "one_call s (of_session hash i) w (snd (HandleListColors s req i w))"
  "one_call s (of_session hash i) w (snd (HandleDeleteColor s req i w))"
  "one_call s (of_session hash i) w (snd (HandleDeleteAllColors s req i w))"
  by (auto simp: HandleAddColor_def HandleListColors_def HandleDeleteColor_def HandleDeleteAllColors_def
      handler_call_simps intro: no_call
      intro: the_call[where call = "SaveColor i _ _"] the_call[where call = "SavedColors i _ _"]
        the_call[where call = "DropColor i _ _"] the_call[where call = "DropAllColors i _"] split: sum.split)

section \<open>The multiplexer over the handlers\<close>

definition well_behaved :: "route \<Rightarrow> bool" where
  "well_behaved r = (case r of
       Open h \<Rightarrow> \<forall>s req w. one_call s (\<lambda>call. call = Probe) w (snd (h s req w))
     | BcryptLimited h \<Rightarrow> \<forall>s req w. one_call s opens_account w (snd (h s req w))
     | Authed h \<Rightarrow> \<forall>s req i w hash. rq_token_hash req = Some hash \<longrightarrow>
         one_call s (of_session hash i) w (snd (h s req i w)))"

lemma routes_well_behaved: "list_all (\<lambda>pr. well_behaved (snd pr)) (routes cfg)"
  by (simp add: routes_def well_behaved_def public_handlers_calls entry_handlers_calls account_handlers_calls
      collection_handlers_calls color_handlers_calls)

lemma findPattern_in: "findPattern table m segs = Some (r, binds) \<Longrightarrow> r \<in> snd ` set table"
  by (induction table m segs rule: findPattern.induct) (auto split: option.splits)

lemma ServeMux_in: "ServeMux table req = Some (r, binds) \<Longrightarrow> r \<in> snd ` set table"
  by (auto simp: ServeMux_def Let_def dest: findPattern_in split: option.splits if_splits)

lemma route_well_behaved: "ServeMux (routes cfg) req = Some (r, binds) \<Longrightarrow> well_behaved r"
  using routes_well_behaved ServeMux_in by (fastforce simp: list_all_iff)

text \<open>The bearer token of a request.\<close>

definition bearer :: "request \<Rightarrow> string option" where
  "bearer req = (case CutPrefix (Header_Get req ''Authorization'') bearerPrefix of
     None \<Rightarrow> None | Some t \<Rightarrow> if t = [] then None else Some t)"

lemma authenticate_bearer:
  "authenticate nxt s req w =
    (case bearer req of
       None \<Rightarrow> (with_header ''Vary'' ''Authorization'' unauthorized, w)
     | Some t \<Rightarrow>
         (case UserIDForTokenHash Pool (HashToken (se_cy s) t) (se_pg s) w of
            (Inl err, w1) \<Rightarrow> (with_header ''Vary'' ''Authorization''
              (if errors_is err ErrTokenNotFound then unauthorized else WriteError err 500), w1)
          | (Inr i, w1) \<Rightarrow>
              (case nxt s (ContextWithTokenHash (HashToken (se_cy s) t) req) i w1 of
                 (r, w2) \<Rightarrow> (with_header ''Vary'' ''Authorization'' r, w2))))"
  by (auto simp: authenticate_def bearer_def Let_def split: option.split prod.split sum.split)

text \<open>The account a request speaks for, when its token is one of an account.\<close>

definition session :: "server_env \<Rightarrow> request \<Rightarrow> world \<Rightarrow> (bytes \<times> user_id) option" where
  "session s req w = (case bearer req of
     None \<Rightarrow> None
   | Some t \<Rightarrow> (case fst (UserIDForTokenHash Pool (HashToken (se_cy s) t) (se_pg s) w) of
       Inl _ \<Rightarrow> None | Inr i \<Rightarrow> Some (HashToken (se_cy s) t, i)))"

text \<open>Which calls a request may lead to.\<close>

definition permitted :: "handler_config \<Rightarrow> server_env \<Rightarrow> request \<Rightarrow> world \<Rightarrow> svc_call \<Rightarrow> bool" where
  "permitted cfg s req w call =
     (case ServeMux (routes cfg) req of
        None \<Rightarrow> False
      | Some (Open _, _) \<Rightarrow> call = Probe
      | Some (BcryptLimited _, _) \<Rightarrow> opens_account call
      | Some (Authed _, _) \<Rightarrow>
          (\<exists>t. bearer req = Some t \<and> call = Authenticate (HashToken (se_cy s) t))
          \<or> (\<exists>hash i. session s req w = Some (hash, i) \<and> of_session hash i call))"

lemma bearer_update [simp]: "bearer (req\<lparr>rq_PathValue := v\<rparr>) = bearer req"
  by (simp add: bearer_def Header_Get_def)

lemma authenticate_calls:
  assumes "well_behaved (Authed h)"
  shows "\<exists>calls. length calls \<le> 2 \<and> snd (authenticate h s req w) = run_calls s calls w \<and>
    (\<forall>call \<in> set calls. (\<exists>t. bearer req = Some t \<and> call = Authenticate (HashToken (se_cy s) t))
      \<or> (\<exists>hash i. session s req w = Some (hash, i) \<and> of_session hash i call))"
proof (cases "bearer req")
  case None
  then show ?thesis by (intro exI[of _ "[]"]) (simp add: authenticate_bearer)
next
  case (Some t)
  let ?hash = "HashToken (se_cy s) t"
  obtain r w1 where u: "UserIDForTokenHash Pool ?hash (se_pg s) w = (r, w1)" by fastforce
  then have w1: "w1 = run_call (se_colorQuota s) (se_collectionQuota s) (Authenticate ?hash) (se_pg s) w"
    by (simp add: run_call_def)
  show ?thesis
  proof (cases r)
    case (Inl err)
    then show ?thesis using Some u w1
      by (intro exI[of _ "[Authenticate ?hash]"]) (simp add: authenticate_bearer)
  next
    case (Inr i)
    have "one_call s (of_session ?hash i) w1 (snd (h s (ContextWithTokenHash ?hash req) i w1))"
      using assms by (simp add: well_behaved_def ContextWithTokenHash_def)
    then obtain calls where c: "length calls \<le> 1" "\<forall>call \<in> set calls. of_session ?hash i call"
      "snd (h s (ContextWithTokenHash ?hash req) i w1) = run_calls s calls w1"
      by (auto simp: one_call_def)
    then show ?thesis using Some u w1 Inr
      by (intro exI[of _ "Authenticate ?hash # calls"])
        (auto simp: authenticate_bearer session_def split: prod.split)
  qed
qed

lemma configured_simps [simp]:
  "se_pg (configured cfg s) = se_pg s" "se_cy (configured cfg s) = se_cy s" "se_sv (configured cfg s) = se_sv s"
  "se_lib (configured cfg s) = se_lib s" "se_colorQuota (configured cfg s) = hc_UserColorQuota cfg"
  "se_collectionQuota (configured cfg s) = hc_UserCollectionQuota cfg" "se_ttl (configured cfg s) = hc_AuthTokenTTL cfg"
  by (simp_all add: configured_def)

lemma session_update [simp]:
  "session s (req\<lparr>rq_PathValue := v\<rparr>) w = session s req w"
  "session (configured cfg s) req w = session s req w"
  by (simp_all add: session_def split: option.split sum.split)

lemma newMux_calls:
  "\<exists>calls. length calls \<le> 2 \<and> snd (newMux cfg adm s req w) = run_calls (configured cfg s) calls w \<and>
    (\<forall>call \<in> set calls. permitted cfg s req w call)"
proof (cases "ServeMux (routes cfg) req")
  case None
  then show ?thesis by (intro exI[of _ "[]"]) (simp add: newMux_def)
next
  case (Some rb)
  obtain r binds where rb: "rb = (r, binds)" by fastforce
  note wb = route_well_behaved[OF Some[unfolded rb]]
  let ?s = "configured cfg s" and ?req = "req\<lparr>rq_PathValue := PathValue binds\<rparr>"
  have m: "newMux cfg adm s req w = run_route cfg adm r ?s ?req w"
    using Some rb by (simp add: newMux_def)
  show ?thesis
  proof (cases r)
    case (Open h)
    then have "one_call ?s (\<lambda>call. call = Probe) w (snd (h ?s ?req w))" using wb by (simp add: well_behaved_def)
    then obtain calls where "length calls \<le> 1" "\<forall>call \<in> set calls. call = Probe"
      "snd (h ?s ?req w) = run_calls ?s calls w" by (auto simp: one_call_def)
    then show ?thesis using Open Some rb
      by (intro exI[of _ calls]) (auto simp: m run_route_def permitted_def)
  next
    case (BcryptLimited h)
    then have "one_call ?s opens_account w (snd (h ?s ?req w))" using wb by (simp add: well_behaved_def)
    then have "one_call ?s opens_account w (snd (run_route cfg adm r ?s ?req w))"
      using BcryptLimited no_call by (simp add: run_route_def limitConcurrent_def split: admission.split)
    then obtain calls where "length calls \<le> 1" "\<forall>call \<in> set calls. opens_account call"
      "snd (run_route cfg adm r ?s ?req w) = run_calls ?s calls w" by (auto simp: one_call_def)
    then show ?thesis using BcryptLimited Some rb
      by (intro exI[of _ calls]) (auto simp: m permitted_def)
  next
    case (Authed h)
    then show ?thesis
      using authenticate_calls[of h ?s ?req w] wb Some rb
      by (auto simp: m run_route_def permitted_def)
  qed
qed

end
