(* ===== verification/Api_Contracts.thy ===== *)
theory Api_Contracts
  imports Requests
begin

text \<open>
  The guarantees of the API as a whole, request by request: which service calls a request can lead
  to, what holds of the database after any sequence of requests, and that a request touches only
  the account of its own token.
\<close>

section \<open>A server and its requests\<close>

text \<open>Concrete values for the witnesses: libraries that accept everything, a configuration, a request.\<close>

definition sample_lib :: http_lib where
  "sample_lib = \<lparr>
     hl_ReadCreateUser = (\<lambda>_ _. Inr \<lparr>cur_Nickname = ''bob'', cur_Password = ''0123456789abcdef''\<rparr>),
     hl_ReadCreateToken = (\<lambda>_ _. Inr \<lparr>ctr_Nickname = ''ann'', ctr_Password = ''pw''\<rparr>),
     hl_ReadCreateCollection = (\<lambda>_ _. Inr \<lparr>ccr_Name = ''Sea'', ccr_Icon = [], ccr_Accent = []\<rparr>),
     hl_ReadUpdateCollection = (\<lambda>_ _. Inr \<lparr>ucr_Name = Some ''Sky'', ucr_Icon = None, ucr_Accent = None\<rparr>),
     hl_ReadAddColor = (\<lambda>_ _. Inr \<lparr>acr_Hex = ''#00ff7f''\<rparr>),
     hl_ParseIntQuery = (\<lambda>_ _ d _ _. Inr d)\<rparr>"

definition sample_server :: server_env where
  "sample_server = \<lparr>se_lib = sample_lib, se_sv = sample_strvalid, se_cy = sample_crypto, se_pg = sample_env,
     se_colorQuota = 5, se_collectionQuota = 2, se_ttl = 3000, se_version = version_Dev\<rparr>"

lemma sample_simps [simp]:
  "se_pg sample_server = sample_env" "se_cy sample_server = sample_crypto" "se_sv sample_server = sample_strvalid"
  "se_lib sample_server = sample_lib" "cy_Sum256 sample_crypto = rev" "pe_clock sample_env n = int n"
  by (simp_all add: sample_server_def sample_crypto_def sample_env_def)

definition sample_cfg :: handler_config where
  "sample_cfg = \<lparr>hc_WebFS = (\<lambda>_. Unwritten), hc_UserColorQuota = 5, hc_UserCollectionQuota = 2,
     hc_AuthTokenTTL = 3000, hc_AuthConcurLimit = 3, hc_AuthConcurWait = 1000000000\<rparr>"

definition sample_request :: "string \<Rightarrow> string \<Rightarrow> string list \<Rightarrow> request" where
  "sample_request method path auth = \<lparr>rq_method = method, rq_path = path, rq_PathValue = (\<lambda>_. []),
     rq_Query = (\<lambda>_. []), rq_Header = (\<lambda>name. if name = ''Authorization'' then auth else []), rq_body = [],
     rq_RemoteAddr = [], rq_token_hash = None, rq_id = None, rq_Err = None\<rparr>"

text \<open>The account of \<^verbatim>\<open>signed_up\<close> with a session whose token is \<^verbatim>\<open>secret\<close>.\<close>

definition logged_in :: world where
  "logged_in = signed_up\<lparr>w_tables := (w_tables signed_up)\<lparr>t_tokens :=
     [\<lparr>tr_hash = ''terces'', tr_user_id = 1, tr_expiry = 1000\<rparr>]\<rparr>\<rparr>"

lemma logged_in_schema: "schema_ok (w_tables logged_in)"
  using signed_up_schema by (simp add: logged_in_def signed_up_eval schema_ok_def users_ok_def tokens_ok_def
      collections_ok_def colors_ok_def)

section \<open>Requests as service calls\<close>

text \<open>
  C18. The API refines the services.  Whatever a request holds, its effect on the database is that of
  at most two service calls, and the route and the token decide which: a public route only probes,
  signing up and in only open an account or a session, and a route behind the auth wrapper looks
  the token up and then calls for the account it belongs to, or deletes that very token.  Without a
  token that resolves, nothing but the lookup happens.
\<close>

theorem requests_are_calls:
  "\<exists>calls. length calls \<le> 2 \<and> snd (newMux cfg adm s req w) = run_calls (configured cfg s) calls w \<and>
    list_all (permitted cfg s req w) calls"
  using newMux_calls[of cfg adm s req w] by (simp add: list_all_iff)

section \<open>Sequences of requests\<close>

inductive served :: "fenv \<Rightarrow> handler_config \<Rightarrow> world \<Rightarrow> bool" for m cfg where
  fresh: "w_tables w = no_tables \<Longrightarrow> served m cfg w"
| request: "served m cfg w \<Longrightarrow> pe_math (se_pg s) = m \<Longrightarrow> served m cfg (snd (newMux cfg adm s req w))"

lemma reachable_run_calls:
  "reachable m (se_colorQuota s) (se_collectionQuota s) w \<Longrightarrow> pe_math (se_pg s) = m \<Longrightarrow>
   reachable m (se_colorQuota s) (se_collectionQuota s) (run_calls s calls w)"
  by (induction calls arbitrary: w) (auto intro: reachable.step)

lemma served_reachable:
  "served m cfg w \<Longrightarrow> reachable m (hc_UserColorQuota cfg) (hc_UserCollectionQuota cfg) w"
proof (induction rule: served.induct)
  case (fresh w)
  then show ?case by (rule reachable.fresh)
next
  case (request w s adm req)
  obtain calls where "snd (newMux cfg adm s req w) = run_calls (configured cfg s) calls w"
    using newMux_calls by blast
  then show ?case
    using reachable_run_calls[where s = "configured cfg s"] request by simp
qed

text \<open>
  C19. After any sequence of requests to a server with positive quotas, whatever they carry and
  however the connection to the database behaves: the schema's constraints hold, the stored sort
  keys are those of their hexes, every account has a default collection, and nobody is over quota.
\<close>

theorem served_states_ok:
  assumes "served m cfg w" and "1 \<le> hc_UserColorQuota cfg" "1 \<le> hc_UserCollectionQuota cfg"
  shows "app_ok m (w_tables w) \<and> quota_ok (hc_UserColorQuota cfg) (hc_UserCollectionQuota cfg) (w_tables w)"
  using served_reachable[OF assms(1)] assms(2,3)
proof (induction rule: reachable.induct)
  case (fresh w)
  then show ?case using no_tables_ok by simp
next
  case (step w e call)
  then show ?case
    using run_call_app[of e m w _ _ call] run_call_in_quota[of "hc_UserCollectionQuota cfg" "hc_UserColorQuota cfg" w call e]
    by (auto simp: in_quota_def app_ok_def)
qed

theorem served_states_ok_witness:
  "let w = snd (newMux sample_cfg Slot sample_server (sample_request ''POST'' ''/api/v1/users'' []) fresh_world) in
   app_ok binary64_env (w_tables w) \<and> quota_ok 5 2 (w_tables w)"
proof -
  have "served binary64_env sample_cfg fresh_world" by (rule served.fresh) (simp add: fresh_world_def)
  then have "served binary64_env sample_cfg (snd (newMux sample_cfg Slot sample_server
      (sample_request ''POST'' ''/api/v1/users'' []) fresh_world))"
    by (rule served.request) (simp add: sample_server_def sample_env_def)
  then show ?thesis
    using served_states_ok[of binary64_env sample_cfg] by (simp add: sample_cfg_def Let_def)
qed

section \<open>Isolation\<close>

lemma session_token:
  assumes "session s req w = Some (hash, i)"
  shows "\<exists>r \<in> set (t_tokens (w_tables w)). tr_hash r = hash \<and> tr_user_id r = i"
  using assms
  by (auto simp: session_def UserIDForTokenHash_def send_Inr_iff sql_user_for_token_def find_Some_iff
      split: option.splits sum.splits prod.splits)

text \<open>What a session's calls keep for another account: its data, and that the token is not its own.\<close>

definition foreign_token :: "bytes \<Rightarrow> user_id \<Rightarrow> tables \<Rightarrow> bool" where
  "foreign_token hash j t \<longleftrightarrow> (\<forall>r \<in> set (t_tokens t). tr_hash r = hash \<longrightarrow> tr_user_id r \<noteq> j)"

lemma foreign_token_view:
  "user_view j t' = user_view j t \<Longrightarrow> foreign_token hash j t \<Longrightarrow> foreign_token hash j t'"
proof -
  assume "user_view j t' = user_view j t" and f: "foreign_token hash j t"
  then have "filter (\<lambda>r. tr_user_id r = j) (t_tokens t') = filter (\<lambda>r. tr_user_id r = j) (t_tokens t)"
    by (simp add: user_view_def)
  then have "set (filter (\<lambda>r. tr_user_id r = j) (t_tokens t')) = set (filter (\<lambda>r. tr_user_id r = j) (t_tokens t))"
    by (rule arg_cong)
  then show "foreign_token hash j t'" using f by (auto simp: foreign_token_def set_eq_iff)
qed

lemma sign_out_unseen:
  assumes "foreign_token hash j (w_tables w)"
  shows "unseen j (w_tables w) (w_tables (run_call qc qk (SignOut hash) e w))"
proof -
  have "filter (\<lambda>r. tr_user_id r = j) (filter (\<lambda>r. tr_hash r \<noteq> hash) (t_tokens (w_tables w)))
      = filter (\<lambda>r. tr_user_id r = j) (t_tokens (w_tables w))"
    using assms by (auto simp: foreign_token_def intro: filter_cong)
  then have "user_view j (w_tables (snd (sql_delete_token hash (w\<lparr>w_round := n\<rparr>)))) = user_view j (w_tables w)" for n
    by (simp add: sql_delete_token_def user_view_def owns_def Let_def)
  moreover have "schema_ok (w_tables w) \<longrightarrow> schema_ok (w_tables (snd (sql_delete_token hash (w\<lparr>w_round := n\<rparr>))))" for n
    using schema_delete_token[of hash] by (simp add: stmt_in_def)
  ultimately show ?thesis
    using send_tables[of e "sql_delete_token hash" w]
    by (auto simp: run_call_def Logout_def op_state unseen_def)
qed

lemma session_calls_unseen:
  assumes "schema_ok (w_tables w)" "foreign_token hash j (w_tables w)" "i \<noteq> j"
    and "\<forall>call \<in> set calls. of_session hash i call \<or> (\<exists>h. call = Authenticate h)"
  shows "user_view j (w_tables (run_calls s calls w)) = user_view j (w_tables w)"
  using assms
proof (induction calls arbitrary: w)
  case Nil
  then show ?case by simp
next
  case (Cons call calls)
  let ?w = "run_call (se_colorQuota s) (se_collectionQuota s) call (se_pg s) w"
  have "unseen j (w_tables w) (w_tables ?w)"
    using Cons.prems sign_out_unseen run_call_unseen
    by (auto simp: of_session_def) (simp add: run_call_def view.refl)
  then have "schema_ok (w_tables ?w)" and v: "user_view j (w_tables ?w) = user_view j (w_tables w)"
    using Cons.prems(1) by (auto simp: unseen_def)
  then show ?case
    using Cons.IH[of ?w] Cons.prems foreign_token_view[OF v] by simp
qed

text \<open>Signing up leaves every account that exists as it is.\<close>

definition kept :: "user_id \<Rightarrow> tables \<Rightarrow> tables \<Rightarrow> bool" where
  "kept j t t' \<longleftrightarrow> (schema_ok t \<and> j \<in> ur_id ` set (t_users t) \<longrightarrow>
     schema_ok t' \<and> j \<in> ur_id ` set (t_users t') \<and> user_view j t' = user_view j t)"

interpretation kept: session_rel "kept j" for j
  by unfold_locales (auto simp: kept_def)

lemma CreateUser_kept: "kept j (w_tables w) (w_tables (snd (usersvc_CreateUser u e w)))"
  unfolding usersvc_CreateUser_def
proof (rule kept.InTx_rel)
  fix ts w1 v w2
  assume tx: "create_user_tx u (Tx ts) e w1 = (Inr v, w2)" and w1: "w_tables w1 = w_tables w"
  obtain w3 c where u: "CreateUser (Tx ts) u e w1 = (Inr v, w3)"
    and c: "CreateCollection (Tx ts) (user_ID v) \<lparr>cp_Name = DefCollectionName, cp_Icon = DefIconSlug,
       cp_Accent = DefIconAccent, cp_IsDefault = True\<rparr> e w3 = (Inr c, w2)"
    using create_user_tx_Inr[OF tx] by blast
  show "kept j (w_tables w) (w_tables w2)"
    unfolding kept_def
  proof (intro impI, elim conjE, intro conjI)
    assume ok: "schema_ok (w_tables w)" and j: "j \<in> ur_id ` set (t_users (w_tables w))"
    have "stmt_in (\<lambda>t t'. schema_ok t \<longrightarrow> schema_ok t') (sql_insert_user ts n h)" for ts n h
      by (rule schema_insert_user)
    then have "schema_ok (w_tables w3)"
      using store.send_rel ok w1 u op_state(1)[of "Tx ts" u e w1] send_tables[of e _ w1]
      by (metis (no_types, lifting) snd_conv stmt_in_def world.select_convs(1) world.surjective world.update_convs(3))
    then show "schema_ok (w_tables w2)"
      using send_tables[of e _ w3] schema_insert_collection op_state(9)[of "Tx ts" "user_ID v" _ e w3] c
      by (metis (no_types, lifting) snd_conv stmt_in_def world.select_convs(1) world.surjective world.update_convs(3))
    have new: "user_ID v \<noteq> j" using CreateUser_Inr(7)[OF u] j w1 by auto
    then show "j \<in> ur_id ` set (t_users (w_tables w2))"
      using CreateUser_Inr(1)[OF u] CreateCollection_Inr(2)[OF c] j w1 by auto
    show "user_view j (w_tables w2) = user_view j (w_tables w)"
      using CreateUser_Inr(1-4)[OF u] CreateCollection_Inr(1-4)[OF c] w1 new
      by (auto simp: user_view_def owns_def)
  qed
qed

section \<open>Which route a request takes\<close>

lemma findPattern_match:
  "findPattern table m segs = Some (r, binds) \<Longrightarrow> \<exists>p. (p, r) \<in> set table \<and> matchPattern p m segs = Some binds"
  by (induction table m segs rule: findPattern.induct) (auto split: option.splits)

text \<open>The patterns of the limited routes.\<close>

lemma limited_patterns:
  "parsePattern ''POST /api/v1/users'' = \<lparr>pat_method = ''POST'',
     pat_segments = Some [Literal ''api'', Literal ''v1'', Literal ''users'']\<rparr>"
  "parsePattern ''POST /api/v1/tokens'' = \<lparr>pat_method = ''POST'',
     pat_segments = Some [Literal ''api'', Literal ''v1'', Literal ''tokens'']\<rparr>"
  by code_simp+

lemma limited_routes:
  assumes "(p, BcryptLimited h) \<in> set (routes cfg)"
  shows "(h = HandleCreateUser \<and> p = parsePattern ''POST /api/v1/users'')
    \<or> (h = HandleCreateToken \<and> p = parsePattern ''POST /api/v1/tokens'')"
  using assms by (auto simp: routes_def)

definition is_login :: "request \<Rightarrow> bool" where
  "is_login req \<longleftrightarrow> rq_method req = ''POST'' \<and> pathSegments (rq_path req) = [''api'', ''v1'', ''tokens'']"

lemma limited_route:
  assumes "ServeMux (routes cfg) req = Some (BcryptLimited h, binds)" "\<not> is_login req"
  shows "h = HandleCreateUser"
proof -
  obtain m p where m: "m = rq_method req \<or> m = ''GET'' \<or> m = []" and p: "(p, BcryptLimited h) \<in> set (routes cfg)"
    "matchPattern p m (pathSegments (rq_path req)) = Some binds"
    using assms(1) by (auto simp: ServeMux_def Let_def split: option.splits if_splits dest!: findPattern_match)
  then show ?thesis
    using limited_routes[OF p(1)] assms(2)
    by (auto simp: limited_patterns matchPattern_def is_login_def matchSegments_iff split: if_splits)
qed

lemma HandleCreateUser_kept: "kept j (w_tables w) (w_tables (snd (HandleCreateUser s req w)))"
  by (auto simp: HandleCreateUser_def reply_of_call kept.refl CreateUser_kept split: sum.split)

text \<open>Two kinds of call read only; and a session's calls keep to the account of its token.\<close>

lemma reading_calls:
  "\<forall>call \<in> set calls. call = Probe \<or> (\<exists>h. call = Authenticate h) \<Longrightarrow> w_tables (run_calls s calls w) = w_tables w"
  by (induction calls arbitrary: w) (auto simp: run_call_def Ping_def)

lemma session_foreign:
  assumes "schema_ok (w_tables w)" "session s req w = Some (hash, i)" "i \<noteq> j"
  shows "foreign_token hash j (w_tables w)"
proof -
  obtain r0 where r0: "r0 \<in> set (t_tokens (w_tables w))" "tr_hash r0 = hash" "tr_user_id r0 = i"
    using session_token assms(2) by blast
  have "distinct (map tr_hash (t_tokens (w_tables w)))" using assms(1) by (simp add: schema_ok_def tokens_ok_def)
  then have "\<forall>r \<in> set (t_tokens (w_tables w)). tr_hash r = hash \<longrightarrow> r = r0"
    using r0 by (auto simp: distinct_map inj_on_def)
  then show ?thesis unfolding foreign_token_def using r0(3) assms(3) by blast
qed



section \<open>Sessions\<close>

text \<open>
  C21. The auth wrapper.  A handler behind it runs only for a token that resolves, and then exactly for
  the account the token belongs to and with the token's hash in its context.  Otherwise the answer
  does not depend on the handler and nothing changes: 401 with a challenge, or 500 when the database
  could not be asked.  Every answer, the refusals included, varies on the Authorization header.
\<close>

theorem authenticate_contract:
  "case session s req w of
     Some (hash, i) \<Rightarrow>
       (\<exists>w1 r w2. w_tables w1 = w_tables w \<and> nxt s (ContextWithTokenHash hash req) i w1 = (r, w2) \<and>
          authenticate nxt s req w = (with_header ''Vary'' ''Authorization'' r, w2))
   | None \<Rightarrow>
       w_tables (snd (authenticate nxt s req w)) = w_tables w \<and>
       (\<exists>r. fst (authenticate nxt s req w) = with_header ''Vary'' ''Authorization'' r \<and>
          (r = unauthorized \<or> rp_status r = 500 \<and> bearer req \<noteq> None \<and> pe_link (se_pg s) (w_round w) \<noteq> Delivered))"
proof (cases "bearer req")
  case None
  then show ?thesis by (auto simp: session_def authenticate_bearer)
next
  case (Some t)
  obtain r w1 where u: "UserIDForTokenHash Pool (HashToken (se_cy s) t) (se_pg s) w = (r, w1)" by fastforce
  have w1: "w_tables w1 = w_tables w" using read_tables(4)[of Pool "HashToken (se_cy s) t" "se_pg s" w] u by simp
  show ?thesis
  proof (cases r)
    case (Inl err)
    have "errors_is err ErrTokenNotFound \<or> pe_link (se_pg s) (w_round w) \<noteq> Delivered"
      using u Inl
      by (auto simp: UserIDForTokenHash_def row_error_def send_def Let_def sql_user_for_token_def
          split: prod.splits sum.splits option.splits link.splits if_splits)
    then show ?thesis using Some u Inl w1 by (auto simp: session_def authenticate_bearer WriteError_def)
  next
    case (Inr i)
    then show ?thesis using Some u w1
      by (auto simp: session_def authenticate_bearer split: prod.split)
  qed
qed

end
