(* ===== verification/Api_Errors.thy ===== *)
theory Api_Errors
  imports Api_Contracts
begin

text \<open>
  Which requests can be answered with a server error: none, as long as the database answers and the
  values that are supposed to be fresh are.
\<close>

section \<open>Errors of the services\<close>

text \<open>The errors that \<^verbatim>\<open>writeStorageError\<close> knows, every other one being a 500.\<close>

definition client_error :: "go_error \<Rightarrow> bool" where
  "client_error err \<longleftrightarrow> rp_status (writeStorageError err) < 500"

lemma client_errors [simp]:
  "client_error (Sentinel ErrNotFound)" "client_error (Sentinel ErrUserNotFound)"
  "client_error (Sentinel ErrDuplicateNickname)" "client_error (Sentinel ErrInvalidCredentials)"
  "client_error (Sentinel ColorErrQuotaFull)" "client_error (Sentinel CollectionErrQuotaFull)"
  "client_error (Sentinel ErrDeleteDefault)"
  by (simp_all add: client_error_def writeStorageError_def WriteError_def)

definition known_errors :: "(go_error, 'a) result \<Rightarrow> bool" where
  "known_errors r \<longleftrightarrow> (\<forall>err. r = Inl err \<longrightarrow> client_error err)"

lemma known_errors_simps [simp]: "known_errors (Inr v)" "known_errors (Inl err) \<longleftrightarrow> client_error err"
  by (simp_all add: known_errors_def)

text \<open>Identifiers the database hands out are new.\<close>

definition fresh_ids :: "pg_env \<Rightarrow> world \<Rightarrow> bool" where
  "fresh_ids e w \<longleftrightarrow> (\<forall>r \<in> set (t_collections (w_tables w)). \<forall>n. cr_id r \<noteq> pe_uuid e n)
     \<and> (\<forall>r \<in> set (t_users (w_tables w)). ur_id r \<noteq> w_next_user_id w)"

lemma color_services_known:
  assumes "delivered e"
  shows "normal_hex h \<Longrightarrow> known_errors (fst (colorsvc_AddColor quota i c h e w))"
    "known_errors (fst (colorsvc_DeleteColor i c h e w))"
    "known_errors (fst (colorsvc_DeleteAllColors i c e w))"
    "valid_params p \<Longrightarrow> known_errors (fst (colorsvc_ListColors i c p e w))"
proof -
  show "known_errors (fst (colorsvc_DeleteColor i c h e w))" "known_errors (fst (colorsvc_DeleteAllColors i c e w))"
    using assms
    by (auto simp: colorsvc_DeleteColor_def colorsvc_DeleteAllColors_def ResolveCollection_def resolve_delivered
        DeleteColor_def DeleteAllColors_def sql_delete_color_def sql_delete_all_colors_def send_ok Let_def)
  show "known_errors (fst (colorsvc_AddColor quota i c h e w))" if "normal_hex h"
  proof -
    have "\<exists>r \<in> set (t_collections (w_tables w)). cr_id r = c" if "owns (w_tables w) i c" using that by (auto simp: owns_def)
    then show ?thesis
      using assms \<open>normal_hex h\<close> InTx_delivered(1)[OF assms, of "add_color_tx quota i c h" w]
      by (auto simp: colorsvc_AddColor_def add_color_tx_def LockCollection_def resolve_delivered
          CountColors_def sql_count_colors_def HasColor_def sql_has_color_def AddColor_def
          sql_insert_color_def send_ok now_def Let_def split: prod.split)
  qed
  show "known_errors (fst (colorsvc_ListColors i c p e w))" if "valid_params p"
    using ListColors_granted[OF assms that, of c "w\<lparr>w_round := Suc (w_round w)\<rparr>"]
    by (auto simp: colorsvc_ListColors_def ResolveCollection_def resolve_delivered[OF assms])
qed

lemma collection_services_known:
  assumes "delivered e"
  shows "fresh_ids e w \<Longrightarrow> known_errors (fst (collectionsvc_CreateCollection quota i p e w))"
    "known_errors (fst (collectionsvc_ListCollections i e w))"
    "known_errors (fst (collectionsvc_CollectionByID i c e w))"
    "known_errors (fst (collectionsvc_UpdateCollection i c up e w))"
    "known_errors (fst (collectionsvc_DeleteCollection i c e w))"
proof -
  show "known_errors (fst (collectionsvc_CreateCollection quota i p e w))" if "fresh_ids e w"
    using assms that InTx_delivered(1)[OF assms, of "create_collection_tx quota i (p\<lparr>cp_IsDefault := False\<rparr>)" w]
    by (auto simp: collectionsvc_CreateCollection_def create_collection_tx_def LockUser_def sql_lock_user_def
        CountCollections_def sql_count_collections_def CreateCollection_def sql_insert_collection_def send_ok
        row_error_def fresh_ids_def Let_def split: prod.split)
  show "known_errors (fst (collectionsvc_ListCollections i e w))"
    using assms by (simp add: collectionsvc_ListCollections_def ListCollections_def sql_list_collections_def send_ok)
  show "known_errors (fst (collectionsvc_CollectionByID i c e w))"
    using assms by (auto simp: collectionsvc_CollectionByID_def CollectionByID_def sql_collection_def send_ok
        row_error_def split: option.split)
  show "known_errors (fst (collectionsvc_UpdateCollection i c up e w))"
    using assms by (auto simp: collectionsvc_UpdateCollection_def UpdateCollection_def sql_update_collection_def
        send_ok row_error_def Let_def split: option.split)
  show "known_errors (fst (collectionsvc_DeleteCollection i c e w))"
    using assms by (auto simp: collectionsvc_DeleteCollection_def CollectionByID_def sql_collection_def
        DeleteCollection_def sql_delete_collection_def send_ok row_error_def Let_def split: option.split)
qed

lemma user_services_known:
  assumes "delivered e"
  shows "fresh_ids e w \<Longrightarrow> schema_ok (w_tables w) \<Longrightarrow> known_errors (fst (usersvc_CreateUser u e w))"
    "known_errors (fst (usersvc_UserByID i e w))"
    "known_errors (fst (usersvc_DeleteUser i e w))"
    "known_errors (fst (usersvc_ExportUser i e w))"
    "known_errors (fst (Logout hash e w))"
proof -
  show "known_errors (fst (usersvc_CreateUser u e w))" if f: "fresh_ids e w" and ok: "schema_ok (w_tables w)"
  proof -
    have "w_next_user_id w \<notin> ur_id ` set (t_users (w_tables w))" using f by (auto simp: fresh_ids_def)
    then have "\<not> (\<exists>r \<in> set (t_collections (w_tables w)). cr_is_default r \<and> cr_user_id r = w_next_user_id w)"
      using ok unfolding schema_ok_def collections_ok_def by (metis imageI subsetD)
    then show ?thesis
      using assms f InTx_delivered(1)[OF assms, of "create_user_tx u" w]
      by (auto simp: usersvc_CreateUser_def create_user_tx_def CreateUser_def sql_insert_user_def CreateCollection_def
          sql_insert_collection_def send_ok fresh_ids_def Let_def split: prod.split)
  qed
  show "known_errors (fst (usersvc_UserByID i e w))"
    using assms by (auto simp: usersvc_UserByID_def UserByID_def sql_user_by_id_def send_ok row_error_def split: option.split)
  show "known_errors (fst (usersvc_DeleteUser i e w))"
    using assms by (auto simp: usersvc_DeleteUser_def DeleteUser_def sql_delete_user_def send_ok Let_def)
  show "known_errors (fst (usersvc_ExportUser i e w))"
    using assms InTx_delivered(1)[OF assms, of "export_user_tx i" w]
    by (auto simp: usersvc_ExportUser_def export_user_tx_def UserByID_def sql_user_by_id_def send_ok row_error_def
        ExportCollections_def sql_export_def Let_def split: prod.split option.split)
  show "known_errors (fst (Logout hash e w))"
    using assms by (simp add: Logout_def DeleteToken_def sql_delete_token_def send_ok Let_def)
qed

lemma Login_known:
  assumes "delivered e" "schema_ok (w_tables w)" "HashToken cy (cy_Text cy) \<notin> tr_hash ` set (t_tokens (w_tables w))"
  shows "known_errors (fst (Login sv cy ttl nick password e w))"
proof (cases "NormalizeNickname sv nick")
  case (Inl err)
  then show ?thesis by (simp add: Login_def refuse_def)
next
  case (Inr n)
  have h: "\<not> (\<exists>r \<in> set (t_tokens (w_tables w)). tr_hash r = HashToken cy (cy_Text cy))" using assms(3) by force
  show ?thesis
  proof (cases "find (\<lambda>r. citext_key (ur_nickname r) = citext_key n) (t_users (w_tables w))")
    case None
    then show ?thesis using Inr assms(1) by (simp add: Login_def refuse_def UserByNickname_delivered)
  next
    case (Some u)
    then have "\<exists>r \<in> set (t_users (w_tables w)). ur_id r = ur_id u" by (auto simp: find_Some_iff)
    then show ?thesis
      using Some Inr assms(1) h
      by (auto simp: Login_def UserByNickname_delivered PasswordMatches_def
          InsertToken_def sql_insert_token_def send_ok NewToken_def scan_user_def
          Let_def split: bcrypt_result.splits)
  qed
qed

section \<open>Statuses of the handlers\<close>

text \<open>
  The database answers, what should be new is new, and the libraries keep their word: a hex that
  \<^verbatim>\<open>strvalid\<close> accepts has the normal form, an integer parameter is within its bounds, the file server
  does not fail.
\<close>

definition healthy :: "handler_config \<Rightarrow> server_env \<Rightarrow> world \<Rightarrow> bool" where
  "healthy cfg s w \<longleftrightarrow> delivered (se_pg s) \<and> schema_ok (w_tables w) \<and> fresh_ids (se_pg s) w
     \<and> HashToken (se_cy s) (cy_Text (se_cy s)) \<notin> tr_hash ` set (t_tokens (w_tables w))
     \<and> (\<forall>str h. sv_ParseHex (se_sv s) hexCfg str = Inr h \<longrightarrow> normal_hex h)
     \<and> (\<forall>req n. hl_ParseIntQuery (se_lib s) req limitQuery DefaultColorLimit 1 MaxColorLimit = Inr n
          \<longrightarrow> 0 < n \<and> n \<le> MaxColorLimit)
     \<and> (\<forall>req. rp_status (hc_WebFS cfg req) < 500)"

lemma healthy_round: "healthy cfg s w \<Longrightarrow> healthy cfg s (w\<lparr>w_round := n\<rparr>)"
  by (simp add: healthy_def fresh_ids_def)

lemma healthy_configured [simp]: "healthy cfg (configured cfg' s) w \<longleftrightarrow> healthy cfg s w"
  by (simp add: healthy_def)

lemma reply_statuses [simp]:
  "rp_status (WriteJSON n b) = n" "rp_status (WriteError err n) = n" "rp_status NoContent = 204"
  "rp_status (with_header k v r) = rp_status r" "rp_status (writeRequestError err) < 500"
  "rp_status unauthorized = 401" "rp_status tooManyRequests = 429" "rp_status Unwritten = 200"
  by (simp_all add: WriteJSON_def WriteError_def NoContent_def with_header_def writeRequestError_def
      unauthorized_def tooManyRequests_def Unwritten_def)

lemma known_status: "known_errors r \<Longrightarrow> r = Inl err \<Longrightarrow> rp_status (writeStorageError err) < 500"
  by (simp add: client_error_def)

lemmas service_statuses = color_services_known[THEN known_status] collection_services_known[THEN known_status]
  user_services_known[THEN known_status] Login_known[THEN known_status]

definition calm :: "handler_config \<Rightarrow> route \<Rightarrow> bool" where
  "calm cfg r = (case r of
       Open h \<Rightarrow> \<forall>s req w. healthy cfg s w \<longrightarrow> rp_status (fst (h s req w)) < 500
     | BcryptLimited h \<Rightarrow> \<forall>s req w. healthy cfg s w \<longrightarrow> rp_status (fst (h s req w)) < 500
     | Authed h \<Rightarrow> \<forall>s req i w hash. healthy cfg s w \<and> rq_token_hash req = Some hash \<longrightarrow>
         rp_status (fst (h s req i w)) < 500)"

lemma NewHexSV_normal: "healthy cfg s w \<Longrightarrow> NewHexSV (se_sv s) str = Inr h \<Longrightarrow> normal_hex h"
  by (auto simp: healthy_def NewHexSV_def NewHex_def split: sum.splits)

lemma listColorsParams_valid:
  assumes "healthy cfg s w" "listColorsParams s req = Inr p"
  shows "valid_params p"
proof -
  have "hl_ParseIntQuery (se_lib s) req limitQuery DefaultColorLimit 1 MaxColorLimit = Inr (lp_Limit p)
      \<and> lp_Sort p \<in> {SortByCreatedAt, SortByHex, SortByColor} \<and> lp_Order p \<in> {OrderAsc, OrderDesc}"
    using assms(2)
    by (auto simp: listColorsParams_def Let_def ParseColorSort_def ParseSortOrder_def DefaultColorSort_def
        DefaultColorOrder_def split: sum.splits if_splits)
  then show ?thesis using assms(1) by (auto simp: valid_params_def healthy_def)
qed

lemma open_routes_calm:
  "calm cfg (Open HandleLive)" "calm cfg (Open HandleReady)" "calm cfg (Open HandleVersion)"
  "calm cfg (Open (NewStaticHandler (hc_WebFS cfg)))" "calm cfg (Open HandleListCommonColors)"
  "calm cfg (Open HandleListShades)" "calm cfg (Open HandleColorInfo)" "calm cfg (Open HandleHarmony)"
proof -
  show "calm cfg (Open HandleReady)"
    by (simp add: calm_def HandleReady_def Ping_def healthy_def send_ok sql_unit_def)
  have "List p = Inl err \<Longrightarrow> listCommonColorsParams req \<noteq> Inr p" for p err req
    by (auto simp: List_def listCommonColorsParams_def ParseSort_def Let_def split: if_splits sum.splits)
  then show "calm cfg (Open HandleListCommonColors)"
    by (auto simp: calm_def HandleListCommonColors_def split: sum.split)
  show "calm cfg (Open HandleHarmony)"
    by (auto simp: calm_def HandleHarmony_def Let_def split: sum.split)
qed (auto simp: calm_def HandleLive_def HandleVersion_def NewStaticHandler_def readOnly_def HandleListShades_def
    HandleColorInfo_def healthy_def split: sum.split)

lemma entry_routes_calm: "calm cfg (BcryptLimited HandleCreateUser)" "calm cfg (BcryptLimited HandleCreateToken)"
proof -
  show "calm cfg (BcryptLimited HandleCreateUser)"
    by (auto simp: calm_def HandleCreateUser_def reply_of_call healthy_def split: sum.split intro: service_statuses)
  show "calm cfg (BcryptLimited HandleCreateToken)"
    by (auto simp: calm_def HandleCreateToken_def reply_of_login healthy_def split: sum.split intro: service_statuses)
qed

lemma account_routes_calm:
  "calm cfg (Authed HandleDeleteToken)" "calm cfg (Authed HandleGetMe)" "calm cfg (Authed HandleDeleteMe)"
  "calm cfg (Authed HandleExport)"
proof -
  have "rp_status (writeStorageError err) < 500" if "delivered e" "usersvc_ExportUser i e w = (Inl err, w')" for e i w err w'
    using user_services_known(4)[OF that(1), of i w] that(2) by (simp add: client_error_def)
  then show "calm cfg (Authed HandleExport)"
    by (auto simp: calm_def HandleExport_def healthy_def Let_def split: prod.split sum.split)
qed (auto simp: calm_def HandleDeleteToken_def HandleGetMe_def HandleDeleteMe_def TokenHashFromContext_def
    reply_of_call healthy_def split: sum.split intro: service_statuses)

lemma data_routes_calm:
  "calm cfg (Authed HandleListCollections)" "calm cfg (Authed HandleCreateCollection)"
  "calm cfg (Authed HandleGetCollection)" "calm cfg (Authed HandleUpdateCollection)"
  "calm cfg (Authed HandleDeleteCollection)" "calm cfg (Authed HandleListColors)" "calm cfg (Authed HandleAddColor)"
  "calm cfg (Authed HandleDeleteAllColors)" "calm cfg (Authed HandleDeleteColor)"
proof -
  have d: "healthy cfg s w \<Longrightarrow> delivered (se_pg s)" "healthy cfg s w \<Longrightarrow> fresh_ids (se_pg s) w" for s w
    by (simp_all add: healthy_def)
  show "calm cfg (Authed HandleListCollections)" "calm cfg (Authed HandleCreateCollection)"
    "calm cfg (Authed HandleGetCollection)" "calm cfg (Authed HandleUpdateCollection)"
    "calm cfg (Authed HandleDeleteCollection)"
    by (auto simp: calm_def HandleListCollections_def HandleCreateCollection_def HandleGetCollection_def
        HandleUpdateCollection_def HandleDeleteCollection_def reply_of_call split: sum.split
        intro: service_statuses d)
  show "calm cfg (Authed HandleListColors)"
    by (auto simp: calm_def HandleListColors_def reply_of_call split: sum.split
        intro: service_statuses d dest: listColorsParams_valid)
  show "calm cfg (Authed HandleAddColor)"
    by (auto simp: calm_def HandleAddColor_def reply_of_call split: sum.split
        intro: service_statuses d dest: NewHexSV_normal)
  show "calm cfg (Authed HandleDeleteAllColors)" "calm cfg (Authed HandleDeleteColor)"
    by (auto simp: calm_def HandleDeleteAllColors_def HandleDeleteColor_def reply_of_call split: sum.split
        intro: service_statuses d)
qed

lemma routes_calm: "list_all (\<lambda>pr. calm cfg (snd pr)) (routes cfg)"
  by (simp add: routes_def open_routes_calm entry_routes_calm account_routes_calm data_routes_calm)

lemma route_calm: "ServeMux (routes cfg) req = Some (r, binds) \<Longrightarrow> calm cfg r"
  using routes_calm ServeMux_in by (fastforce simp: list_all_iff)

lemma authenticate_calm:
  assumes "calm cfg (Authed h)" "healthy cfg s w"
  shows "rp_status (fst (authenticate h s req w)) < 500"
proof -
  have "delivered (se_pg s)" using assms(2) by (simp add: healthy_def)
  then show ?thesis
    using assms healthy_round[OF assms(2)]
    by (auto simp: authenticate_bearer UserIDForTokenHash_delivered calm_def ContextWithTokenHash_def
        split: option.split prod.split) (metis fst_conv request.select_convs(8) request.surjective request.update_convs(8))
qed

text \<open>A server whose libraries keep their word and whose next identifiers and token are new.\<close>

definition live_server :: server_env where
  "live_server = sample_server\<lparr>se_sv := sample_strvalid\<lparr>sv_ParseHex := \<lambda>_ _. Inr ''#00ff7f''\<rparr>,
     se_cy := sample_crypto\<lparr>cy_Text := ''other''\<rparr>, se_pg := sample_env\<lparr>pe_uuid := \<lambda>_. 9\<rparr>\<rparr>"

lemma live_healthy: "healthy sample_cfg live_server logged_in"
  using sample_delivered logged_in_schema
  by (simp add: live_server_def healthy_def fresh_ids_def delivered_def HashToken_def logged_in_def signed_up_eval
      sample_cfg_def sample_lib_def sample_crypto_def DefaultColorLimit_def MaxColorLimit_def normal_hex_def
      HexLen_def is_hex_digit_def hex_digits_def)

text \<open>
  C25. A server error means the database.  While the database answers, the texts it is sent among
  them being ones it can store, and identifiers and tokens that should be new are new, no request, whatever its route, its token and its content, is answered with
  a status of 500 or above; so every refusal is one of the documented client errors.
\<close>

theorem no_server_errors:
  assumes "healthy cfg s w"
  shows "rp_status (fst (newMux cfg adm s req w)) < 500"
proof (cases "ServeMux (routes cfg) req")
  case None
  then show ?thesis by (simp add: newMux_def)
next
  case (Some rb)
  then show ?thesis
    using assms route_calm authenticate_calm[of cfg _ "configured cfg s" w]
    by (cases rb; cases "fst rb")
      (force simp: newMux_def run_route_def limitConcurrent_def calm_def split: admission.split)+
qed

theorem no_server_errors_witness:
  "rp_status (fst (newMux sample_cfg Slot live_server
     (sample_request ''GET'' ''/api/v1/me/collections/2/colors'' [''Bearer guess'']) logged_in)) < 500"
  by (rule no_server_errors[OF live_healthy])

end
