(* ===== verification/Ledger.thy ===== *)
theory Ledger
  imports Account_Contracts
begin

text \<open>
  What the services promise, without tables, rows, statements or round trips: a ledger of accounts,
  shelves of colours and sessions, with one guarded step per call and answer.  The services of
  \<^verbatim>\<open>internal/usersvc\<close>, \<^verbatim>\<open>collectionsvc\<close>, \<^verbatim>\<open>colorsvc\<close> and \<^verbatim>\<open>authsvc\<close> over the database refine it, also when
  the connection fails: every call is one step of the ledger or none.
\<close>

section \<open>The ledger\<close>

record shelf =
  lf_owner :: user_id
  lf_name :: string
  lf_icon :: string
  lf_accent :: hex
  lf_default :: bool
  lf_colors :: "hex set"

record ledger =
  ld_accounts :: "user_id \<Rightarrow> (string \<times> bytes) option"
  ld_shelves :: "clt_id \<Rightarrow> shelf option"
  ld_sessions :: "bytes \<Rightarrow> (user_id \<times> timestamptz) option"

datatype verdict = Granted | Already | Missing | Taken | NoRoom | Kept | Denied | Broken

definition known_as :: "ledger \<Rightarrow> string \<Rightarrow> user_id \<Rightarrow> bytes \<Rightarrow> bool" where
  "known_as k nick i hash \<longleftrightarrow> (\<exists>nm. ld_accounts k i = Some (nm, hash) \<and> citext_key nm = citext_key nick)"

definition shelf_of :: "ledger \<Rightarrow> user_id \<Rightarrow> clt_id \<Rightarrow> shelf option" where
  "shelf_of k i c = (case ld_shelves k c of None \<Rightarrow> None | Some s \<Rightarrow> if lf_owner s = i then Some s else None)"

definition shelves_of :: "ledger \<Rightarrow> user_id \<Rightarrow> clt_id set" where
  "shelves_of k i = {c. shelf_of k i c \<noteq> None}"

definition put_shelf :: "clt_id \<Rightarrow> shelf \<Rightarrow> ledger \<Rightarrow> ledger" where
  "put_shelf c s k = k\<lparr>ld_shelves := (ld_shelves k)(c \<mapsto> s)\<rparr>"

definition forget :: "user_id \<Rightarrow> ledger \<Rightarrow> ledger" where
  "forget i k = \<lparr>ld_accounts = (ld_accounts k)(i := None),
     ld_shelves = (\<lambda>c. if shelf_of k i c \<noteq> None then None else ld_shelves k c),
     ld_sessions = (\<lambda>h. case ld_sessions k h of None \<Rightarrow> None | Some (j, ex) \<Rightarrow> if j = i then None else Some (j, ex))\<rparr>"

definition reads :: "svc_call \<Rightarrow> bool" where
  "reads call \<longleftrightarrow> (case call of
     Export _ \<Rightarrow> True | Collections _ \<Rightarrow> True | SavedColors _ _ _ \<Rightarrow> True | Account _ \<Rightarrow> True
   | OneCollection _ _ \<Rightarrow> True | Authenticate _ \<Rightarrow> True | Probe \<Rightarrow> True | _ \<Rightarrow> False)"

inductive keeps :: "int \<Rightarrow> int \<Rightarrow> ledger \<Rightarrow> svc_call \<Rightarrow> verdict \<Rightarrow> ledger \<Rightarrow> bool" for qc qk k where
  sign_up: "\<forall>j hash. \<not> known_as k (user_Nickname u) j hash \<Longrightarrow> ld_accounts k i = None \<Longrightarrow> ld_shelves k c = None
    \<Longrightarrow> keeps qc qk k (SignUp u) Granted
      (put_shelf c \<lparr>lf_owner = i, lf_name = DefCollectionName, lf_icon = DefIconSlug, lf_accent = DefIconAccent,
          lf_default = True, lf_colors = {}\<rparr>
        (k\<lparr>ld_accounts := (ld_accounts k)(i \<mapsto> (user_Nickname u, user_PasswordHash u))\<rparr>))"
| sign_up_taken: "known_as k (user_Nickname u) j hash \<Longrightarrow> keeps qc qk k (SignUp u) Taken k"
| close: "ld_accounts k i \<noteq> None \<Longrightarrow> keeps qc qk k (CloseAccount i) Granted (forget i k)"
| close_missing: "ld_accounts k i = None \<Longrightarrow> keeps qc qk k (CloseAccount i) Missing k"
| sign_in: "NormalizeNickname sv nick = Inr n \<Longrightarrow> known_as k n i hash \<Longrightarrow> length password \<le> MaxPasswordLen
    \<Longrightarrow> cy_Compare cy hash password = Match
    \<Longrightarrow> keeps qc qk k (SignIn sv cy ttl nick password) Granted
      (k\<lparr>ld_sessions := (ld_sessions k)(HashToken cy (cy_Text cy) \<mapsto> (i, (unix_nano (cy_Now cy) + ttl) div 1000))\<rparr>)"
| sign_in_denied: "\<forall>n i hash. NormalizeNickname sv nick = Inr n \<and> known_as k n i hash
      \<and> length password \<le> MaxPasswordLen \<longrightarrow> cy_Compare cy hash password \<noteq> Match
    \<Longrightarrow> keeps qc qk k (SignIn sv cy ttl nick password) Denied k"
| sign_out: "keeps qc qk k (SignOut h) Granted (k\<lparr>ld_sessions := (ld_sessions k)(h := None)\<rparr>)"
| new_shelf: "ld_accounts k i \<noteq> None \<Longrightarrow> int (card (shelves_of k i)) < qk \<Longrightarrow> ld_shelves k c = None
    \<Longrightarrow> keeps qc qk k (NewCollection i p) Granted
      (put_shelf c \<lparr>lf_owner = i, lf_name = cp_Name p, lf_icon = cp_Icon p, lf_accent = cp_Accent p,
          lf_default = False, lf_colors = {}\<rparr> k)"
| new_no_room: "ld_accounts k i \<noteq> None \<Longrightarrow> qk \<le> int (card (shelves_of k i))
    \<Longrightarrow> keeps qc qk k (NewCollection i p) NoRoom k"
| new_missing: "ld_accounts k i = None \<Longrightarrow> keeps qc qk k (NewCollection i p) Missing k"
| change: "shelf_of k i c = Some s
    \<Longrightarrow> keeps qc qk k (ChangeCollection i c p) Granted
      (put_shelf c (s\<lparr>lf_name := coalesce (up_Name p) (lf_name s), lf_icon := coalesce (up_Icon p) (lf_icon s),
          lf_accent := coalesce (up_Accent p) (lf_accent s)\<rparr>) k)"
| change_missing: "shelf_of k i c = None \<Longrightarrow> keeps qc qk k (ChangeCollection i c p) Missing k"
| drop: "shelf_of k i c = Some s \<Longrightarrow> \<not> lf_default s
    \<Longrightarrow> keeps qc qk k (DropCollection i c) Granted (k\<lparr>ld_shelves := (ld_shelves k)(c := None)\<rparr>)"
| drop_default: "shelf_of k i c = Some s \<Longrightarrow> lf_default s \<Longrightarrow> keeps qc qk k (DropCollection i c) Kept k"
| drop_missing: "shelf_of k i c = None \<Longrightarrow> keeps qc qk k (DropCollection i c) Missing k"
| save: "shelf_of k i c = Some s \<Longrightarrow> h \<notin> lf_colors s \<Longrightarrow> int (card (lf_colors s)) < qc
    \<Longrightarrow> keeps qc qk k (SaveColor i c h) Granted (put_shelf c (s\<lparr>lf_colors := insert h (lf_colors s)\<rparr>) k)"
| save_already: "shelf_of k i c = Some s \<Longrightarrow> h \<in> lf_colors s \<Longrightarrow> keeps qc qk k (SaveColor i c h) Already k"
| save_no_room: "shelf_of k i c = Some s \<Longrightarrow> h \<notin> lf_colors s \<Longrightarrow> qc \<le> int (card (lf_colors s))
    \<Longrightarrow> keeps qc qk k (SaveColor i c h) NoRoom k"
| save_missing: "shelf_of k i c = None \<Longrightarrow> keeps qc qk k (SaveColor i c h) Missing k"
| drop_color: "shelf_of k i c = Some s \<Longrightarrow> h \<in> lf_colors s
    \<Longrightarrow> keeps qc qk k (DropColor i c h) Granted (put_shelf c (s\<lparr>lf_colors := lf_colors s - {h}\<rparr>) k)"
| drop_color_missing: "\<forall>s. shelf_of k i c = Some s \<longrightarrow> h \<notin> lf_colors s \<Longrightarrow> keeps qc qk k (DropColor i c h) Missing k"
| clear: "shelf_of k i c = Some s
    \<Longrightarrow> keeps qc qk k (DropAllColors i c) Granted (put_shelf c (s\<lparr>lf_colors := {}\<rparr>) k)"
| clear_missing: "shelf_of k i c = None \<Longrightarrow> keeps qc qk k (DropAllColors i c) Missing k"
| read_account: "keeps qc qk k (Account i) (if ld_accounts k i = None then Missing else Granted) k"
| read_export: "keeps qc qk k (Export i) (if ld_accounts k i = None then Missing else Granted) k"
| read_shelves: "keeps qc qk k (Collections i) Granted k"
| read_shelf: "keeps qc qk k (OneCollection i c) (if shelf_of k i c = None then Missing else Granted) k"
| read_colors: "keeps qc qk k (SavedColors i c p) (if shelf_of k i c = None then Missing else Granted) k"
| resolve: "ld_sessions k h = Some s \<Longrightarrow> keeps qc qk k (Authenticate h) Granted k"
| resolve_missing: "keeps qc qk k (Authenticate h) Missing k"
| probe: "keeps qc qk k Probe Granted k"

section \<open>What the tables hold\<close>

definition row_at :: "('r \<Rightarrow> 'k) \<Rightarrow> 'r list \<Rightarrow> 'k \<Rightarrow> 'r option" where
  "row_at key rows x = find (\<lambda>r. key r = x) rows"

definition shelf_row :: "tables \<Rightarrow> collection_row \<Rightarrow> shelf" where
  "shelf_row t r = \<lparr>lf_owner = cr_user_id r, lf_name = cr_name r, lf_icon = cr_icon_slug r,
     lf_accent = cr_icon_accent r, lf_default = cr_is_default r, lf_colors = saved t (cr_id r)\<rparr>"

definition ledger_of :: "tables \<Rightarrow> ledger" where
  "ledger_of t = \<lparr>
     ld_accounts = (\<lambda>i. map_option (\<lambda>r. (ur_nickname r, ur_password_hash r)) (row_at ur_id (t_users t) i)),
     ld_shelves = (\<lambda>c. map_option (shelf_row t) (row_at cr_id (t_collections t) c)),
     ld_sessions = (\<lambda>h. map_option (\<lambda>r. (tr_user_id r, tr_expiry r)) (row_at tr_hash (t_tokens t) h))\<rparr>"

lemma row_at_None: "row_at key rows x = None \<longleftrightarrow> x \<notin> key ` set rows"
  by (auto simp: row_at_def find_None_iff)

lemma row_at_SomeD: "row_at key rows x = Some r \<Longrightarrow> r \<in> set rows \<and> key r = x"
  by (auto simp: row_at_def find_Some_iff)

lemma row_at_Some:
  assumes "distinct (map key rows)"
  shows "row_at key rows x = Some r \<longleftrightarrow> r \<in> set rows \<and> key r = x"
proof
  assume "r \<in> set rows \<and> key r = x"
  moreover have "s = r" if "s \<in> set rows" "key s = key r" "r \<in> set rows" for s
    using assms that by (auto simp: distinct_map dest: inj_onD)
  ultimately show "row_at key rows x = Some r" unfolding row_at_def by (intro find_unique) auto
qed (rule row_at_SomeD)

lemma find_snoc: "find P (rows @ [r]) = (case find P rows of None \<Rightarrow> if P r then Some r else None | Some s \<Rightarrow> Some s)"
  by (induction rows) auto

lemma row_at_append:
  assumes "key r \<notin> key ` set rows"
  shows "row_at key (rows @ [r]) = (row_at key rows)(key r \<mapsto> r)"
proof
  fix x
  show "row_at key (rows @ [r]) x = ((row_at key rows)(key r \<mapsto> r)) x"
  proof (cases "x = key r")
    case True
    then have "row_at key rows x = None" using assms by (simp add: row_at_None)
    then show ?thesis using True by (simp add: row_at_def find_snoc)
  next
    case False
    then show ?thesis by (simp add: row_at_def find_snoc split: option.split)
  qed
qed

lemma option_eqI:
  assumes "\<And>r. a = Some r \<longleftrightarrow> b = Some r"
  shows "a = b"
proof (cases b)
  case None
  then show ?thesis using assms[of "the a"] by (cases a) simp_all
next
  case (Some r)
  then show ?thesis using assms[of r] by simp
qed

lemma row_at_filter:
  assumes "distinct (map key rows)"
  shows "row_at key (filter P rows) x = (case row_at key rows x of None \<Rightarrow> None | Some r \<Rightarrow> if P r then Some r else None)"
proof -
  have d: "distinct (map key (filter P rows))" using assms by (rule distinct_map_filter)
  show ?thesis
  proof (rule option_eqI)
    fix r
    have "row_at key (filter P rows) x = Some r \<longleftrightarrow> row_at key rows x = Some r \<and> P r"
      using assms d by (auto simp: row_at_Some)
    then show "row_at key (filter P rows) x = Some r \<longleftrightarrow>
        (case row_at key rows x of None \<Rightarrow> None | Some r \<Rightarrow> if P r then Some r else None) = Some r"
      by (cases "row_at key rows x") auto
  qed
qed

lemma row_at_map: "(\<And>r. key (f r) = key r) \<Longrightarrow> row_at key (map f rows) x = map_option f (row_at key rows x)"
  by (induction rows) (auto simp: row_at_def)

section \<open>Reading the ledger in the tables\<close>

lemma shelf_of_ledger:
  assumes "schema_ok t"
  shows "shelf_of (ledger_of t) i c = Some s \<longleftrightarrow>
    (\<exists>r \<in> set (t_collections t). cr_id r = c \<and> cr_user_id r = i \<and> s = shelf_row t r)"
proof -
  have "distinct (map cr_id (t_collections t))" using assms by (simp add: schema_ok_def collections_ok_def)
  have "shelf_of (ledger_of t) i c = Some s \<longleftrightarrow>
      (\<exists>r. row_at cr_id (t_collections t) c = Some r \<and> cr_user_id r = i \<and> s = shelf_row t r)"
    by (cases "row_at cr_id (t_collections t) c") (auto simp: shelf_of_def ledger_of_def shelf_row_def)
  then show ?thesis using row_at_Some[OF \<open>distinct (map cr_id (t_collections t))\<close>] by metis
qed

lemma shelf_of_None: "schema_ok t \<Longrightarrow> shelf_of (ledger_of t) i c = None \<longleftrightarrow> \<not> owns t i c"
  using shelf_of_ledger[of t i c] by (auto simp: owns_def not_Some_eq[symmetric])

lemma account_None: "ld_accounts (ledger_of t) i = None \<longleftrightarrow> i \<notin> ur_id ` set (t_users t)"
  by (simp add: ledger_of_def row_at_None)

lemma session_None: "ld_sessions (ledger_of t) h = None \<longleftrightarrow> h \<notin> tr_hash ` set (t_tokens t)"
  by (simp add: ledger_of_def row_at_None)

lemma shelf_None: "ld_shelves (ledger_of t) c = None \<longleftrightarrow> c \<notin> cr_id ` set (t_collections t)"
  by (simp add: ledger_of_def row_at_None)

lemma known_as_ledger:
  assumes "schema_ok t"
  shows "known_as (ledger_of t) nick i hash \<longleftrightarrow>
    (\<exists>r \<in> set (t_users t). ur_id r = i \<and> ur_password_hash r = hash \<and> citext_key (ur_nickname r) = citext_key nick)"
proof -
  have "distinct (map ur_id (t_users t))" using assms by (simp add: schema_ok_def users_ok_def)
  from row_at_Some[OF this] show ?thesis by (auto simp: known_as_def ledger_of_def)
qed

lemma card_shelves:
  assumes "schema_ok t"
  shows "card (shelves_of (ledger_of t) i) = length (collections_of i t)"
proof -
  have "shelves_of (ledger_of t) i = cr_id ` set (collections_of i t)"
    using shelf_of_None[OF assms, of i] by (auto simp: shelves_of_def owns_def collections_of_def)
  moreover have "distinct (map cr_id (collections_of i t))"
    using assms by (simp add: schema_ok_def collections_ok_def collections_of_def distinct_map_filter)
  ultimately show ?thesis by (metis distinct_card length_map set_map)
qed

lemma card_saved:
  assumes "schema_ok t"
  shows "card (saved t c) = length (colors_of c t)"
proof -
  have "distinct (map (\<lambda>r. (xr_collection_id r, xr_hex r)) (t_colors t))"
    using assms by (simp add: schema_ok_def colors_ok_def)
  then have "distinct (map (\<lambda>r. (xr_collection_id r, xr_hex r)) (colors_of c t))"
    unfolding colors_of_def by (rule distinct_map_filter)
  then have "distinct (map xr_hex (colors_of c t))"
    by (auto simp: distinct_map inj_on_def colors_of_def)
  then show ?thesis unfolding saved_def by (metis distinct_card length_map set_map)
qed

section \<open>Writing the tables\<close>

lemma shelf_row_simps [simp]:
  "shelf_row (t\<lparr>t_collections := rs\<rparr>) = shelf_row t" "shelf_row (t\<lparr>t_users := us\<rparr>) = shelf_row t"
  "shelf_row (t\<lparr>t_tokens := ts\<rparr>) = shelf_row t"
  by (simp_all add: shelf_row_def saved_def colors_of_def fun_eq_iff)

lemma ledger_new_user:
  "ur_id r \<notin> ur_id ` set (t_users t) \<Longrightarrow> ledger_of (t\<lparr>t_users := t_users t @ [r]\<rparr>) =
    (ledger_of t)\<lparr>ld_accounts := (ld_accounts (ledger_of t))(ur_id r \<mapsto> (ur_nickname r, ur_password_hash r))\<rparr>"
  by (auto simp: ledger_of_def row_at_append fun_eq_iff)

lemma ledger_new_session:
  "tr_hash r \<notin> tr_hash ` set (t_tokens t) \<Longrightarrow> ledger_of (t\<lparr>t_tokens := t_tokens t @ [r]\<rparr>) =
    (ledger_of t)\<lparr>ld_sessions := (ld_sessions (ledger_of t))(tr_hash r \<mapsto> (tr_user_id r, tr_expiry r))\<rparr>"
  by (auto simp: ledger_of_def row_at_append fun_eq_iff)

lemma ledger_new_shelf:
  "cr_id r \<notin> cr_id ` set (t_collections t) \<Longrightarrow>
    ledger_of (t\<lparr>t_collections := t_collections t @ [r]\<rparr>) = put_shelf (cr_id r) (shelf_row t r) (ledger_of t)"
  by (auto simp: ledger_of_def row_at_append put_shelf_def fun_eq_iff)

text \<open>Nothing is saved under an id that no collection has.\<close>

lemma saved_fresh: "schema_ok t \<Longrightarrow> c \<notin> cr_id ` set (t_collections t) \<Longrightarrow> saved t c = {}"
  by (auto simp: saved_def colors_of_def schema_ok_def colors_ok_def)

lemma ledger_colors:
  assumes "schema_ok t" "r \<in> set (t_collections t)" "\<And>c. c \<noteq> cr_id r \<Longrightarrow> saved (t\<lparr>t_colors := xs\<rparr>) c = saved t c"
  shows "ledger_of (t\<lparr>t_colors := xs\<rparr>) =
    put_shelf (cr_id r) ((shelf_row t r)\<lparr>lf_colors := saved (t\<lparr>t_colors := xs\<rparr>) (cr_id r)\<rparr>) (ledger_of t)"
proof -
  let ?t = "t\<lparr>t_colors := xs\<rparr>"
  have d: "distinct (map cr_id (t_collections t))" using assms(1) by (simp add: schema_ok_def collections_ok_def)
  have "row_at cr_id (t_collections t) (cr_id r) = Some r" using assms(2) row_at_Some[OF d] by blast
  moreover have "shelf_row ?t s = shelf_row t s" if "cr_id s \<noteq> cr_id r" for s
    using assms(3)[OF that] by (simp add: shelf_row_def)
  then have "map_option (shelf_row ?t) (row_at cr_id (t_collections t) c) = map_option (shelf_row t) (row_at cr_id (t_collections t) c)"
    if "c \<noteq> cr_id r" for c
    using that row_at_SomeD[of cr_id "t_collections t" c] by (cases "row_at cr_id (t_collections t) c") auto
  ultimately show ?thesis by (auto simp: ledger_of_def put_shelf_def fun_eq_iff) (auto simp: shelf_row_def)
qed

lemma ledger_accounts_drop:
  assumes "schema_ok t"
  shows "ledger_of (cascade_user i t) = forget i (ledger_of t)"
proof -
  have d: "distinct (map ur_id (t_users t))" "distinct (map cr_id (t_collections t))" "distinct (map tr_hash (t_tokens t))"
    using assms by (auto simp: schema_ok_def users_ok_def tokens_ok_def collections_ok_def)
  have same: "saved (cascade_user i t) (cr_id r) = saved t (cr_id r)" if "r \<in> set (t_collections t)" "cr_user_id r \<noteq> i" for r
  proof -
    have "\<not> (\<exists>k \<in> set (t_collections t). cr_id k = cr_id r \<and> cr_user_id k = i)"
      using that d(2) by (auto simp: distinct_map dest: inj_onD)
    then have "filter (\<lambda>x. xr_collection_id x = cr_id r \<and> \<not> (\<exists>k \<in> set (t_collections t). cr_id k = xr_collection_id x \<and> cr_user_id k = i))
        (t_colors t) = filter (\<lambda>x. xr_collection_id x = cr_id r) (t_colors t)"
      by (intro filter_cong) auto
    then show ?thesis by (simp add: saved_def colors_of_def cascade_user_def conj_commute)
  qed
  have shelf: "map_option (shelf_row (cascade_user i t)) (row_at cr_id (filter (\<lambda>r. cr_user_id r \<noteq> i) (t_collections t)) c) =
      (if shelf_of (ledger_of t) i c \<noteq> None then None else map_option (shelf_row t) (row_at cr_id (t_collections t) c))" for c
  proof (cases "row_at cr_id (t_collections t) c")
    case None
    then show ?thesis by (simp add: row_at_filter[OF d(2)] shelf_of_def ledger_of_def)
  next
    case (Some r)
    then show ?thesis using row_at_SomeD[OF Some] same[of r]
      by (simp add: row_at_filter[OF d(2)] shelf_of_def ledger_of_def shelf_row_def)
  qed
  have account: "map_option f (row_at ur_id (filter (\<lambda>r. ur_id r \<noteq> i) (t_users t)) j) =
      (if j = i then None else map_option f (row_at ur_id (t_users t) j))" for f :: "user_row \<Rightarrow> string \<times> bytes" and j
    using row_at_SomeD[of ur_id "t_users t" j] by (auto simp: row_at_filter[OF d(1)] split: option.split)
  have session: "map_option (\<lambda>r. (tr_user_id r, tr_expiry r)) (row_at tr_hash (filter (\<lambda>r. tr_user_id r \<noteq> i) (t_tokens t)) h) =
      (case map_option (\<lambda>r. (tr_user_id r, tr_expiry r)) (row_at tr_hash (t_tokens t) h) of
         None \<Rightarrow> None | Some (j, ex) \<Rightarrow> if j = i then None else Some (j, ex))" for h
    by (auto simp: row_at_filter[OF d(3)] split: option.split)
  show ?thesis
    unfolding forget_def ledger_of_def[of "cascade_user i t"] using account session shelf
    by (auto simp: cascade_user_def fun_eq_iff ledger_of_def)
qed

lemma ledger_session_drop:
  assumes "schema_ok t"
  shows "ledger_of (t\<lparr>t_tokens := filter (\<lambda>r. tr_hash r \<noteq> h) (t_tokens t)\<rparr>) =
    (ledger_of t)\<lparr>ld_sessions := (ld_sessions (ledger_of t))(h := None)\<rparr>"
proof -
  have "distinct (map tr_hash (t_tokens t))" using assms by (simp add: schema_ok_def tokens_ok_def)
  then show ?thesis
    using row_at_SomeD[of tr_hash "t_tokens t"]
    by (auto simp: ledger_of_def row_at_filter fun_eq_iff split: option.split)
qed

lemma ledger_shelf_drop:
  assumes "schema_ok t"
  shows "ledger_of (t\<lparr>t_collections := filter (\<lambda>k. cr_id k \<noteq> c) (t_collections t),
      t_colors := filter (\<lambda>x. xr_collection_id x \<noteq> c) (t_colors t)\<rparr>) =
    (ledger_of t)\<lparr>ld_shelves := (ld_shelves (ledger_of t))(c := None)\<rparr>" (is "ledger_of ?t = _")
proof -
  have d: "distinct (map cr_id (t_collections t))" using assms by (simp add: schema_ok_def collections_ok_def)
  have "saved ?t d = saved t d" if "d \<noteq> c" for d
  proof -
    have "{x \<in> set (t_colors t). xr_collection_id x \<noteq> c \<and> xr_collection_id x = d} = {x \<in> set (t_colors t). xr_collection_id x = d}"
      using that by auto
    then show ?thesis by (simp add: saved_def colors_of_def)
  qed
  then have "shelf_row ?t r = shelf_row t r" if "cr_id r \<noteq> c" for r using that by (simp add: shelf_row_def)
  then have "map_option (shelf_row ?t) (row_at cr_id (filter (\<lambda>k. cr_id k \<noteq> c) (t_collections t)) x) =
      (if x = c then None else map_option (shelf_row t) (row_at cr_id (t_collections t) x))" for x
    using row_at_SomeD[of cr_id "t_collections t" x]
    by (auto simp: row_at_filter[OF d] split: option.split)
  then show ?thesis by (auto simp: ledger_of_def fun_eq_iff)
qed

lemma ledger_shelf_change:
  assumes "schema_ok t" "r \<in> set (t_collections t)" "cr_id r = c" "cr_user_id r = i"
  shows "ledger_of (t\<lparr>t_collections := update_rows (\<lambda>k. cr_id k = c \<and> cr_user_id k = i) p (t_collections t)\<rparr>) =
    put_shelf c (shelf_row t (update_row p r)) (ledger_of t)"
proof -
  have d: "distinct (map cr_id (t_collections t))" using assms by (simp add: schema_ok_def collections_ok_def)
  have "row_at cr_id (t_collections t) c = Some r" using assms row_at_Some[OF d] by blast
  then show ?thesis
    using assms(3,4) row_at_SomeD[of cr_id "t_collections t"]
    by (auto simp: ledger_of_def put_shelf_def update_rows_def row_at_map update_row_def fun_eq_iff
        option.map_comp intro!: option.map_cong0)
qed

end
