(* ===== verification/Ledger_Refinement.thy ===== *)
theory Ledger_Refinement
  imports Ledger Paging
begin

text \<open>
  The services refine the ledger: first call by call over a connection that delivers, then for any
  fate of the round trips, because a call whose connection fails has changed nothing or everything.
\<close>

section \<open>Every call is a step of the ledger\<close>

definition error_verdict :: "go_error \<Rightarrow> verdict" where
  "error_verdict err =
     (if errors_is err ErrNotFound then Missing
      else if errors_is err ErrDuplicateNickname then Taken
      else if errors_is err ErrInvalidCredentials then Denied
      else if errors_is err ColorErrQuotaFull \<or> errors_is err CollectionErrQuotaFull then NoRoom
      else if errors_is err ErrDeleteDefault then Kept
      else Broken)"

definition verdict_of :: "(go_error, 'a) result \<Rightarrow> verdict" where
  "verdict_of r = (case r of Inr _ \<Rightarrow> Granted | Inl err \<Rightarrow> error_verdict err)"

definition outcome :: "int \<Rightarrow> int \<Rightarrow> svc_call \<Rightarrow> pg_env \<Rightarrow> world \<Rightarrow> verdict" where
  "outcome qc qk call e w =
     (case call of
        SignUp u \<Rightarrow> verdict_of (fst (usersvc_CreateUser u e w))
      | CloseAccount i \<Rightarrow> verdict_of (fst (usersvc_DeleteUser i e w))
      | Export i \<Rightarrow> verdict_of (fst (usersvc_ExportUser i e w))
      | SignIn sv cy ttl nick pw \<Rightarrow> verdict_of (fst (Login sv cy ttl nick pw e w))
      | SignOut h \<Rightarrow> verdict_of (fst (Logout h e w))
      | NewCollection i p \<Rightarrow> verdict_of (fst (collectionsvc_CreateCollection qk i p e w))
      | ChangeCollection i c p \<Rightarrow> verdict_of (fst (collectionsvc_UpdateCollection i c p e w))
      | DropCollection i c \<Rightarrow> verdict_of (fst (collectionsvc_DeleteCollection i c e w))
      | Collections i \<Rightarrow> verdict_of (fst (collectionsvc_ListCollections i e w))
      | SaveColor i c h \<Rightarrow>
          (case fst (colorsvc_AddColor qc i c h e w) of Inr False \<Rightarrow> Already | r \<Rightarrow> verdict_of r)
      | DropColor i c h \<Rightarrow> verdict_of (fst (colorsvc_DeleteColor i c h e w))
      | DropAllColors i c \<Rightarrow> verdict_of (fst (colorsvc_DeleteAllColors i c e w))
      | SavedColors i c p \<Rightarrow> verdict_of (fst (colorsvc_ListColors i c p e w))
      | Account i \<Rightarrow> verdict_of (fst (usersvc_UserByID i e w))
      | OneCollection i c \<Rightarrow> verdict_of (fst (collectionsvc_CollectionByID i c e w))
      | Authenticate h \<Rightarrow> verdict_of (fst (UserIDForTokenHash Pool h e w))
      | Probe \<Rightarrow> verdict_of (fst (Ping Pool e w)))"

lemma verdict_of_simps [simp]: "verdict_of (Inr v) = Granted" "verdict_of (Inl err) = error_verdict err"
  by (simp_all add: verdict_of_def)

lemma error_verdict_simps [simp]:
  "error_verdict (Sentinel ErrNotFound) = Missing" "error_verdict (Sentinel ErrUserNotFound) = Missing"
  "error_verdict (Sentinel ErrTokenNotFound) = Missing" "error_verdict (Sentinel ErrDuplicateNickname) = Taken"
  "error_verdict (Sentinel ColorErrQuotaFull) = NoRoom" "error_verdict (Sentinel CollectionErrQuotaFull) = NoRoom"
  "error_verdict (Sentinel ErrDeleteDefault) = Kept" "error_verdict (Sentinel ErrInvalidCredentials) = Denied"
  by (simp_all add: error_verdict_def)

text \<open>
  What the database and the libraries draw afresh is fresh, a colour is a valid hex code and a listing
  has a limit, a sort and an order.
\<close>

definition unused :: "svc_call \<Rightarrow> pg_env \<Rightarrow> world \<Rightarrow> bool" where
  "unused call e w \<longleftrightarrow> w_next_user_id w \<notin> ur_id ` set (t_users (w_tables w))
     \<and> (\<forall>n. pe_uuid e n \<notin> cr_id ` set (t_collections (w_tables w)))
     \<and> (case call of
          SignIn sv cy ttl nick pw \<Rightarrow> cy_Sum256 cy (cy_Text cy) \<notin> tr_hash ` set (t_tokens (w_tables w))
        | SaveColor i c h \<Rightarrow> normal_hex h
        | SavedColors i c p \<Rightarrow> valid_params p
        | _ \<Rightarrow> True)"

lemma known_as_taken:
  "schema_ok t \<Longrightarrow> (\<exists>j hash. known_as (ledger_of t) nick j hash) \<longleftrightarrow> nickname_taken t nick"
  by (auto simp: known_as_ledger nickname_taken_def)

lemma accounts_keep:
  assumes "delivered e" "schema_ok (w_tables w)" "unused call e w"
    and "call \<in> {SignUp u, CloseAccount i, SignOut h}"
  shows "keeps qc qk (ledger_of (w_tables w)) call (outcome qc qk call e w) (ledger_of (w_tables (run_call qc qk call e w)))"
proof -
  let ?t = "w_tables w" and ?k = "ledger_of (w_tables w)"
  have fresh: "w_next_user_id w \<notin> ur_id ` set (t_users ?t)" "\<And>n. pe_uuid e n \<notin> cr_id ` set (t_collections ?t)"
    using assms(3) by (auto simp: unused_def)
  note up = CreateUser_run[OF assms(1,2) fresh, of u]
  have "keeps qc qk ?k (SignUp u) (outcome qc qk (SignUp u) e w) (ledger_of (w_tables (run_call qc qk (SignUp u) e w)))"
  proof (cases "nickname_taken ?t (user_Nickname u)")
    case True
    then obtain j hash where "known_as ?k (user_Nickname u) j hash" using known_as_taken[OF assms(2)] by blast
    then show ?thesis using keeps.sign_up_taken True up by (simp add: outcome_def run_call_def)
  next
    case False
    let ?r = "\<lparr>ur_id = w_next_user_id w, ur_nickname = user_Nickname u, ur_password_hash = user_PasswordHash u,
      ur_created_at = pe_clock e (w_round w)\<rparr>"
    let ?t1 = "?t\<lparr>t_users := t_users ?t @ [?r]\<rparr>"
    have c: "cr_id (first_row e w) \<notin> cr_id ` set (t_collections ?t1)" using fresh(2) by (simp add: first_row_def)
    have "saved ?t (cr_id (first_row e w)) = {}" using c by (intro saved_fresh[OF assms(2)]) simp
    then have row: "shelf_row ?t (first_row e w) = \<lparr>lf_owner = w_next_user_id w, lf_name = DefCollectionName,
        lf_icon = DefIconSlug, lf_accent = DefIconAccent, lf_default = True, lf_colors = {}\<rparr>"
      by (simp add: shelf_row_def first_row_def)
    have "ledger_of (w_tables (run_call qc qk (SignUp u) e w)) = put_shelf (cr_id (first_row e w)) (shelf_row ?t (first_row e w))
        (?k\<lparr>ld_accounts := (ld_accounts ?k)(w_next_user_id w \<mapsto> (user_Nickname u, user_PasswordHash u))\<rparr>)"
      using up(2) False ledger_new_shelf[OF c] ledger_new_user[of ?r ?t] fresh(1) by (simp add: run_call_def)
    moreover have "outcome qc qk (SignUp u) e w = Granted" using up(1) False by (simp add: outcome_def)
    moreover have "\<forall>j hash. \<not> known_as ?k (user_Nickname u) j hash" using False known_as_taken[OF assms(2)] by blast
    moreover have "ld_accounts ?k (w_next_user_id w) = None" "ld_shelves ?k (cr_id (first_row e w)) = None"
      using fresh(1) c by (simp_all add: account_None shelf_None)
    ultimately show ?thesis using keeps.sign_up[of ?k u] row by metis
  qed
  moreover have "keeps qc qk ?k (CloseAccount i) (outcome qc qk (CloseAccount i) e w) (ledger_of (w_tables (run_call qc qk (CloseAccount i) e w)))"
    using DeleteUser_run[OF assms(1,2), of i] keeps.close[of ?k i] keeps.close_missing[of ?k i]
      ledger_accounts_drop[OF assms(2), of i] cascade_absent[OF assms(2), of i] account_None[of ?t i]
    by (cases "i \<in> ur_id ` set (t_users ?t)") (simp_all add: outcome_def run_call_def del: image_iff)
  moreover have "keeps qc qk ?k (SignOut h) (outcome qc qk (SignOut h) e w) (ledger_of (w_tables (run_call qc qk (SignOut h) e w)))"
    using keeps.sign_out[of qc qk ?k h] ledger_session_drop[OF assms(2), of h]
    by (simp add: outcome_def run_call_def Logout_def DeleteToken_def sql_delete_token_def send_ok[OF assms(1)] Let_def)
  ultimately show ?thesis using assms(4) by blast
qed

lemma sign_in_keeps:
  assumes "delivered e" "schema_ok (w_tables w)" "unused (SignIn sv cy ttl nick pw) e w"
  shows "keeps qc qk (ledger_of (w_tables w)) (SignIn sv cy ttl nick pw) (outcome qc qk (SignIn sv cy ttl nick pw) e w)
    (ledger_of (w_tables (run_call qc qk (SignIn sv cy ttl nick pw) e w)))"
proof -
  let ?t = "w_tables w" and ?k = "ledger_of (w_tables w)"
  have h: "cy_Sum256 cy (cy_Text cy) \<notin> tr_hash ` set (t_tokens ?t)" using assms(3) by (simp add: unused_def)
  note run = Login_run[OF assms(1) h, of sv ttl nick pw]
  show ?thesis
  proof (cases "authenticates sv cy ?t nick pw")
    case None
    have "cy_Compare cy hash pw \<noteq> Match"
      if known: "NormalizeNickname sv nick = Inr n" "known_as ?k n i hash" "length pw \<le> MaxPasswordLen" for n i hash
    proof -
      obtain r where r: "r \<in> set (t_users ?t)" "ur_password_hash r = hash" "citext_key (ur_nickname r) = citext_key n"
        using known(2) known_as_ledger[OF assms(2)] by blast
      have inj: "inj_on (\<lambda>r. citext_key (ur_nickname r)) (set (t_users ?t))"
        using assms(2) by (simp add: schema_ok_def users_ok_def distinct_map)
      have one: "s = r" if "s \<in> set (t_users ?t)" "citext_key (ur_nickname s) = citext_key n" for s
        by (rule inj_onD[OF inj]) (use that r in simp_all)
      have "find (\<lambda>r. citext_key (ur_nickname r) = citext_key n) (t_users ?t) = Some r"
        by (rule find_unique) (use r one in blast)+
      then show ?thesis using None known(1,3) r(2) by (auto simp: authenticates_def split: if_splits)
    qed
    then have "keeps qc qk ?k (SignIn sv cy ttl nick pw) Denied ?k" by (intro keeps.sign_in_denied) blast
    then show ?thesis using run None by (simp add: outcome_def run_call_def)
  next
    case (Some r)
    then obtain n where n: "NormalizeNickname sv nick = Inr n" "find (\<lambda>r. citext_key (ur_nickname r) = citext_key n) (t_users ?t) = Some r"
      "length pw \<le> MaxPasswordLen" "cy_Compare cy (ur_password_hash r) pw = Match"
      by (auto simp: authenticates_def split: sum.splits option.splits if_splits)
    have "known_as ?k n (ur_id r) (ur_password_hash r)"
      using n(2) known_as_ledger[OF assms(2)] by (auto simp: find_Some_iff)
    from keeps.sign_in[OF n(1) this n(3,4)] show ?thesis
      using run Some h ledger_new_session[of "\<lparr>tr_hash = cy_Sum256 cy (cy_Text cy), tr_user_id = ur_id r,
          tr_expiry = (unix_nano (cy_Now cy) + ttl) div 1000\<rparr>" ?t]
      by (simp add: outcome_def run_call_def HashToken_def)
  qed
qed

lemma collections_keep:
  assumes "delivered e" "schema_ok (w_tables w)" "unused call e w"
    and "call \<in> {NewCollection i np, ChangeCollection i c up, DropCollection i c}"
  shows "keeps qc qk (ledger_of (w_tables w)) call (outcome qc qk call e w) (ledger_of (w_tables (run_call qc qk call e w)))"
proof -
  let ?t = "w_tables w" and ?k = "ledger_of (w_tables w)"
  have fresh: "\<And>n. pe_uuid e n \<notin> cr_id ` set (t_collections ?t)" using assms(3) by (simp add: unused_def)
  have "keeps qc qk ?k (NewCollection i np) (outcome qc qk (NewCollection i np) e w)
      (ledger_of (w_tables (run_call qc qk (NewCollection i np) e w)))"
  proof -
    note run = CreateCollection_run[OF assms(1) fresh, of qk i np]
    have c: "cr_id (new_row e w i np) \<notin> cr_id ` set (t_collections ?t)" using fresh by (simp add: new_row_def)
    have row: "shelf_row ?t (new_row e w i np) = \<lparr>lf_owner = i, lf_name = cp_Name np, lf_icon = cp_Icon np,
        lf_accent = cp_Accent np, lf_default = False, lf_colors = {}\<rparr>"
      using saved_fresh[OF assms(2) c] by (simp add: shelf_row_def new_row_def)
    have there: "ld_accounts ?k i \<noteq> None" if "i \<in> ur_id ` set (t_users ?t)" using that account_None by blast
    show ?thesis
    proof (cases "i \<in> ur_id ` set (t_users ?t)")
      case False
      then show ?thesis using run keeps.new_missing[of ?k i qc qk np] account_None[of ?t i]
        by (simp add: outcome_def run_call_def del: image_iff)
    next
      case True
      then show ?thesis
        using run keeps.new_shelf[OF there, of qk "cr_id (new_row e w i np)" qc np] keeps.new_no_room[OF there, of qk qc np]
          ledger_new_shelf[OF c] row c
        by (cases "qk \<le> int (length (collections_of i ?t))")
          (simp_all add: outcome_def run_call_def card_shelves[OF assms(2)] shelf_None del: image_iff)
    qed
  qed
  moreover have "keeps qc qk ?k (ChangeCollection i c up) (outcome qc qk (ChangeCollection i c up) e w)
      (ledger_of (w_tables (run_call qc qk (ChangeCollection i c up) e w)))"
  proof (cases "owns ?t i c")
    case False
    then show ?thesis
      using UpdateCollection_run[OF assms(1), of i c up w] not_owned[OF False] keeps.change_missing[of ?k i c qc qk up]
      by (simp add: outcome_def run_call_def update_rows_none shelf_of_None[OF assms(2)])
  next
    case True
    obtain r where r: "r \<in> set (t_collections ?t)" "cr_id r = c" "cr_user_id r = i"
      "\<And>k. k \<in> set (t_collections ?t) \<Longrightarrow> cr_id k = c \<Longrightarrow> k = r"
      "find (\<lambda>k. cr_id k = c \<and> cr_user_id k = i) (t_collections ?t) = Some r"
      using owned_row[OF assms(2) True] by blast
    have "shelf_of ?k i c = Some (shelf_row ?t r)" using shelf_of_ledger[OF assms(2)] r(1-3) by blast
    from keeps.change[OF this, of qc qk up] show ?thesis
      using UpdateCollection_run[OF assms(1), of i c up w] r(5) ledger_shelf_change[OF assms(2) r(1-3), of up]
      by (simp add: outcome_def run_call_def shelf_row_def update_row_def)
  qed
  moreover have "keeps qc qk ?k (DropCollection i c) (outcome qc qk (DropCollection i c) e w)
      (ledger_of (w_tables (run_call qc qk (DropCollection i c) e w)))"
  proof (cases "owns ?t i c")
    case False
    then show ?thesis
      using DeleteCollection_run[OF assms(1,2), of i c] keeps.drop_missing[of ?k i c qc qk]
      by (simp add: outcome_def run_call_def shelf_of_None[OF assms(2)])
  next
    case True
    obtain r where r: "r \<in> set (t_collections ?t)" "cr_id r = c" "cr_user_id r = i"
      "\<And>k. k \<in> set (t_collections ?t) \<Longrightarrow> cr_id k = c \<Longrightarrow> k = r"
      using owned_row[OF assms(2) True] by blast
    have s: "shelf_of ?k i c = Some (shelf_row ?t r)" using shelf_of_ledger[OF assms(2)] r(1-3) by blast
    have "(\<exists>k \<in> set (t_collections ?t). cr_id k = c \<and> cr_is_default k) = cr_is_default r"
      using r(1,2) r(4) by metis
    then have d: "(\<exists>k \<in> set (t_collections ?t). cr_id k = c \<and> cr_is_default k) = lf_default (shelf_row ?t r)"
      by (simp add: shelf_row_def)
    show ?thesis
      using DeleteCollection_run[OF assms(1,2), of i c] keeps.drop[OF s, of qc qk] keeps.drop_default[OF s, of qc qk]
        ledger_shelf_drop[OF assms(2), of c] True unfolding d
      by (cases "lf_default (shelf_row ?t r)") (simp_all add: outcome_def run_call_def)
  qed
  ultimately show ?thesis using assms(4) by blast
qed

lemma colors_keep:
  assumes "delivered e" "schema_ok (w_tables w)" "unused call e w"
    and "call \<in> {SaveColor i c h, DropColor i c h, DropAllColors i c}"
  shows "keeps qc qk (ledger_of (w_tables w)) call (outcome qc qk call e w) (ledger_of (w_tables (run_call qc qk call e w)))"
proof (cases "owns (w_tables w) i c")
  case False
  then have n: "shelf_of (ledger_of (w_tables w)) i c = None" using shelf_of_None[OF assms(2)] by blast
  from assms(4) consider "call = SaveColor i c h" | "call = DropColor i c h" | "call = DropAllColors i c" by blast
  then show ?thesis
  proof cases
    case 1
    then have "normal_hex h" using assms(3) by (simp add: unused_def)
    from AddColor_run[OF assms(1) this, of qc i c w] show ?thesis
      using 1 False keeps.save_missing[OF n, of qc qk h] by (simp add: outcome_def run_call_def)
  next
    case 2
    then show ?thesis
      using DeleteColor_run(1,2)[OF assms(1), of i c h w] False keeps.drop_color_missing[of "ledger_of (w_tables w)" i c h qc qk] n
      by (simp add: outcome_def run_call_def)
  next
    case 3
    then show ?thesis
      using DeleteColor_run(3,4)[OF assms(1), of i c w] False keeps.clear_missing[OF n, of qc qk]
      by (simp add: outcome_def run_call_def)
  qed
next
  case True
  let ?t = "w_tables w" and ?k = "ledger_of (w_tables w)"
  obtain r where r: "r \<in> set (t_collections ?t)" "cr_id r = c" "cr_user_id r = i"
    using True by (auto simp: owns_def)
  have s: "shelf_of ?k i c = Some (shelf_row ?t r)" using shelf_of_ledger[OF assms(2)] r by blast
  have colors: "lf_colors (shelf_row ?t r) = saved ?t c" using r(2) by (simp add: shelf_row_def)
  have put: "ledger_of (?t\<lparr>t_colors := xs\<rparr>) = put_shelf c ((shelf_row ?t r)\<lparr>lf_colors := saved (?t\<lparr>t_colors := xs\<rparr>) c\<rparr>) ?k"
    if "\<And>d. d \<noteq> c \<Longrightarrow> saved (?t\<lparr>t_colors := xs\<rparr>) d = saved ?t d" for xs
    using ledger_colors[OF assms(2) r(1), of xs] that r(2) by simp
  have "keeps qc qk ?k (SaveColor i c h) (outcome qc qk (SaveColor i c h) e w)
      (ledger_of (w_tables (run_call qc qk (SaveColor i c h) e w)))" if "normal_hex h"
  proof -
    let ?x = "\<lparr>xr_collection_id = c, xr_hex = h, xr_created_at = pe_clock e (w_round w), xr_color_key = Feel (pe_math e) h\<rparr>"
    have "saved (?t\<lparr>t_colors := t_colors ?t @ [?x]\<rparr>) d = (if d = c then insert h (saved ?t c) else saved ?t d)" for d
      by (auto simp: saved_def colors_of_def)
    then have p: "ledger_of (?t\<lparr>t_colors := t_colors ?t @ [?x]\<rparr>) = put_shelf c ((shelf_row ?t r)\<lparr>lf_colors := insert h (saved ?t c)\<rparr>) ?k"
      using put by simp
    show ?thesis
      using AddColor_run[OF assms(1) that, of qc i c w] True p keeps.save[OF s, of h qc qk]
        keeps.save_already[OF s, of h qc qk] keeps.save_no_room[OF s, of h qc qk]
      by (cases "h \<in> saved ?t c"; cases "qc \<le> int (length (colors_of c ?t))")
        (simp_all add: outcome_def run_call_def colors card_saved[OF assms(2)])
  qed
  moreover have "keeps qc qk ?k (DropColor i c h) (outcome qc qk (DropColor i c h) e w)
      (ledger_of (w_tables (run_call qc qk (DropColor i c h) e w)))"
  proof -
    let ?xs = "filter (\<lambda>r. \<not> (xr_collection_id r = c \<and> xr_hex r = h)) (t_colors ?t)"
    have sv: "saved (?t\<lparr>t_colors := ?xs\<rparr>) d = (if d = c then saved ?t c - {h} else saved ?t d)" for d
      by (auto simp: saved_def colors_of_def)
    then have p: "ledger_of (?t\<lparr>t_colors := ?xs\<rparr>) = put_shelf c ((shelf_row ?t r)\<lparr>lf_colors := saved ?t c - {h}\<rparr>) ?k"
      using put by simp
    have "(shelf_row ?t r)\<lparr>lf_colors := saved ?t c\<rparr> = shelf_row ?t r" using colors by simp
    then have "put_shelf c ((shelf_row ?t r)\<lparr>lf_colors := saved ?t c\<rparr>) ?k = ?k"
      using s by (auto simp: put_shelf_def shelf_of_def fun_upd_idem split: option.splits if_splits)
    then show ?thesis
      using DeleteColor_run(1,2)[OF assms(1), of i c h w] True p keeps.drop_color[OF s, of h qc qk]
        keeps.drop_color_missing[of ?k i c h qc qk] s
      by (cases "h \<in> saved ?t c") (simp_all add: outcome_def run_call_def colors del: de_Morgan_conj)
  qed
  moreover have "keeps qc qk ?k (DropAllColors i c) (outcome qc qk (DropAllColors i c) e w)
      (ledger_of (w_tables (run_call qc qk (DropAllColors i c) e w)))"
  proof -
    have "saved (?t\<lparr>t_colors := filter (\<lambda>r. xr_collection_id r \<noteq> c) (t_colors ?t)\<rparr>) d = (if d = c then {} else saved ?t d)" for d
      by (auto simp: saved_def colors_of_def)
    then have "ledger_of (?t\<lparr>t_colors := filter (\<lambda>r. xr_collection_id r \<noteq> c) (t_colors ?t)\<rparr>) =
        put_shelf c ((shelf_row ?t r)\<lparr>lf_colors := {}\<rparr>) ?k" using put by simp
    then show ?thesis using DeleteColor_run(3,4)[OF assms(1), of i c w] True keeps.clear[OF s, of qc qk]
      by (simp add: outcome_def run_call_def)
  qed
  ultimately show ?thesis using assms(3,4) by (auto simp: unused_def)
qed

interpretation same: session_rel "(=)"
  by unfold_locales auto

lemma reads_keep: "reads call \<Longrightarrow> w_tables (run_call qc qk call e w) = w_tables w"
  using same.reads_rel[symmetric] by (cases call) (simp_all add: reads_def run_call_def)

lemma reads_verdict:
  assumes "delivered e" "schema_ok (w_tables w)" "unused call e w" "reads call"
  shows "keeps qc qk (ledger_of (w_tables w)) call (outcome qc qk call e w) (ledger_of (w_tables w))"
proof -
  let ?t = "w_tables w" and ?k = "ledger_of (w_tables w)"
  have user: "verdict_of (fst (UserByID q i e v)) = (if ld_accounts ?k i = None then Missing else Granted)"
    if "w_tables v = ?t" for q i v
    using that by (auto simp: account_None UserByID_def sql_user_by_id_def send_ok[OF assms(1)] row_error_def
        find_None_iff find_Some_iff image_iff split: option.split)
  have shelf: "verdict_of (fst (CollectionByID Pool i c e w)) = (if shelf_of ?k i c = None then Missing else Granted)" for i c
    by (auto simp: shelf_of_None[OF assms(2)] CollectionByID_def sql_collection_def owns_def send_ok[OF assms(1)] row_error_def
        find_None_iff find_Some_iff split: option.split)
  show ?thesis
  proof (cases call)
    case (Account i)
    then show ?thesis using keeps.read_account[of qc qk ?k i] user by (simp add: outcome_def usersvc_UserByID_def)
  next
    case (Export i)
    have "verdict_of (fst (usersvc_ExportUser i e w)) = (if ld_accounts ?k i = None then Missing else Granted)"
      using InTx_delivered(1)[OF assms(1), of "export_user_tx i" w] user[of "w\<lparr>w_round := Suc (w_round w)\<rparr>" "Tx (pe_clock e (w_round w))" i]
      by (auto simp: usersvc_ExportUser_def export_user_tx_def ExportCollections_def sql_export_def send_ok[OF assms(1)]
          Let_def split: prod.split sum.split if_splits)
    then show ?thesis using Export keeps.read_export[of qc qk ?k i] by (simp add: outcome_def)
  next
    case (Collections i)
    then show ?thesis using keeps.read_shelves[of qc qk ?k i]
      by (simp add: outcome_def collectionsvc_ListCollections_def ListCollections_def sql_list_collections_def send_ok[OF assms(1)])
  next
    case (OneCollection i c)
    then show ?thesis using keeps.read_shelf[of qc qk ?k i c] shelf by (simp add: outcome_def collectionsvc_CollectionByID_def)
  next
    case (SavedColors i c p)
    have "valid_params p" using assms(3) SavedColors by (simp add: unused_def)
    then have "verdict_of (fst (colorsvc_ListColors i c p e w)) = (if shelf_of ?k i c = None then Missing else Granted)"
      using ListColors_granted[OF assms(1), of p c "w\<lparr>w_round := Suc (w_round w)\<rparr>"]
      by (auto simp: colorsvc_ListColors_def ResolveCollection_def resolve_delivered[OF assms(1)] shelf_of_None[OF assms(2)])
    then show ?thesis using SavedColors keeps.read_colors[of qc qk ?k i c p] by (simp add: outcome_def)
  next
    case (Authenticate h)
    show ?thesis
    proof (cases "find (\<lambda>r. tr_hash r = h \<and> tr_expiry r > pe_clock e (w_round w)) (t_tokens ?t)")
      case None
      then show ?thesis using Authenticate keeps.resolve_missing[of qc qk ?k h]
        by (simp add: outcome_def UserIDForTokenHash_delivered[OF assms(1)])
    next
      case (Some r)
      then have "h \<in> tr_hash ` set (t_tokens ?t)" by (auto simp: find_Some_iff)
      then obtain x where "ld_sessions ?k h = Some x" using session_None[of ?t h] by blast
      then show ?thesis using Some Authenticate keeps.resolve[of ?k h x qc qk]
        by (simp add: outcome_def UserIDForTokenHash_delivered[OF assms(1)])
    qed
  next
    case Probe
    then show ?thesis using keeps.probe[of qc qk ?k] by (simp add: outcome_def Ping_def send_ok[OF assms(1)] sql_unit_def)
  qed (use assms(4) in \<open>simp_all add: reads_def\<close>)
qed

section \<open>Lost round trips\<close>

text \<open>The same server, reached over a connection that loses nothing.\<close>

definition up :: "pg_env \<Rightarrow> pg_env" where
  "up e = e\<lparr>pe_link := (\<lambda>_. Delivered)\<rparr>"

lemma up_simps [simp]:
  "delivered (up e)" "pe_math (up e) = pe_math e" "pe_clock (up e) = pe_clock e" "pe_uuid (up e) = pe_uuid e"
  "pe_zone (up e) = pe_zone e" "now q (up e) w = now q e w" "scan_time (up e) = scan_time e"
  "scan_collection (up e) = scan_collection e" "scan_user (up e) = scan_user e" "unused call (up e) w = unused call e w"
  by (auto simp: up_def delivered_def now_def scan_time_def scan_collection_def scan_user_def unused_def fun_eq_iff
      split: querier.splits)

definition done_or_not :: "(pg_env \<Rightarrow> world \<Rightarrow> world) \<Rightarrow> pg_env \<Rightarrow> world \<Rightarrow> bool" where
  "done_or_not f e w \<longleftrightarrow> w_tables (f e w) = w_tables w \<or> w_tables (f e w) = w_tables (f (up e) w)"

definition steady :: "'a op \<Rightarrow> pg_env \<Rightarrow> bool" where
  "steady f e \<longleftrightarrow> (\<forall>w v w'. f e w = (Inr v, w') \<longrightarrow> f (up e) w = (Inr v, w'))"

lemma steady_send: "send e st w = (Inr v, w') \<Longrightarrow> send (up e) st w = (Inr v, w')"
  by (simp add: send_Inr_iff up_def)

lemma steadyD: "steady f e \<Longrightarrow> f e w = (Inr v, w') \<Longrightarrow> f (up e) w = (Inr v, w')"
  by (simp add: steady_def)

lemma steady_statements:
  "steady (resolveCollection q i c lock) e" "steady (CountColors q c) e" "steady (HasColor q c h) e"
  "steady (Storage.AddColor q c h) e" "steady (LockUser q i) e" "steady (CountCollections q i) e"
  "steady (CreateCollection q i p) e" "steady (CreateUser q u) e" "steady (CollectionByID q i c) e"
  "steady (UserByNickname q n) e"
  unfolding steady_def resolveCollection_def CountColors_def HasColor_def AddColor_def LockUser_def CountCollections_def
    CreateCollection_def CreateUser_def CollectionByID_def UserByNickname_def
  by (auto split: sum.splits prod.splits dest: steady_send)

lemma send_done_or_not: "done_or_not (\<lambda>e w. snd (send e st w)) e w"
  by (auto simp: done_or_not_def send_def up_def Let_def split: link.split)

lemma InTx_done_or_not:
  assumes "\<And>ts. steady (fn (Tx ts)) e"
  shows "done_or_not (\<lambda>e w. snd (InTx Pool fn e w)) e w"
proof -
  let ?ts = "pe_clock e (w_round w)"
  obtain r w1 where b: "send e sql_unit w = (r, w1)" by fastforce
  have t1: "w_tables w1 = w_tables w" using b send_unit_tables[of e w] by simp
  show ?thesis
  proof (cases r)
    case (Inl err)
    then show ?thesis using b t1 by (simp add: done_or_not_def InTx_def BeginFunc_def)
  next
    case (Inr u)
    then have b': "send (up e) sql_unit w = (Inr u, w1)" using b steady_send[of e sql_unit w u w1] by simp
    obtain r2 w2 where fn: "fn (Tx ?ts) e w1 = (r2, w2)" by fastforce
    show ?thesis
    proof (cases r2)
      case (Inl err)
      then show ?thesis using b Inr fn t1 by (simp add: done_or_not_def InTx_def BeginFunc_def)
    next
      case [simp]: (Inr v)
      have "fn (Tx ?ts) (up e) w1 = (Inr v, w2)" using steadyD[OF assms] fn by simp
      then show ?thesis using b b' \<open>r = Inr u\<close> fn t1
        by (auto simp: done_or_not_def InTx_def BeginFunc_def up_def split: link.split)
    qed
  qed
qed

lemma steady_bind:
  assumes "steady f e" "\<And>x. steady (g x) e"
  shows "steady (\<lambda>e w. case f e w of (Inl err, w1) \<Rightarrow> (Inl err, w1) | (Inr x, w1) \<Rightarrow> g x e w1) e"
  unfolding steady_def
proof (intro allI impI)
  fix w v w'
  assume run: "(case f e w of (Inl err, w1) \<Rightarrow> (Inl err, w1) | (Inr x, w1) \<Rightarrow> g x e w1) = (Inr v, w')"
  then obtain x w1 where "f e w = (Inr x, w1)" "g x e w1 = (Inr v, w')" by (auto split: prod.splits sum.splits)
  then show "(case f (up e) w of (Inl err, w1) \<Rightarrow> (Inl err, w1) | (Inr x, w1) \<Rightarrow> g x (up e) w1) = (Inr v, w')"
    using steadyD[OF assms(1)] steadyD[OF assms(2)] by simp
qed

lemma steady_if: "steady f e \<Longrightarrow> steady g e \<Longrightarrow> steady (\<lambda>e w. if c then f e w else g e w) e"
  by (simp add: steady_def)

lemma steady_value: "steady (\<lambda>e w. (r, w)) e"
  by (simp add: steady_def)

lemma steady_transactions:
  "steady (add_color_tx quota i c h q) e" "steady (create_collection_tx quota i p q) e" "steady (create_user_tx u q) e"
proof -
  note steady_rules = steady_bind steady_if steady_value steady_statements
  have "steady (\<lambda>e w. add_color_tx quota i c h q e w) e"
    unfolding add_color_tx_def LockCollection_def by (intro steady_rules)
  moreover have "steady (\<lambda>e w. create_collection_tx quota i p q e w) e"
    unfolding create_collection_tx_def by (intro steady_rules)
  moreover have "steady (\<lambda>e w. create_user_tx u q e w) e"
    unfolding create_user_tx_def by (intro steady_rules)
  ultimately show "steady (add_color_tx quota i c h q) e" "steady (create_collection_tx quota i p q) e"
    "steady (create_user_tx u q) e" by simp_all
qed

text \<open>A read whose answer decides whether one more statement is sent.\<close>

lemma read_then_done_or_not:
  assumes "steady f e" "w_tables (snd (f e w)) = w_tables w"
    and "\<And>x w1. f e w = (Inr x, w1) \<Longrightarrow> done_or_not (\<lambda>e w. snd (g x e w)) e w1"
  shows "done_or_not (\<lambda>e w. snd (case f e w of (Inl err, w1) \<Rightarrow> (Inl err, w1) | (Inr x, w1) \<Rightarrow> g x e w1)) e w"
proof -
  obtain r w1 where f: "f e w = (r, w1)" by fastforce
  have t: "w_tables w1 = w_tables w" using assms(2) f by simp
  show ?thesis
  proof (cases r)
    case (Inl err)
    then show ?thesis using f t by (simp add: done_or_not_def)
  next
    case (Inr x)
    then have "f (up e) w = (Inr x, w1)" using f steadyD[OF assms(1), of w x w1] by simp
    then show ?thesis using Inr f t assms(3)[of x w1] by (simp add: done_or_not_def)
  qed
qed

lemma login_done_or_not: "done_or_not (\<lambda>e w. snd (snd (Login sv cy ttl nick pw e w))) e w"
proof (cases "NormalizeNickname sv nick")
  case (Inl err)
  then show ?thesis by (simp add: done_or_not_def Login_def refuse_def)
next
  case (Inr n)
  obtain r w1 where f: "UserByNickname Pool n e w = (r, w1)" by fastforce
  have t: "w_tables w1 = w_tables w" using read_tables(1)[of Pool n e w] f by simp
  show ?thesis
  proof (cases r)
    case (Inl err)
    then show ?thesis using Inr f t by (simp add: done_or_not_def Login_def refuse_def)
  next
    case r: (Inr u)
    then have u: "UserByNickname Pool n (up e) w = (Inr u, w1)" using f steadyD[OF steady_statements(10), of Pool n e w u w1] by simp
    obtain m k where p: "PasswordMatches cy (user_PasswordHash u) pw 0 = (m, k)" by fastforce
    have "w_tables (snd (InsertToken Pool tok e w1)) = w_tables w1
        \<or> w_tables (snd (InsertToken Pool tok e w1)) = w_tables (snd (InsertToken Pool tok (up e) w1))" for tok
      using send_done_or_not unfolding done_or_not_def op_state .
    then show ?thesis using Inr f r u p t
      by (auto simp: done_or_not_def Login_def Let_def split: sum.splits prod.splits) (metis snd_conv)+
  qed
qed

lemma call_done_or_not: "done_or_not (run_call qc qk call) e w"
proof (cases "reads call")
  case True
  then show ?thesis by (simp add: done_or_not_def reads_keep)
next
  case False
  then show ?thesis
  proof (cases call)
    case (SignUp u)
    then show ?thesis using InTx_done_or_not[OF steady_transactions(3)] by (simp add: run_call_def usersvc_CreateUser_def done_or_not_def)
  next
    case (CloseAccount i)
    then show ?thesis using send_done_or_not[of "sql_delete_user i" e w]
      by (simp add: run_call_def usersvc_DeleteUser_def op_state done_or_not_def)
  next
    case (SignIn sv cy ttl nick pw)
    then show ?thesis using login_done_or_not by (simp add: run_call_def done_or_not_def)
  next
    case (SignOut h)
    then show ?thesis using send_done_or_not[of "sql_delete_token h" e w]
      by (simp add: run_call_def Logout_def op_state done_or_not_def)
  next
    case (NewCollection i p)
    then show ?thesis using InTx_done_or_not[OF steady_transactions(2)]
      by (simp add: run_call_def collectionsvc_CreateCollection_def done_or_not_def)
  next
    case (ChangeCollection i c p)
    then show ?thesis using send_done_or_not[of "sql_update_collection c i p" e w]
      by (simp add: run_call_def collectionsvc_UpdateCollection_def op_state done_or_not_def)
  next
    case (DropCollection i c)
    have "done_or_not (\<lambda>e w. snd (if col_IsDefault col then (Inl (Sentinel ErrDeleteDefault), w) else DeleteCollection Pool i c e w)) e w1"
      for col w1
      using send_done_or_not[of "sql_delete_collection c i" e w1] by (simp add: op_state done_or_not_def)
    from read_then_done_or_not[OF steady_statements(9) read_tables(7) this] show ?thesis
      using DropCollection by (simp add: run_call_def collectionsvc_DeleteCollection_def done_or_not_def)
  next
    case (SaveColor i c h)
    then show ?thesis using InTx_done_or_not[OF steady_transactions(1)]
      by (simp add: run_call_def colorsvc_AddColor_def done_or_not_def)
  next
    case (DropColor i c h)
    have "done_or_not (\<lambda>e w. snd (DeleteColor Pool owned h e w)) e w1" for owned w1
      using send_done_or_not[of "sql_delete_color owned h" e w1] by (simp add: op_state done_or_not_def)
    from read_then_done_or_not[OF steady_statements(1) read_tables(8) this] show ?thesis
      using DropColor by (simp add: run_call_def colorsvc_DeleteColor_def ResolveCollection_def done_or_not_def)
  next
    case (DropAllColors i c)
    have "done_or_not (\<lambda>e w. snd (DeleteAllColors Pool owned e w)) e w1" for owned w1
      using send_done_or_not[of "sql_delete_all_colors owned" e w1] by (simp add: op_state done_or_not_def)
    from read_then_done_or_not[OF steady_statements(1) read_tables(8) this] show ?thesis
      using DropAllColors by (simp add: run_call_def colorsvc_DeleteAllColors_def ResolveCollection_def done_or_not_def)
  qed (simp_all add: reads_def)
qed

lemma delivered_keeps:
  assumes "delivered e" "schema_ok (w_tables w)" "unused call e w"
  shows "keeps qc qk (ledger_of (w_tables w)) call (outcome qc qk call e w) (ledger_of (w_tables (run_call qc qk call e w)))"
proof (cases "reads call")
  case True
  then show ?thesis using reads_verdict[OF assms] reads_keep by simp
next
  case False
  then show ?thesis
    using accounts_keep[OF assms] sign_in_keeps[OF assms(1,2)] collections_keep[OF assms] colors_keep[OF assms] assms(3)
    by (cases call) (simp_all add: reads_def)
qed

text \<open>
  C3. The services keep the ledger they promise, whatever the network does.  Over a connection that
  delivers, a call answers and changes exactly as one step of the ledger for that call and that answer,
  on every branch.  When round trips are lost, whichever they are, the call has either changed nothing or
  done one whole step for that call: never half of a sign-up, a deletion without its sessions and
  colours, or a colour past the quota.
\<close>

theorem services_refine_ledger:
  assumes "schema_ok (w_tables w)" "unused call e w"
  shows "(delivered e \<longrightarrow> keeps qc qk (ledger_of (w_tables w)) call (outcome qc qk call e w)
        (ledger_of (w_tables (run_call qc qk call e w))))
    \<and> (w_tables (run_call qc qk call e w) = w_tables w
      \<or> (\<exists>v. keeps qc qk (ledger_of (w_tables w)) call v (ledger_of (w_tables (run_call qc qk call e w)))))"
proof -
  have "unused call (up e) w" using assms(2) by simp
  from delivered_keeps[OF up_simps(1) assms(1) this] show ?thesis
    using delivered_keeps[OF _ assms] call_done_or_not[of qc qk call e w] unfolding done_or_not_def by metis
qed

theorem services_refine_ledger_witness:
  "\<exists>v. keeps 5 10 (ledger_of (w_tables signed_up)) (SaveColor 1 2 ''#00ff7f'') v
      (ledger_of (w_tables (run_call 5 10 (SaveColor 1 2 ''#00ff7f'') (sample_env\<lparr>pe_uuid := (\<lambda>_. 9)\<rparr>) signed_up)))
    \<and> v = Granted"
proof -
  let ?e = "sample_env\<lparr>pe_uuid := (\<lambda>_. 9)\<rparr>" and ?call = "SaveColor 1 2 ''#00ff7f''"
  have d: "delivered ?e" by (simp add: delivered_def sample_env_def)
  have h: "normal_hex ''#00ff7f''" by (simp add: normal_hex_def HexLen_def is_hex_digit_def hex_digits_def)
  have u: "unused ?call ?e signed_up" using h by (simp add: unused_def signed_up_eval)
  have "outcome 5 10 ?call ?e signed_up = Granted"
    using AddColor_run(1)[OF d h, of 5 1 2 signed_up]
    by (simp add: outcome_def signed_up_eval owns_def saved_def colors_of_def)
  then show ?thesis using services_refine_ledger[OF signed_up_schema u, of 5 10] d by simp
qed

end
