(* ===== verification/Api_Ledger.thy ===== *)
theory Api_Ledger
  imports Api_Errors Ledger_Refinement
begin

text \<open>
  The HTTP API against the ledger of \<^verbatim>\<open>Ledger\<close>.  A second table, beside the one of \<^verbatim>\<open>routes.go\<close>, says
  what a request to each route asks for: a call, read off its path, its query and its body, or the
  error it is refused with.  The API does that call, as a step of the ledger, and answers with the
  status of its verdict.
\<close>

section \<open>The status of an answer\<close>

definition granted_status :: "svc_call \<Rightarrow> nat" where
  "granted_status call = (case call of
       SignUp _ \<Rightarrow> 201 | SignIn _ _ _ _ _ \<Rightarrow> 201 | NewCollection _ _ \<Rightarrow> 201 | SaveColor _ _ _ \<Rightarrow> 201
     | SignOut _ \<Rightarrow> 204 | CloseAccount _ \<Rightarrow> 204 | DropCollection _ _ \<Rightarrow> 204 | DropColor _ _ _ \<Rightarrow> 204
     | DropAllColors _ _ \<Rightarrow> 204 | _ \<Rightarrow> 200)"

definition status_of :: "svc_call \<Rightarrow> verdict \<Rightarrow> nat" where
  "status_of call v = (case v of
       Granted \<Rightarrow> granted_status call | Already \<Rightarrow> 200 | Missing \<Rightarrow> 404 | Taken \<Rightarrow> 409 | NoRoom \<Rightarrow> 409
     | Kept \<Rightarrow> 409 | Denied \<Rightarrow> 401 | Broken \<Rightarrow> 500)"

lemma errors_is_parent: "errors_is err ErrUserNotFound \<Longrightarrow> errors_is err ErrNotFound"
proof (induction err)
  case (Sentinel x)
  then show ?case by (cases x) auto
qed auto

lemma error_status: "rp_status (writeStorageError err) = status_of call (error_verdict err)"
  using errors_is_parent by (auto simp: writeStorageError_def error_verdict_def status_of_def)

lemma request_error_status: "400 \<le> rp_status (writeRequestError err)" "rp_status (writeRequestError err) < 500"
  by (simp_all add: writeRequestError_def)

section \<open>What a request asks for\<close>

type_synonym ask_result = "(go_error, svc_call) result"

datatype ask =
    Public
  | Entry "server_env \<Rightarrow> request \<Rightarrow> ask_result"
  | Session "server_env \<Rightarrow> request \<Rightarrow> bytes \<Rightarrow> user_id \<Rightarrow> ask_result"

definition and_then :: "('e, 'a) result \<Rightarrow> ('a \<Rightarrow> ('e, 'b) result) \<Rightarrow> ('e, 'b) result" where
  "and_then r f = (case r of Inl err \<Rightarrow> Inl err | Inr v \<Rightarrow> f v)"

definition ask_create_user :: "server_env \<Rightarrow> request \<Rightarrow> ask_result" where
  "ask_create_user s req =
    (and_then (hl_ReadCreateUser (se_lib s) req maxRequestBodyBytes) (\<lambda>data.
     and_then (NormalizeNickname (se_sv s) (cur_Nickname data)) (\<lambda>nickname.
     and_then (HashPassword (se_cy s) (cur_Password data)) (\<lambda>hash.
       Inr (SignUp (newUser nickname hash))))))"

definition ask_create_token :: "server_env \<Rightarrow> request \<Rightarrow> ask_result" where
  "ask_create_token s req =
    (and_then (hl_ReadCreateToken (se_lib s) req maxRequestBodyBytes) (\<lambda>data.
       Inr (SignIn (se_sv s) (se_cy s) (se_ttl s) (ctr_Nickname data) (ctr_Password data))))"

definition ask_delete_token :: "server_env \<Rightarrow> request \<Rightarrow> bytes \<Rightarrow> user_id \<Rightarrow> ask_result" where
  "ask_delete_token s req hash i =
    (Inr (SignOut hash))"

definition ask_me :: "server_env \<Rightarrow> request \<Rightarrow> bytes \<Rightarrow> user_id \<Rightarrow> ask_result" where
  "ask_me s req hash i =
    (Inr (Account i))"

definition ask_delete_me :: "server_env \<Rightarrow> request \<Rightarrow> bytes \<Rightarrow> user_id \<Rightarrow> ask_result" where
  "ask_delete_me s req hash i =
    (Inr (CloseAccount i))"

definition ask_export :: "server_env \<Rightarrow> request \<Rightarrow> bytes \<Rightarrow> user_id \<Rightarrow> ask_result" where
  "ask_export s req hash i =
    (Inr (Export i))"

definition ask_list_collections :: "server_env \<Rightarrow> request \<Rightarrow> bytes \<Rightarrow> user_id \<Rightarrow> ask_result" where
  "ask_list_collections s req hash i =
    (Inr (Collections i))"

definition ask_create_collection :: "server_env \<Rightarrow> request \<Rightarrow> bytes \<Rightarrow> user_id \<Rightarrow> ask_result" where
  "ask_create_collection s req hash i =
    (and_then (hl_ReadCreateCollection (se_lib s) req maxRequestBodyBytes) (\<lambda>data.
     and_then (createCollectionParams (se_sv s) data) (\<lambda>p. Inr (NewCollection i p))))"

definition ask_collection :: "server_env \<Rightarrow> request \<Rightarrow> bytes \<Rightarrow> user_id \<Rightarrow> ask_result" where
  "ask_collection s req hash i =
    (and_then (collectionIDFromPath s req) (\<lambda>c. Inr (OneCollection i c)))"

definition ask_update_collection :: "server_env \<Rightarrow> request \<Rightarrow> bytes \<Rightarrow> user_id \<Rightarrow> ask_result" where
  "ask_update_collection s req hash i =
    (and_then (collectionIDFromPath s req) (\<lambda>c.
     and_then (hl_ReadUpdateCollection (se_lib s) req maxRequestBodyBytes) (\<lambda>data.
     and_then (updateCollectionParams (se_sv s) data) (\<lambda>p. Inr (ChangeCollection i c p)))))"

definition ask_delete_collection :: "server_env \<Rightarrow> request \<Rightarrow> bytes \<Rightarrow> user_id \<Rightarrow> ask_result" where
  "ask_delete_collection s req hash i =
    (and_then (collectionIDFromPath s req) (\<lambda>c. Inr (DropCollection i c)))"

definition ask_list_colors :: "server_env \<Rightarrow> request \<Rightarrow> bytes \<Rightarrow> user_id \<Rightarrow> ask_result" where
  "ask_list_colors s req hash i =
    (and_then (collectionIDFromPath s req) (\<lambda>c.
     and_then (listColorsParams s req) (\<lambda>p. Inr (SavedColors i c p))))"

definition ask_add_color :: "server_env \<Rightarrow> request \<Rightarrow> bytes \<Rightarrow> user_id \<Rightarrow> ask_result" where
  "ask_add_color s req hash i =
    (and_then (collectionIDFromPath s req) (\<lambda>c.
     and_then (hl_ReadAddColor (se_lib s) req maxRequestBodyBytes) (\<lambda>data.
     and_then (NewHexSV (se_sv s) (acr_Hex data)) (\<lambda>hex. Inr (SaveColor i c hex)))))"

definition ask_delete_all_colors :: "server_env \<Rightarrow> request \<Rightarrow> bytes \<Rightarrow> user_id \<Rightarrow> ask_result" where
  "ask_delete_all_colors s req hash i =
    (and_then (collectionIDFromPath s req) (\<lambda>c. Inr (DropAllColors i c)))"

definition ask_delete_color :: "server_env \<Rightarrow> request \<Rightarrow> bytes \<Rightarrow> user_id \<Rightarrow> ask_result" where
  "ask_delete_color s req hash i =
    (and_then (collectionIDFromPath s req) (\<lambda>c.
     and_then (hexFromPath s req) (\<lambda>hex. Inr (DropColor i c hex))))"

lemmas ask_defs = ask_create_user_def ask_create_token_def ask_delete_token_def ask_me_def ask_delete_me_def
  ask_export_def ask_list_collections_def ask_create_collection_def ask_collection_def
  ask_update_collection_def ask_delete_collection_def ask_list_colors_def ask_add_color_def
  ask_delete_all_colors_def ask_delete_color_def

definition asks :: "(pattern \<times> ask) list" where
  "asks = map (\<lambda>(pat, a). (parsePattern pat, a))
     [(''GET /livez'', Public),
      (''GET /readyz'', Public),
      (''GET /api/v1/version'', Public),
      (''/'', Public),
      (''POST /api/v1/users'', Entry ask_create_user),
      (''POST /api/v1/tokens'', Entry ask_create_token),
      (''DELETE /api/v1/tokens'', Session ask_delete_token),
      (''GET /api/v1/me'', Session ask_me),
      (''DELETE /api/v1/me'', Session ask_delete_me),
      (''GET /api/v1/me/export'', Session ask_export),
      (''GET /api/v1/me/collections'', Session ask_list_collections),
      (''POST /api/v1/me/collections'', Session ask_create_collection),
      (''GET /api/v1/me/collections/{id}'', Session ask_collection),
      (''PATCH /api/v1/me/collections/{id}'', Session ask_update_collection),
      (''DELETE /api/v1/me/collections/{id}'', Session ask_delete_collection),
      (''GET /api/v1/me/collections/{id}/colors'', Session ask_list_colors),
      (''POST /api/v1/me/collections/{id}/colors'', Session ask_add_color),
      (''DELETE /api/v1/me/collections/{id}/colors'', Session ask_delete_all_colors),
      (''DELETE /api/v1/me/collections/{id}/colors/{hex}'', Session ask_delete_color),
      (''GET /api/v1/palettes/css'', Public),
      (''GET /api/v1/palettes/open-color'', Public),
      (''GET /api/v1/colors/{hex}/info'', Public),
      (''GET /api/v1/colors/{hex}/harmonies/{harmony}'', Public)]"

section \<open>Handlers\<close>

text \<open>A handler refuses what it is asked, or makes that call and answers with the status of its outcome.\<close>

fun follows :: "server_env \<Rightarrow> world \<Rightarrow> ask_result \<Rightarrow> reply \<times> world \<Rightarrow> bool" where
  "follows s w (Inl err) out = (out = (writeRequestError err, w))"
| "follows s w (Inr call) out = (unused call (se_pg s) w
     \<and> snd out = run_call (se_colorQuota s) (se_collectionQuota s) call (se_pg s) w
     \<and> rp_status (fst out) = status_of call (outcome (se_colorQuota s) (se_collectionQuota s) call (se_pg s) w))"

lemma follows_and_then:
  "follows s w (and_then r f) out = (case r of Inl err \<Rightarrow> out = (writeRequestError err, w) | Inr v \<Rightarrow> follows s w (f v) out)"
  by (simp add: and_then_def split: sum.split)

lemma follows_call:
  assumes "unused call (se_pg s) w"
    and "snd r = run_call (se_colorQuota s) (se_collectionQuota s) call (se_pg s) w"
    and "outcome (se_colorQuota s) (se_collectionQuota s) call (se_pg s) w = verdict_of (fst r)"
    and "\<And>v. fst r = Inr v \<Longrightarrow> rp_status (g v) = granted_status call"
  shows "follows s w (Inr call) (case r of (Inl err, w1) \<Rightarrow> (writeStorageError err, w1) | (Inr v, w1) \<Rightarrow> (g v, w1))"
proof -
  have "rp_status (case fst r of Inl err \<Rightarrow> writeStorageError err | Inr v \<Rightarrow> g v) = status_of call (verdict_of (fst r))"
    using assms(4) error_status[of _ call] by (auto simp: status_of_def split: sum.split)
  then show ?thesis using assms(1-3) by (simp add: reply_of_call)
qed

lemma healthy_unused:
  assumes "healthy cfg s w"
    and "case call of SignIn _ cy _ _ _ \<Rightarrow> cy = se_cy s | SaveColor _ _ h \<Rightarrow> normal_hex h
       | SavedColors _ _ p \<Rightarrow> valid_params p | _ \<Rightarrow> True"
  shows "unused call (se_pg s) w"
proof -
  have f: "fresh_ids (se_pg s) w" and h: "HashToken (se_cy s) (cy_Text (se_cy s)) \<notin> tr_hash ` set (t_tokens (w_tables w))"
    using assms(1) unfolding healthy_def by blast+
  have "\<forall>n. pe_uuid (se_pg s) n \<notin> cr_id ` set (t_collections (w_tables w))"
    "w_next_user_id w \<notin> ur_id ` set (t_users (w_tables w))"
    using f unfolding fresh_ids_def by (metis imageE)+
  moreover have "cy_Sum256 (se_cy s) (cy_Text (se_cy s)) \<notin> tr_hash ` set (t_tokens (w_tables w))"
    using h unfolding HashToken_def .
  ultimately show ?thesis using assms(2) by (cases call) (simp_all add: unused_def del: image_iff)
qed

lemmas follows_simps = follows_and_then run_call_def outcome_def granted_status_def ask_defs

definition agrees :: "handler_config \<Rightarrow> route \<Rightarrow> ask \<Rightarrow> bool" where
  "agrees cfg r a = (case (r, a) of
       (Open h, Public) \<Rightarrow> True
     | (BcryptLimited h, Entry f) \<Rightarrow> \<forall>s req w. healthy cfg s w \<longrightarrow> follows s w (f s req) (h s req w)
     | (Authed h, Session f) \<Rightarrow> \<forall>s req hash i w. healthy cfg s w \<and> rq_token_hash req = Some hash \<longrightarrow>
         follows s w (f s req hash i) (h s req i w)
     | _ \<Rightarrow> False)"

lemma agrees_intros:
  "agrees cfg (Open g) Public"
  "(\<And>s req w. healthy cfg s w \<Longrightarrow> follows s w (f s req) (h s req w)) \<Longrightarrow> agrees cfg (BcryptLimited h) (Entry f)"
  "(\<And>s req hash i w. healthy cfg s w \<Longrightarrow> rq_token_hash req = Some hash \<Longrightarrow> follows s w (k s req hash i) (q s req i w))
    \<Longrightarrow> agrees cfg (Authed q) (Session k)"
  by (simp_all add: agrees_def)

lemma HandleExport_follows:
  assumes "healthy cfg s w"
  shows "follows s w (Inr (Export i)) (HandleExport s req i w)"
  using healthy_unused[OF assms, of "Export i"] error_status[of _ "Export i"]
  by (auto simp: HandleExport_def follows_simps status_of_def Let_def split: prod.split sum.split)

lemma HandleCreateToken_follows:
  assumes "healthy cfg s w"
  shows "follows s w (Inr (SignIn (se_sv s) (se_cy s) (se_ttl s) nick pw))
    (case Login (se_sv s) (se_cy s) (se_ttl s) nick pw (se_pg s) w of
       (Inl err, _, w1) \<Rightarrow> (writeStorageError err, w1) | (Inr token, _, w1) \<Rightarrow> (WriteJSON 201 (g token), w1))"
  using healthy_unused[OF assms, of "SignIn (se_sv s) (se_cy s) (se_ttl s) nick pw"]
    error_status[of _ "SignIn (se_sv s) (se_cy s) (se_ttl s) nick pw"]
  by (auto simp: follows_simps status_of_def reply_of_login split: prod.split sum.split)

text \<open>A colour that was saved before is the one answer that is granted with another status.\<close>

lemma HandleAddColor_follows:
  assumes "healthy cfg s w" "normal_hex hex"
  shows "follows s w (Inr (SaveColor i c hex))
    (case colorsvc_AddColor (se_colorQuota s) i c hex (se_pg s) w of
       (Inl err, w1) \<Rightarrow> (writeStorageError err, w1)
     | (Inr created, w1) \<Rightarrow> (WriteJSON (if created then 201 else 200) (AddColorBody hex), w1))"
  using healthy_unused[OF assms(1), of "SaveColor i c hex"] assms(2) error_status[of _ "SaveColor i c hex"]
  by (auto simp: follows_simps status_of_def reply_of_call split: sum.split bool.split)

lemma entry_handlers_agree:
  "agrees cfg (BcryptLimited HandleCreateUser) (Entry ask_create_user)"
  "agrees cfg (BcryptLimited HandleCreateToken) (Entry ask_create_token)"
proof -
  show "agrees cfg (BcryptLimited HandleCreateUser) (Entry ask_create_user)"
    by (auto simp: HandleCreateUser_def follows_simps simp del: follows.simps split: sum.split
        intro!: agrees_intros follows_call healthy_unused)
  show "agrees cfg (BcryptLimited HandleCreateToken) (Entry ask_create_token)"
    by (auto simp: HandleCreateToken_def ask_defs follows_and_then simp del: follows.simps(2) split: sum.split
        intro!: agrees_intros HandleCreateToken_follows)
qed

text \<open>The handlers behind the auth wrapper, one at a time.\<close>

lemmas session_handler_defs = HandleDeleteToken_def TokenHashFromContext_def HandleGetMe_def HandleDeleteMe_def
  HandleListCollections_def HandleCreateCollection_def HandleGetCollection_def HandleUpdateCollection_def
  HandleDeleteCollection_def HandleListColors_def HandleDeleteAllColors_def HandleDeleteColor_def

lemma session_handlers_agree:
  "agrees cfg (Authed HandleDeleteToken) (Session ask_delete_token)"
  "agrees cfg (Authed HandleGetMe) (Session ask_me)"
  "agrees cfg (Authed HandleDeleteMe) (Session ask_delete_me)"
  "agrees cfg (Authed HandleListCollections) (Session ask_list_collections)"
  "agrees cfg (Authed HandleCreateCollection) (Session ask_create_collection)"
  "agrees cfg (Authed HandleGetCollection) (Session ask_collection)"
  "agrees cfg (Authed HandleUpdateCollection) (Session ask_update_collection)"
  "agrees cfg (Authed HandleDeleteCollection) (Session ask_delete_collection)"
  "agrees cfg (Authed HandleListColors) (Session ask_list_colors)"
  "agrees cfg (Authed HandleDeleteAllColors) (Session ask_delete_all_colors)"
  "agrees cfg (Authed HandleDeleteColor) (Session ask_delete_color)"
  by (auto simp: session_handler_defs follows_simps simp del: follows.simps split: sum.split
      intro!: agrees_intros follows_call healthy_unused listColorsParams_valid)+

lemma export_and_save_agree:
  "agrees cfg (Authed HandleExport) (Session ask_export)"
  "agrees cfg (Authed HandleAddColor) (Session ask_add_color)"
proof -
  show "agrees cfg (Authed HandleExport) (Session ask_export)"
    by (auto simp: ask_defs simp del: follows.simps(2) intro!: agrees_intros HandleExport_follows)
  show "agrees cfg (Authed HandleAddColor) (Session ask_add_color)"
    by (auto simp: HandleAddColor_def ask_defs follows_and_then simp del: follows.simps(2) split: sum.split
        intro!: agrees_intros HandleAddColor_follows NewHexSV_normal)
qed

lemma routes_agree: "list_all2 (\<lambda>(p, r) (q, a). p = q \<and> agrees cfg r a) (routes cfg) asks"
  unfolding routes_def asks_def list.map prod.case list.rel_inject
  by (intro conjI refl TrueI list.rel_intros(1) agrees_intros(1) entry_handlers_agree session_handlers_agree export_and_save_agree)

section \<open>The two tables route alike\<close>

definition same_entry :: "handler_config \<Rightarrow> (route \<times> (string \<times> string) list) \<Rightarrow> (ask \<times> (string \<times> string) list) \<Rightarrow> bool" where
  "same_entry cfg rb ab \<longleftrightarrow> agrees cfg (fst rb) (fst ab) \<and> snd rb = snd ab"

lemma findPattern_agree:
  "list_all2 (\<lambda>(p, r) (q, a). p = q \<and> agrees cfg r a) t u \<Longrightarrow>
   rel_option (same_entry cfg) (findPattern t m segs) (findPattern u m segs)"
  by (induction rule: list_all2_induct) (auto simp: same_entry_def split: option.split)

lemma rel_or_else:
  "rel_option R a b \<Longrightarrow> rel_option R c d \<Longrightarrow>
   rel_option R (case a of Some h \<Rightarrow> Some h | None \<Rightarrow> c) (case b of Some h \<Rightarrow> Some h | None \<Rightarrow> d)"
  by (cases a; cases b) auto

lemma ServeMux_agree: "rel_option (same_entry cfg) (ServeMux (routes cfg) req) (ServeMux asks req)"
  unfolding ServeMux_def Let_def
  by (intro rel_or_else findPattern_agree[OF routes_agree])
    (cases "rq_method req = ''HEAD''"; simp add: findPattern_agree[OF routes_agree])

section \<open>Requests\<close>

text \<open>The answer to what is asked: a refusal with nothing done, or a step of the ledger.\<close>

fun answered :: "handler_config \<Rightarrow> world \<Rightarrow> ask_result \<Rightarrow> reply \<times> world \<Rightarrow> bool" where
  "answered cfg w (Inl err) out = (w_tables (snd out) = w_tables w
     \<and> rp_status (fst out) = rp_status (writeRequestError err))"
| "answered cfg w (Inr call) out = (\<exists>v. rp_status (fst out) = status_of call v
     \<and> keeps (hc_UserColorQuota cfg) (hc_UserCollectionQuota cfg) (ledger_of (w_tables w)) call v
         (ledger_of (w_tables (snd out))))"

definition promised :: "handler_config \<Rightarrow> admission \<Rightarrow> server_env \<Rightarrow> request \<Rightarrow> world \<Rightarrow> reply \<times> world \<Rightarrow> bool" where
  "promised cfg adm s req w out =
     (case ServeMux asks req of
        None \<Rightarrow> rp_status (fst out) = 404 \<and> w_tables (snd out) = w_tables w
      | Some (Public, _) \<Rightarrow> w_tables (snd out) = w_tables w
      | Some (Entry f, binds) \<Rightarrow>
          if hc_AuthConcurLimit cfg > 0 \<and> adm \<noteq> Slot
          then w_tables (snd out) = w_tables w \<and> (adm = NoSlot \<longrightarrow> rp_status (fst out) = 429)
          else answered cfg w (f (configured cfg s) (req\<lparr>rq_PathValue := PathValue binds\<rparr>)) out
      | Some (Session f, binds) \<Rightarrow>
          (case session s req w of
             None \<Rightarrow> rp_status (fst out) = 401 \<and> w_tables (snd out) = w_tables w
           | Some (hash, i) \<Rightarrow> answered cfg w
               (f (configured cfg s) (ContextWithTokenHash hash (req\<lparr>rq_PathValue := PathValue binds\<rparr>)) hash i) out))"

lemma follows_answered:
  assumes "healthy cfg s v" "follows (configured cfg s) v a out" "w_tables v = w_tables w"
  shows "answered cfg w a out"
proof (cases a)
  case (Inl err)
  then show ?thesis using assms(2,3) by simp
next
  case (Inr call)
  have "delivered (se_pg s)" "schema_ok (w_tables v)" using assms(1) unfolding healthy_def by blast+
  then have "keeps (hc_UserColorQuota cfg) (hc_UserCollectionQuota cfg) (ledger_of (w_tables v)) call
      (outcome (hc_UserColorQuota cfg) (hc_UserCollectionQuota cfg) call (se_pg s) v) (ledger_of (w_tables (snd out)))"
    using delivered_keeps assms(2) Inr by simp
  then show ?thesis using assms(2,3) Inr by auto
qed

text \<open>Behind the auth wrapper.\<close>

lemma authenticate_answered:
  assumes "healthy cfg s w" "agrees cfg (Authed h) (Session f)"
  shows "case session s req w of
     None \<Rightarrow> rp_status (fst (authenticate h (configured cfg s) req w)) = 401
       \<and> w_tables (snd (authenticate h (configured cfg s) req w)) = w_tables w
   | Some (hash, i) \<Rightarrow> answered cfg w (f (configured cfg s) (ContextWithTokenHash hash req) hash i)
       (authenticate h (configured cfg s) req w)"
proof (cases "session s req w")
  case None
  have d: "delivered (se_pg s)" using assms(1) unfolding healthy_def by blast
  show ?thesis
    using None by (auto simp: authenticate_bearer session_def UserIDForTokenHash_delivered[OF d] split: option.splits)
next
  case (Some hi)
  obtain hash i where hi: "hi = (hash, i)" by fastforce
  let ?w1 = "w\<lparr>w_round := Suc (w_round w)\<rparr>" and ?rq = "ContextWithTokenHash hash req"
  have d: "delivered (se_pg s)" using assms(1) unfolding healthy_def by blast
  have h: "healthy cfg s ?w1" by (rule healthy_round[OF assms(1)])
  have "follows (configured cfg s) ?w1 (f (configured cfg s) ?rq hash i) (h (configured cfg s) ?rq i ?w1)"
    using assms(2) h by (simp add: agrees_def ContextWithTokenHash_def)
  then have "answered cfg w (f (configured cfg s) ?rq hash i) (h (configured cfg s) ?rq i ?w1)"
    by (rule follows_answered[OF h]) simp
  moreover have "authenticate h (configured cfg s) req w =
      (case h (configured cfg s) ?rq i ?w1 of (r, w2) \<Rightarrow> (with_header ''Vary'' ''Authorization'' r, w2))"
    using Some hi
    by (auto simp: authenticate_bearer session_def UserIDForTokenHash_delivered[OF d] split: option.splits)
  ultimately show ?thesis
    using Some hi by (cases "f (configured cfg s) ?rq hash i") (auto split: prod.split)
qed

lemma open_unchanged:
  assumes "ServeMux (routes cfg) req = Some (Open h, binds)"
  shows "w_tables (snd (newMux cfg adm s req w)) = w_tables w"
proof -
  obtain calls where "snd (newMux cfg adm s req w) = run_calls (configured cfg s) calls w"
    "\<forall>call \<in> set calls. permitted cfg s req w call" using newMux_calls by blast
  then show ?thesis using assms reading_calls[of calls] by (simp add: permitted_def)
qed

text \<open>
  C4. The API refines the ledger.  What a request asks for is read off its route, path, query and body
  alone.  If that fails, the request is refused with the status of the parse error and nothing is
  done.  Otherwise, while the database answers, exactly that call is made, for the account of the
  request's token, as one step of the ledger, and the status is that of the step's verdict: 201 for
  what was created, 204 for what was removed, 200 for what was read, changed or there already, and
  404, 409 or 401 for a step that leaves the ledger as it is.  Without a token that resolves the answer
  is 401, without a slot 429, and nothing is done; a public route changes nothing.
\<close>

theorem api_refines_ledger:
  assumes "healthy cfg s w"
  shows "promised cfg adm s req w (newMux cfg adm s req w)"
proof (cases "ServeMux (routes cfg) req")
  case None
  then have "ServeMux asks req = None" using ServeMux_agree[of cfg req] by simp
  then show ?thesis using None by (simp add: promised_def newMux_def)
next
  case (Some rb)
  then obtain r a binds where r: "ServeMux (routes cfg) req = Some (r, binds)" "ServeMux asks req = Some (a, binds)" "agrees cfg r a"
    using ServeMux_agree[of cfg req] by (cases rb; cases "ServeMux asks req") (auto simp: same_entry_def)
  let ?s = "configured cfg s" and ?req = "req\<lparr>rq_PathValue := PathValue binds\<rparr>"
  have m: "newMux cfg adm s req w = run_route cfg adm r ?s ?req w" using r(1) by (simp add: newMux_def)
  show ?thesis
  proof (cases a)
    case Public
    then obtain h where "r = Open h" using r(3) by (auto simp: agrees_def split: route.splits)
    then show ?thesis using open_unchanged r Public by (simp add: promised_def)
  next
    case (Entry f)
    then obtain h where h: "r = BcryptLimited h" using r(3) by (auto simp: agrees_def split: route.splits)
    have "follows ?s w (f ?s ?req) (h ?s ?req w)" using r(3) h Entry assms by (simp add: agrees_def)
    then have "answered cfg w (f ?s ?req) (h ?s ?req w)" using follows_answered[OF assms] by blast
    then show ?thesis
      using Entry r(2) h by (simp add: promised_def m run_route_def limitConcurrent_def split: admission.split)
  next
    case (Session f)
    then obtain h where h: "r = Authed h" using r(3) by (auto simp: agrees_def split: route.splits)
    then show ?thesis
      using authenticate_answered[OF assms, of h f ?req] Session r(2,3)
      by (simp add: promised_def m run_route_def split: option.splits prod.splits)
  qed
qed

theorem api_refines_ledger_witness:
  "\<exists>v. rp_status (fst (newMux sample_cfg Slot live_server (sample_request ''DELETE'' ''/api/v1/me'' [''Bearer secret'']) logged_in))
       = status_of (CloseAccount 1) v
     \<and> keeps 5 2 (ledger_of (w_tables logged_in)) (CloseAccount 1) v
         (ledger_of (w_tables (snd (newMux sample_cfg Slot live_server
           (sample_request ''DELETE'' ''/api/v1/me'' [''Bearer secret'']) logged_in))))"
proof -
  let ?req = "sample_request ''DELETE'' ''/api/v1/me'' [''Bearer secret'']"
  have route: "ServeMux asks ?req = Some (Session ask_delete_me, [])"
    unfolding asks_def list.map prod.case parsePattern_def parsePath_def parseSegment_def
    by (simp add: ServeMux_def matchPattern_def pathSegments_def sample_request_def)
  have "session live_server ?req logged_in = Some (''terces'', 1)"
    using sample_delivered
    by (simp add: session_def bearer_def CutPrefix_def Header_Get_def sample_request_def bearerPrefix_def
        bearerScheme_def HashToken_def UserIDForTokenHash_delivered live_server_def logged_in_def signed_up_eval
        delivered_def)
  then show ?thesis
    using api_refines_ledger[OF live_healthy, of Slot ?req] route
    by (simp add: promised_def ask_delete_me_def sample_cfg_def)
qed

end
