(* ===== verification/Session_End.thy ===== *)
theory Session_End
  imports Api_Contracts
begin

text \<open>
  The end of a session.  A logout, and the deletion of the account, remove the token's row; no request
  whatever brings a row with that hash back, because only signing in inserts one, for a token just
  drawn.  So the token stays refused, whoever sends what in the meantime.
\<close>

section \<open>A hash that is gone stays gone\<close>

definition stored :: "bytes \<Rightarrow> tables \<Rightarrow> bool" where
  "stored hash t \<longleftrightarrow> hash \<in> tr_hash ` set (t_tokens t)"

definition stays_gone :: "bytes \<Rightarrow> tables \<Rightarrow> tables \<Rightarrow> bool" where
  "stays_gone hash t t' \<longleftrightarrow> (\<not> stored hash t \<longrightarrow> \<not> stored hash t')"

interpretation gone: session_rel "stays_gone hash" for hash
  by unfold_locales (auto simp: stays_gone_def)

lemma gone_statements:
  "stmt_in (stays_gone hash) (sql_delete_user i)"
  "stmt_in (stays_gone hash) (sql_delete_token th)"
  "stmt_in (stays_gone hash) (sql_insert_collection new ts i p)"
  "stmt_in (stays_gone hash) (sql_update_collection c i up)"
  "stmt_in (stays_gone hash) (sql_delete_collection c i)"
  "stmt_in (stays_gone hash) (sql_insert_color c h key ts)"
  "stmt_in (stays_gone hash) (sql_delete_color c h)"
  "stmt_in (stays_gone hash) (sql_delete_all_colors c)"
  "th \<noteq> hash \<Longrightarrow> stmt_in (stays_gone hash) (sql_insert_token th i x)"
  by (auto simp: stmt_in_def stays_gone_def stored_def sql_delete_user_def cascade_user_def sql_insert_token_def
      sql_delete_token_def sql_insert_collection_def sql_update_collection_def sql_delete_collection_def
      sql_insert_color_def sql_delete_color_def sql_delete_all_colors_def Let_def split: option.splits)

lemma CreateUser_gone: "stays_gone hash (w_tables w) (w_tables (snd (usersvc_CreateUser u e w)))"
  unfolding usersvc_CreateUser_def
proof (rule gone.InTx_rel)
  fix ts w1 v w2
  assume tx: "create_user_tx u (Tx ts) e w1 = (Inr v, w2)" and w1: "w_tables w1 = w_tables w"
  obtain w3 c where u: "CreateUser (Tx ts) u e w1 = (Inr v, w3)"
    and c: "CreateCollection (Tx ts) (user_ID v) \<lparr>cp_Name = DefCollectionName, cp_Icon = DefIconSlug,
       cp_Accent = DefIconAccent, cp_IsDefault = True\<rparr> e w3 = (Inr c, w2)"
    using create_user_tx_Inr[OF tx] by blast
  show "stays_gone hash (w_tables w) (w_tables w2)"
    using CreateUser_Inr(4)[OF u] CreateCollection_Inr(4)[OF c] w1 by (simp add: stays_gone_def stored_def)
qed

definition signs_in :: "svc_call \<Rightarrow> bool" where
  "signs_in call \<longleftrightarrow> (case call of SignIn _ _ _ _ _ \<Rightarrow> True | _ \<Rightarrow> False)"

lemma run_call_gone:
  assumes "\<not> signs_in call"
  shows "stays_gone hash (w_tables w) (w_tables (run_call qc qk call e w))"
proof (cases call)
  case (SaveColor i c h)
  then show ?thesis using gone_statements(6)[of hash] by (simp add: run_call_def stmt_in_def gone.AddColor_rel)
next
  case (NewCollection i p)
  then show ?thesis using gone_statements(3)[of hash] by (simp add: run_call_def stmt_in_def gone.CreateCollection_rel)
next
  case (DropCollection i c)
  show ?thesis
    unfolding DropCollection run_call_def svc_call.case collectionsvc_DeleteCollection_def
    by (rule gone.then_rel) (use gone.write_rel(6)[OF gone_statements(5)] in \<open>auto simp: gone.refl\<close>)
next
  case (DropColor i c h)
  then show ?thesis
    by (auto simp: run_call_def colorsvc_DeleteColor_def intro!: gone.owned_rel gone.write_rel(8)[OF gone_statements(7)])
next
  case (DropAllColors i c)
  then show ?thesis
    by (auto simp: run_call_def colorsvc_DeleteAllColors_def intro!: gone.owned_rel gone.write_rel(9)[OF gone_statements(8)])
qed (use assms in \<open>auto simp: run_call_def signs_in_def usersvc_DeleteUser_def Logout_def collectionsvc_UpdateCollection_def
    intro: CreateUser_gone gone.reads_rel gone.refl gone.write_rel(3)[OF gone_statements(1)]
      gone.write_rel(2)[OF gone_statements(2)] gone.write_rel(5)[OF gone_statements(4)]\<close>)

lemma run_calls_gone:
  "\<forall>call \<in> set calls. \<not> signs_in call \<Longrightarrow> stays_gone hash (w_tables w) (w_tables (run_calls s calls w))"
proof (induction calls arbitrary: w)
  case Nil
  then show ?case by (simp add: gone.refl)
next
  case (Cons call calls)
  then show ?case
    using run_call_gone[of call hash w "se_colorQuota s" "se_collectionQuota s" "se_pg s"] gone.trans by fastforce
qed

section \<open>Requests\<close>

text \<open>The hash of the token that the server would draw next.\<close>

definition next_hash :: "server_env \<Rightarrow> bytes" where
  "next_hash s = HashToken (se_cy s) (cy_Text (se_cy s))"

lemma entry_handlers_gone:
  "stays_gone hash (w_tables w) (w_tables (snd (HandleCreateUser s req w)))"
  "next_hash s \<noteq> hash \<Longrightarrow> stays_gone hash (w_tables w) (w_tables (snd (HandleCreateToken s req w)))"
proof -
  show "stays_gone hash (w_tables w) (w_tables (snd (HandleCreateUser s req w)))"
    by (auto simp: HandleCreateUser_def reply_of_call gone.refl CreateUser_gone split: sum.split)
  assume "next_hash s \<noteq> hash"
  then have "stays_gone hash (w_tables w) (w_tables (snd (snd (Login sv (se_cy s) ttl nick pw e w))))" for sv ttl nick pw e
    by (intro gone.Login_rel gone_statements(9)) (simp add: next_hash_def)
  then show "stays_gone hash (w_tables w) (w_tables (snd (HandleCreateToken s req w)))"
    by (auto simp: HandleCreateToken_def reply_of_login gone.refl split: sum.split)
qed

lemma request_gone:
  assumes "next_hash s \<noteq> hash"
  shows "stays_gone hash (w_tables w) (w_tables (snd (newMux cfg adm s req w)))"
proof (cases "ServeMux (routes cfg) req")
  case None
  then show ?thesis by (simp add: newMux_def gone.refl)
next
  case (Some rb)
  obtain r binds where rb: "rb = (r, binds)" by fastforce
  obtain calls where c: "snd (newMux cfg adm s req w) = run_calls (configured cfg s) calls w"
    "\<forall>call \<in> set calls. permitted cfg s req w call"
    using newMux_calls by blast
  show ?thesis
  proof (cases r)
    case (BcryptLimited h)
    obtain p where "(p, BcryptLimited h) \<in> set (routes cfg)"
      using ServeMux_in[OF Some[unfolded rb]] BcryptLimited by auto
    then have "h = HandleCreateUser \<or> h = HandleCreateToken" using limited_routes by blast
    moreover have "next_hash (configured cfg s) \<noteq> hash" using assms by (simp add: next_hash_def)
    ultimately have "stays_gone hash (w_tables w) (w_tables (snd (h (configured cfg s) (req\<lparr>rq_PathValue := PathValue binds\<rparr>) w)))"
      using entry_handlers_gone by blast
    then show ?thesis
      using BcryptLimited Some rb
      by (auto simp: newMux_def run_route_def limitConcurrent_def gone.refl split: admission.split)
  next
    case (Open h)
    then have "\<forall>call \<in> set calls. \<not> signs_in call" using c(2) Some rb by (auto simp: permitted_def signs_in_def)
    then show ?thesis using run_calls_gone c(1) by simp
  next
    case (Authed h)
    then have "\<forall>call \<in> set calls. \<not> signs_in call"
      using c(2) Some rb by (auto simp: permitted_def signs_in_def of_session_def acts_for_def split: svc_call.splits)
    then show ?thesis using run_calls_gone c(1) by simp
  qed
qed

text \<open>
  A request as the server meets it: its configuration, the semaphore's decision, the surroundings of
  the moment (the connection, the random source, the clock) and the request itself.
\<close>

record exchange =
  ex_cfg :: handler_config
  ex_adm :: admission
  ex_server :: server_env
  ex_request :: request

definition serve_all :: "exchange list \<Rightarrow> world \<Rightarrow> world" where
  "serve_all xs w = fold (\<lambda>x w. snd (newMux (ex_cfg x) (ex_adm x) (ex_server x) (ex_request x) w)) xs w"

lemma serve_all_gone:
  "\<forall>x \<in> set xs. next_hash (ex_server x) \<noteq> hash \<Longrightarrow> \<not> stored hash (w_tables w)
    \<Longrightarrow> \<not> stored hash (w_tables (serve_all xs w))"
proof (induction xs arbitrary: w)
  case Nil
  then show ?case by (simp add: serve_all_def)
next
  case (Cons x xs)
  let ?w = "snd (newMux (ex_cfg x) (ex_adm x) (ex_server x) (ex_request x) w)"
  have "\<not> stored hash (w_tables ?w)"
    using request_gone[of "ex_server x" hash w "ex_cfg x" "ex_adm x" "ex_request x"] Cons.prems
    by (simp add: stays_gone_def)
  then show ?case using Cons.IH[of ?w] Cons.prems(1) by (simp add: serve_all_def)
qed

section \<open>Logging out\<close>

definition ends_session :: "request \<Rightarrow> bool" where
  "ends_session req \<longleftrightarrow> rq_method req = ''DELETE'' \<and>
     pathSegments (rq_path req) \<in> {[''api'', ''v1'', ''tokens''], [''api'', ''v1'', ''me'']}"

lemma ends_session_route:
  assumes "ends_session req"
  obtains h where "ServeMux (routes cfg) req = Some (Authed h, [])" "h = HandleDeleteMe \<or> h = HandleDeleteToken"
  using assms by (auto simp: ends_session_def ServeMux_def routes_eval matchPattern_def Let_def)

lemma logout_drops_token:
  assumes "h = HandleDeleteMe \<or> h = HandleDeleteToken"
    and "session s req w = Some (hash, i)" "schema_ok (w_tables w)" "delivered (se_pg s)"
  shows "rp_status (fst (authenticate h s req w)) = 204 \<and> \<not> stored hash (w_tables (snd (authenticate h s req w)))"
proof -
  obtain t where t: "bearer req = Some t" "hash = HashToken (se_cy s) t"
    using assms(2) by (auto simp: session_def split: option.splits sum.splits)
  obtain w0 where u: "UserIDForTokenHash Pool hash (se_pg s) w = (Inr i, w0)"
    using assms(2) t by (cases "UserIDForTokenHash Pool hash (se_pg s) w") (auto simp: session_def split: sum.splits)
  have w0: "w_tables w0 = w_tables w" using read_tables(4)[of Pool hash "se_pg s" w] u by simp
  obtain r0 where r0: "r0 \<in> set (t_tokens (w_tables w))" "tr_hash r0 = hash" "tr_user_id r0 = i"
    using session_token[OF assms(2)] by blast
  have "distinct (map tr_hash (t_tokens (w_tables w)))" and
    fk: "tr_user_id ` set (t_tokens (w_tables w)) \<subseteq> ur_id ` set (t_users (w_tables w))"
    using assms(3) by (simp_all add: schema_ok_def tokens_ok_def)
  then have only: "\<forall>r \<in> set (t_tokens (w_tables w)). tr_hash r = hash \<longrightarrow> tr_user_id r = i"
    using r0 by (auto simp: distinct_map inj_on_def)
  have user: "\<exists>r \<in> set (t_users (w_tables w)). ur_id r = i" using fk r0 by force
  let ?h = "h s (ContextWithTokenHash hash req) i w0"
  have "rp_status (fst ?h) = 204 \<and> (\<forall>r \<in> set (t_tokens (w_tables (snd ?h))). tr_hash r \<noteq> hash)"
    using assms(1)
  proof
    assume "h = HandleDeleteToken"
    then show ?thesis
      using assms(4) by (simp add: HandleDeleteToken_def TokenHashFromContext_def ContextWithTokenHash_def
          Logout_def DeleteToken_def send_ok sql_delete_token_def NoContent_def Let_def)
  next
    assume "h = HandleDeleteMe"
    moreover have "filter (\<lambda>r. ur_id r = i) (t_users (w_tables w)) \<noteq> []"
      using user by (simp add: filter_empty_conv)
    ultimately show ?thesis
      using assms(4) only w0
      by (auto simp: HandleDeleteMe_def usersvc_DeleteUser_def DeleteUser_def send_ok sql_delete_user_def
          cascade_user_def NoContent_def Let_def)
  qed
  then show ?thesis using t u by (auto simp: authenticate_bearer with_header_def stored_def split: prod.split)
qed

text \<open>A token without a row.\<close>

lemma unknown_token_refused:
  assumes "bearer req = Some t" "\<not> stored (HashToken (se_cy s) t) (w_tables w)"
  shows "case authenticate h s req w of (r, w') \<Rightarrow> w_tables w' = w_tables w
    \<and> (if pe_link (se_pg s) (w_round w) = Delivered then r = with_header ''Vary'' ''Authorization'' unauthorized
       else rp_status r = 500)"
proof -
  have "find (\<lambda>r. tr_hash r = HashToken (se_cy s) t \<and> tr_expiry r > x) (t_tokens (w_tables w)) = None" for x
    using assms(2) by (force simp: find_None_iff stored_def)
  then show ?thesis
    using assms(1)
    by (auto simp: authenticate_bearer UserIDForTokenHash_def send_def sql_user_for_token_def row_error_def Let_def
        with_header_def WriteError_def split: link.split)
qed

text \<open>
  C22. A session ends for good.  A logout, or the deletion of the account, is answered with 204.  After it,
  whatever requests the server takes one after another, sign-ups, sign-ins and lost connections
  included, so long as no sign-in draws a token with that very hash: every request that carries the
  token to a route behind the auth wrapper is refused with 401, or with 500 if the database cannot be
  asked, and changes nothing.
\<close>

theorem session_ends:
  assumes "ends_session req" "session s req w = Some (hash, i)" "schema_ok (w_tables w)" "delivered (se_pg s)"
    and "\<forall>x \<in> set later. next_hash (ex_server x) \<noteq> hash"
    and "ServeMux (routes cfg') req' = Some (Authed h, binds)" "bearer req' = bearer req"
    and "HashToken (se_cy s') = HashToken (se_cy s)"
  shows "case newMux cfg adm s req w of (r, w1) \<Rightarrow> rp_status r = 204 \<and>
    (let w2 = serve_all later w1 in
     case newMux cfg' adm' s' req' w2 of (r', w3) \<Rightarrow> w_tables w3 = w_tables w2
       \<and> (if pe_link (se_pg s') (w_round w2) = Delivered then r' = with_header ''Vary'' ''Authorization'' unauthorized
          else rp_status r' = 500))"
proof -
  obtain h0 where h0: "ServeMux (routes cfg) req = Some (Authed h0, [])" "h0 = HandleDeleteMe \<or> h0 = HandleDeleteToken"
    using ends_session_route[OF assms(1), of cfg] by blast
  obtain t where t: "bearer req = Some t" "hash = HashToken (se_cy s) t"
    using assms(2) by (auto simp: session_def split: option.splits sum.splits)
  let ?first = "authenticate h0 (configured cfg s) (req\<lparr>rq_PathValue := PathValue []\<rparr>) w"
  have m: "newMux cfg adm s req w = ?first" by (simp add: newMux_def h0(1) run_route_def)
  have out: "rp_status (fst ?first) = 204" "\<not> stored hash (w_tables (snd ?first))"
    using logout_drops_token[OF h0(2), of "configured cfg s" "req\<lparr>rq_PathValue := PathValue []\<rparr>" w hash i] assms(2-4) by simp_all
  let ?w2 = "serve_all later (snd ?first)"
  have "\<not> stored (HashToken (se_cy (configured cfg' s')) t) (w_tables ?w2)"
    using serve_all_gone[OF assms(5) out(2)] assms(8) t(2) by simp
  then show ?thesis
    using out(1) unknown_token_refused[of "req'\<lparr>rq_PathValue := PathValue binds\<rparr>" t "configured cfg' s'" ?w2 h] t(1) assms(6,7)
    by (auto simp: m newMux_def[of cfg'] run_route_def Let_def split: prod.split)
qed

theorem session_ends_witness:
  "let out = sample_request ''DELETE'' ''/api/v1/tokens'' [''Bearer secret''];
       again = \<lparr>ex_cfg = sample_cfg, ex_adm = Slot,
         ex_server = sample_server\<lparr>se_cy := sample_crypto\<lparr>cy_Text := ''another''\<rparr>\<rparr>,
         ex_request = sample_request ''POST'' ''/api/v1/tokens'' []\<rparr>;
       w = serve_all [again] (snd (newMux sample_cfg Slot sample_server out logged_in)) in
   rp_status (fst (newMux sample_cfg Slot sample_server (sample_request ''GET'' ''/api/v1/me'' [''Bearer secret'']) w)) = 401"
proof -
  let ?out = "sample_request ''DELETE'' ''/api/v1/tokens'' [''Bearer secret'']"
  let ?me = "sample_request ''GET'' ''/api/v1/me'' [''Bearer secret'']"
  let ?again = "\<lparr>ex_cfg = sample_cfg, ex_adm = Slot,
    ex_server = sample_server\<lparr>se_cy := sample_crypto\<lparr>cy_Text := ''another''\<rparr>\<rparr>,
    ex_request = sample_request ''POST'' ''/api/v1/tokens'' []\<rparr>"
  have b: "bearer (sample_request m p [''Bearer secret'']) = Some ''secret''" for m p
    by (simp add: bearer_def CutPrefix_def Header_Get_def sample_request_def bearerPrefix_def bearerScheme_def)
  have paths: "pathSegments ''/api/v1/tokens'' = [''api'', ''v1'', ''tokens'']" "pathSegments ''/api/v1/me'' = [''api'', ''v1'', ''me'']"
    by code_simp+
  have out: "ends_session ?out" using paths by (simp add: ends_session_def sample_request_def)
  have s: "session sample_server ?out logged_in = Some (''terces'', 1)"
    by (simp add: session_def b HashToken_def UserIDForTokenHash_delivered sample_delivered logged_in_def signed_up_eval)
  have d: "delivered (se_pg sample_server)" by (simp add: sample_delivered)
  have fresh: "\<forall>x \<in> set [?again]. next_hash (ex_server x) \<noteq> ''terces''" by (simp add: next_hash_def HashToken_def)
  have me: "ServeMux (routes sample_cfg) ?me = Some (Authed HandleGetMe, [])"
    using paths by (simp add: ServeMux_def routes_eval matchPattern_def sample_request_def Let_def)
  have "bearer ?me = bearer ?out" by (simp only: b)
  note session_ends[OF out s logged_in_schema d fresh me this refl, where cfg = sample_cfg and adm = Slot and adm' = Slot]
  then show ?thesis
    by (auto simp: with_header_def unauthorized_def WriteError_def sample_env_def Let_def split: prod.splits)
qed

end
