(* ===== verification/Two_Runs.thy ===== *)
theory Two_Runs
  imports System
begin

text \<open>
  Two runs of one operation from two states.  The locale \<^verbatim>\<open>two_runs\<close> says what a relation between the
  states must satisfy, and gives the rules for a round trip, a sequence and a transaction: related
  states give equal answers and related states again.  It is interpreted on the states that agree on
  one account, which shows that what a service tells an account depends on nothing else.
\<close>

section \<open>The rules\<close>

definition runs_alike :: "('s \<Rightarrow> 's \<Rightarrow> bool) \<Rightarrow> ('s \<Rightarrow> 'a \<times> 's) \<Rightarrow> 's \<Rightarrow> 's \<Rightarrow> bool" where
  "runs_alike R f w v \<longleftrightarrow> fst (f w) = fst (f v) \<and> R (snd (f w)) (snd (f v))"

locale two_runs =
  fixes R :: "world \<Rightarrow> world \<Rightarrow> bool"
  assumes same_round: "R w v \<Longrightarrow> w_round w = w_round v"
    and any_round: "R w v \<Longrightarrow> R (w\<lparr>w_round := n\<rparr>) (v\<lparr>w_round := n\<rparr>)"
    and rolled_back: "R w v \<Longrightarrow> R w' v' \<Longrightarrow> R (w'\<lparr>w_tables := w_tables w\<rparr>) (v'\<lparr>w_tables := w_tables v\<rparr>)"
begin

lemma send_alike:
  assumes "R w v" "\<And>n. runs_alike R st (w\<lparr>w_round := n\<rparr>) (v\<lparr>w_round := n\<rparr>)"
  shows "runs_alike R (send e st) w v"
  using assms same_round[OF assms(1)] any_round[OF assms(1)]
  by (auto simp: runs_alike_def send_def Let_def split: link.split)

lemma answer_alike:
  assumes "runs_alike R f w v"
  shows "runs_alike R (\<lambda>w. case f w of (Inl err, w1) \<Rightarrow> (h err, w1) | (Inr x, w1) \<Rightarrow> (k x, w1)) w v"
  using assms by (cases "f w"; cases "f v"; cases "fst (f w)") (auto simp: runs_alike_def)

lemma then_alike:
  assumes "runs_alike R f w v"
    and "\<And>x w1 v1. f w = (Inr x, w1) \<Longrightarrow> f v = (Inr x, v1) \<Longrightarrow> R w1 v1 \<Longrightarrow> runs_alike R (g x) w1 v1"
  shows "runs_alike R (\<lambda>w. case f w of (Inl err, w1) \<Rightarrow> (h err, w1) | (Inr x, w1) \<Rightarrow> g x w1) w v"
proof -
  obtain r w1 v1 where f: "f w = (r, w1)" "f v = (r, v1)" "R w1 v1"
    using assms(1) by (cases "f w"; cases "f v") (auto simp: runs_alike_def)
  show ?thesis
  proof (cases r)
    case (Inl err)
    then show ?thesis using f by (simp add: runs_alike_def)
  next
    case (Inr x)
    then show ?thesis using f assms(2)[of x w1 v1] by (simp add: runs_alike_def)
  qed
qed

lemma value_alike: "R w v \<Longrightarrow> runs_alike R (\<lambda>w. (x, w)) w v"
  by (simp add: runs_alike_def)

lemma unit_alike: "R w v \<Longrightarrow> runs_alike R (send e sql_unit) w v"
  by (rule send_alike) (simp_all add: runs_alike_def sql_unit_def any_round)

lemma InTx_alike:
  assumes "R w v" "\<And>ts w v. R w v \<Longrightarrow> runs_alike R (fn (Tx ts) e) w v"
  shows "runs_alike R (InTx q fn e) w v"
proof (cases q)
  case (Tx ts)
  then show ?thesis using assms(1) by (simp add: InTx_def runs_alike_def)
next
  case Pool
  let ?ts = "pe_clock e (w_round w)"
  obtain r w1 v1 where b: "send e sql_unit w = (r, w1)" "send e sql_unit v = (r, v1)" "R w1 v1"
    using unit_alike[OF assms(1), of e] by (cases "send e sql_unit w"; cases "send e sql_unit v") (auto simp: runs_alike_def)
  obtain x w2 v2 where f: "fn (Tx ?ts) e w1 = (x, w2)" "fn (Tx ?ts) e v1 = (x, v2)" "R w2 v2"
    using assms(2)[OF b(3), of ?ts]
    by (cases "fn (Tx ?ts) e w1"; cases "fn (Tx ?ts) e v1") (auto simp: runs_alike_def)
  note undone = rolled_back[OF b(3) f(3)]
  have "R (snd (send e sql_unit (w2\<lparr>w_tables := w_tables w1\<rparr>))) (snd (send e sql_unit (v2\<lparr>w_tables := w_tables v1\<rparr>)))"
    using unit_alike[OF undone, of e] by (simp add: runs_alike_def)
  moreover have "R (w2\<lparr>w_round := n, w_tables := w_tables w1\<rparr>) (v2\<lparr>w_round := n, w_tables := w_tables v1\<rparr>)" for n
    using rolled_back[OF b(3) any_round[OF f(3)]] by simp
  ultimately show ?thesis
    using b f any_round[OF f(3)] same_round[OF assms(1)] same_round[OF f(3)] Pool
    by (cases r; cases x) (auto simp: runs_alike_def InTx_def BeginFunc_def split: link.split)
qed

end

section \<open>States that agree on an account\<close>

text \<open>
  \<^verbatim>\<open>alike e i\<close>: the same data of account \<^verbatim>\<open>i\<close> and the same number of round trips.  The rest may differ,
  except for whether an id that the database will draw for a new collection is taken.
\<close>

definition ids_drawn :: "pg_env \<Rightarrow> tables \<Rightarrow> nat \<Rightarrow> bool" where
  "ids_drawn e t n \<longleftrightarrow> (\<exists>r \<in> set (t_collections t). cr_id r = pe_uuid e n)"

definition alike_tables :: "pg_env \<Rightarrow> user_id \<Rightarrow> tables \<Rightarrow> tables \<Rightarrow> bool" where
  "alike_tables e i t u \<longleftrightarrow> schema_ok t \<and> schema_ok u \<and> user_view i t = user_view i u \<and> ids_drawn e t = ids_drawn e u"

definition alike :: "pg_env \<Rightarrow> user_id \<Rightarrow> world \<Rightarrow> world \<Rightarrow> bool" where
  "alike e i w v \<longleftrightarrow> w_round w = w_round v \<and> alike_tables e i (w_tables w) (w_tables v)"

interpretation alike: two_runs "alike e i" for e i
  by unfold_locales (auto simp: alike_def)

section \<open>Statements\<close>

lemma find_filter: "find P xs = (case filter P xs of [] \<Rightarrow> None | x # _ \<Rightarrow> Some x)"
  by (induction xs) auto

lemma owns_filter: "owns t i c \<longleftrightarrow> (\<exists>r \<in> set (filter (\<lambda>r. cr_user_id r = i) (t_collections t)). cr_id r = c)"
  by (auto simp: owns_def)

lemma colors_of_owned:
  "owns t i c \<Longrightarrow> colors_of c t = filter (\<lambda>r. xr_collection_id r = c) (filter (\<lambda>r. owns t i (xr_collection_id r)) (t_colors t))"
  by (auto simp: colors_of_def intro!: filter_cong)

lemma alike_tablesD:
  assumes "alike_tables e i t u"
  shows "filter (\<lambda>r. ur_id r = i) (t_users t) = filter (\<lambda>r. ur_id r = i) (t_users u)"
    "filter (\<lambda>r. tr_user_id r = i) (t_tokens t) = filter (\<lambda>r. tr_user_id r = i) (t_tokens u)"
    "filter (\<lambda>r. cr_user_id r = i) (t_collections t) = filter (\<lambda>r. cr_user_id r = i) (t_collections u)"
    "owns t i c \<longleftrightarrow> owns u i c"
    "filter (\<lambda>r. owns t i (xr_collection_id r)) (t_colors t) = filter (\<lambda>r. owns u i (xr_collection_id r)) (t_colors u)"
    "owns t i c \<Longrightarrow> colors_of c t = colors_of c u"
    "ids_drawn e t n \<longleftrightarrow> ids_drawn e u n"
    "schema_ok t" "schema_ok u"
proof -
  have v: "user_view i t = user_view i u" using assms by (simp add: alike_tables_def)
  then show "filter (\<lambda>r. ur_id r = i) (t_users t) = filter (\<lambda>r. ur_id r = i) (t_users u)"
    "filter (\<lambda>r. tr_user_id r = i) (t_tokens t) = filter (\<lambda>r. tr_user_id r = i) (t_tokens u)"
    and c: "filter (\<lambda>r. cr_user_id r = i) (t_collections t) = filter (\<lambda>r. cr_user_id r = i) (t_collections u)"
    and x: "filter (\<lambda>r. owns t i (xr_collection_id r)) (t_colors t) = filter (\<lambda>r. owns u i (xr_collection_id r)) (t_colors u)"
    by (simp_all add: user_view_def)
  have o: "owns t i c \<longleftrightarrow> owns u i c" for c using c by (simp add: owns_filter)
  then show "owns t i c \<longleftrightarrow> owns u i c" .
  show "colors_of c t = colors_of c u" if "owns t i c"
    using that o x colors_of_owned[of t i c] colors_of_owned[of u i c] by simp
  show "ids_drawn e t n \<longleftrightarrow> ids_drawn e u n" "schema_ok t" "schema_ok u"
    using assms by (simp_all add: alike_tables_def)
qed

text \<open>The reading statements answer alike.\<close>

lemma reads_alike:
  assumes "alike e i w v"
  shows "runs_alike (alike e i) (sql_user_by_id i) w v"
    "runs_alike (alike e i) (sql_lock_user i) w v"
    "runs_alike (alike e i) (sql_list_collections i) w v"
    "runs_alike (alike e i) (sql_count_collections i) w v"
    "runs_alike (alike e i) (sql_collection c i) w v"
    "runs_alike (alike e i) (sql_export i) w v"
proof -
  note d = alike_tablesD[of e i "w_tables w" "w_tables v"]
  have a: "alike_tables e i (w_tables w) (w_tables v)" using assms by (simp add: alike_def)
  have c: "filter (\<lambda>r. cr_id r = c \<and> cr_user_id r = i) (t_collections (w_tables w))
      = filter (\<lambda>r. cr_id r = c \<and> cr_user_id r = i) (t_collections (w_tables v))"
    using arg_cong[OF d(3)[OF a], of "filter (\<lambda>r. cr_id r = c)"] by (simp add: conj_commute)
  have "(\<exists>r \<in> set (t_users (w_tables w)). ur_id r = i) \<longleftrightarrow> filter (\<lambda>r. ur_id r = i) (t_users (w_tables w)) \<noteq> []" for w :: world
    by (auto simp: filter_empty_conv)
  then show "runs_alike (alike e i) (sql_lock_user i) w v"
    using assms d(1)[OF a] by (auto simp: runs_alike_def sql_lock_user_def)
  show "runs_alike (alike e i) (sql_user_by_id i) w v"
    using assms d(1)[OF a] by (simp add: runs_alike_def sql_user_by_id_def find_filter split: list.split)
  show "runs_alike (alike e i) (sql_collection c i) w v"
    using assms c by (simp add: runs_alike_def sql_collection_def find_filter split: list.split)
  show "runs_alike (alike e i) (sql_list_collections i) w v" "runs_alike (alike e i) (sql_count_collections i) w v"
    using assms d(3)[OF a] by (simp_all add: runs_alike_def sql_list_collections_def sql_count_collections_def)
  have "map (join_colors (w_tables w)) (filter (\<lambda>r. cr_user_id r = i) (t_collections (w_tables w)))
      = map (join_colors (w_tables v)) (filter (\<lambda>r. cr_user_id r = i) (t_collections (w_tables v)))"
  proof (rule map_cong[OF d(3)[OF a]])
    fix r assume "r \<in> set (filter (\<lambda>r. cr_user_id r = i) (t_collections (w_tables v)))"
    then have "owns (w_tables w) i (cr_id r)" using d(4)[OF a] by (auto simp: owns_def)
    then show "join_colors (w_tables w) r = join_colors (w_tables v) r" using d(6)[OF a] by (simp add: join_colors_def)
  qed
  then show "runs_alike (alike e i) (sql_export i) w v" using assms by (simp add: runs_alike_def sql_export_def Let_def)
qed

lemma color_reads_alike:
  assumes "alike e i w v" "owns (w_tables w) i c"
  shows "runs_alike (alike e i) (sql_count_colors c) w v"
    "runs_alike (alike e i) (sql_has_color c h) w v"
    "lq_collection lq = c \<Longrightarrow> runs_alike (alike e i) (run_list_query lq) w v"
proof -
  have "colors_of c (w_tables w) = colors_of c (w_tables v)"
    using assms alike_tablesD(6) by (auto simp: alike_def)
  then show "runs_alike (alike e i) (sql_count_colors c) w v" "runs_alike (alike e i) (sql_has_color c h) w v"
    "lq_collection lq = c \<Longrightarrow> runs_alike (alike e i) (run_list_query lq) w v"
    using assms(1) by (simp_all add: runs_alike_def sql_count_colors_def sql_has_color_def run_list_query_def Let_def)
qed

text \<open>
  The writing statements: what account \<^verbatim>\<open>i\<close> holds afterwards is a function of what it held before.
\<close>

lemma alike_intro:
  assumes "w_round w = w_round v" "schema_ok (w_tables w)" "schema_ok (w_tables v)"
    and "user_view i (w_tables w) = user_view i (w_tables v)" "\<And>n. ids_drawn e (w_tables w) n \<longleftrightarrow> ids_drawn e (w_tables v) n"
  shows "alike e i w v"
  using assms by (auto simp: alike_def alike_tables_def)

lemma schema_after: "stmt_in (\<lambda>t t'. schema_ok t \<longrightarrow> schema_ok t') st \<Longrightarrow> schema_ok (w_tables w) \<Longrightarrow> schema_ok (w_tables (snd (st w)))"
  by (simp add: stmt_in_def)

lemma view_after_delete_user: "user_view i (cascade_user i t) = ([], [], [], [])"
  by (auto simp: user_view_def cascade_user_def owns_def filter_empty_conv)

lemma view_after_delete_token:
  "user_view i (t\<lparr>t_tokens := filter P (t_tokens t)\<rparr>) =
    (case user_view i t of (us, ts, cs, xs) \<Rightarrow> (us, filter P ts, cs, xs))"
  by (auto simp: user_view_def owns_def conj_commute)

lemma view_after_insert_color:
  "owns t i (xr_collection_id r) \<Longrightarrow> user_view i (t\<lparr>t_colors := t_colors t @ [r]\<rparr>) =
    (case user_view i t of (us, ts, cs, xs) \<Rightarrow> (us, ts, cs, xs @ [r]))"
  by (simp add: user_view_def owns_def)

lemma view_after_delete_color:
  "user_view i (t\<lparr>t_colors := filter P (t_colors t)\<rparr>) =
    (case user_view i t of (us, ts, cs, xs) \<Rightarrow> (us, ts, cs, filter P xs))"
  by (auto simp: user_view_def owns_def conj_commute)

lemma view_after_update:
  "user_view i (t\<lparr>t_collections := update_rows (\<lambda>r. cr_id r = c \<and> cr_user_id r = i) p (t_collections t)\<rparr>) =
    (case user_view i t of (us, ts, cs, xs) \<Rightarrow> (us, ts, update_rows (\<lambda>r. cr_id r = c \<and> cr_user_id r = i) p cs, xs))"
proof -
  have "filter (\<lambda>r. cr_user_id r = i) (update_rows hit p rows) = update_rows hit p (filter (\<lambda>r. cr_user_id r = i) rows)"
    for hit rows by (induction rows) (auto simp: update_rows_def update_row_def)
  then show ?thesis by (simp add: user_view_def)
qed

lemma view_after_insert_collection:
  assumes "schema_ok t" "cr_id r \<notin> cr_id ` set (t_collections t)" "cr_user_id r = i"
  shows "user_view i (t\<lparr>t_collections := t_collections t @ [r]\<rparr>) =
    (case user_view i t of (us, ts, cs, xs) \<Rightarrow> (us, ts, cs @ [r], xs))"
proof -
  have "xr_collection_id x \<noteq> cr_id r" if "x \<in> set (t_colors t)" for x
    using assms(1,2) that unfolding schema_ok_def colors_ok_def by (metis image_eqI subsetD)
  then have "filter (\<lambda>x. owns (t\<lparr>t_collections := t_collections t @ [r]\<rparr>) i (xr_collection_id x)) (t_colors t)
      = filter (\<lambda>x. owns t i (xr_collection_id x)) (t_colors t)"
    by (intro filter_cong refl) (force simp: owns_def)
  then show ?thesis using assms(3) by (simp add: user_view_def owns_def)
qed

lemma view_after_delete_collection:
  "user_view i (w_tables (snd (sql_delete_collection c i w))) =
    (case user_view i (w_tables w) of (us, ts, cs, xs) \<Rightarrow>
      (us, ts, filter (\<lambda>r. cr_id r \<noteq> c) cs,
       if owns (w_tables w) i c then filter (\<lambda>x. xr_collection_id x \<noteq> c) xs else xs))"
proof -
  have "owns (w_tables (snd (sql_delete_collection c i w))) i x \<longleftrightarrow> owns (w_tables w) i x \<and> x \<noteq> c" for x
    by (auto simp: sql_delete_collection_def owns_def Let_def)
  then show ?thesis
    by (auto simp: user_view_def sql_delete_collection_def owns_def Let_def intro!: filter_cong)
qed

lemma write_alike:
  assumes "alike e i w v" "stmt_in (\<lambda>t t'. schema_ok t \<longrightarrow> schema_ok t') st"
    and "fst (st w) = fst (st v)" "\<And>w. w_round (snd (st w)) = w_round w"
    and "user_view i (w_tables (snd (st w))) = user_view i (w_tables (snd (st v)))"
    and "\<And>n. ids_drawn e (w_tables (snd (st w))) n \<longleftrightarrow> ids_drawn e (w_tables (snd (st v))) n"
  shows "runs_alike (alike e i) st w v"
  using assms schema_after[OF assms(2)] by (auto simp: runs_alike_def alike_def alike_tables_def)

lemma alikeD:
  assumes "alike e i w v"
  shows "alike_tables e i (w_tables w) (w_tables v)" "user_view i (w_tables w) = user_view i (w_tables v)"
    "filter (\<lambda>r. cr_id r = c \<and> cr_user_id r = i) (t_collections (w_tables w))
      = filter (\<lambda>r. cr_id r = c \<and> cr_user_id r = i) (t_collections (w_tables v))"
proof -
  show a: "alike_tables e i (w_tables w) (w_tables v)" and "user_view i (w_tables w) = user_view i (w_tables v)"
    using assms by (simp_all add: alike_def alike_tables_def)
  show "filter (\<lambda>r. cr_id r = c \<and> cr_user_id r = i) (t_collections (w_tables w))
      = filter (\<lambda>r. cr_id r = c \<and> cr_user_id r = i) (t_collections (w_tables v))"
    using arg_cong[OF alike_tablesD(3)[OF a], of "filter (\<lambda>r. cr_id r = c)"] by (simp add: conj_commute)
qed

lemma delete_user_alike:
  assumes "alike e i w v"
  shows "runs_alike (alike e i) (sql_delete_user i) w v"
proof (rule write_alike[OF assms schema_delete_user])
  note d = alike_tablesD[OF alikeD(1)[OF assms]]
  show "fst (sql_delete_user i w) = fst (sql_delete_user i v)" using d(1) by (simp add: sql_delete_user_def Let_def)
  have "ids_drawn e (cascade_user i t) n \<longleftrightarrow> ids_drawn e t n \<and> \<not> owns t i (pe_uuid e n)" if "schema_ok t" for t n
    using owns_unique[OF that] by (auto simp: ids_drawn_def cascade_user_def owns_def)
  then show "ids_drawn e (w_tables (snd (sql_delete_user i w))) n \<longleftrightarrow> ids_drawn e (w_tables (snd (sql_delete_user i v))) n" for n
    using d(4,7-9) by (simp add: sql_delete_user_def Let_def)
qed (simp_all add: sql_delete_user_def view_after_delete_user Let_def)

lemma update_collection_alike:
  assumes "alike e i w v"
  shows "runs_alike (alike e i) (sql_update_collection c i p) w v"
proof (rule write_alike[OF assms schema_update_collection])
  note d = alike_tablesD[OF alikeD(1)[OF assms]]
  show "fst (sql_update_collection c i p w) = fst (sql_update_collection c i p v)"
    using alikeD(3)[OF assms] by (simp add: sql_update_collection_def find_filter Let_def split: list.split)
  have "(\<exists>r \<in> set (update_rows hit p rows). cr_id r = x) \<longleftrightarrow> (\<exists>r \<in> set rows. cr_id r = x)" for hit rows x
    by (induction rows) (auto simp: update_rows_def update_row_def)
  then have "ids_drawn e (t\<lparr>t_collections := update_rows hit p (t_collections t)\<rparr>) n \<longleftrightarrow> ids_drawn e t n" for t hit n
    by (simp add: ids_drawn_def)
  then show "ids_drawn e (w_tables (snd (sql_update_collection c i p w))) n
      \<longleftrightarrow> ids_drawn e (w_tables (snd (sql_update_collection c i p v))) n" for n
    using d(7) by (simp add: sql_update_collection_def Let_def split: option.split)
  show "user_view i (w_tables (snd (sql_update_collection c i p w))) = user_view i (w_tables (snd (sql_update_collection c i p v)))"
    using alikeD(2,3)[OF assms]
    by (simp add: sql_update_collection_def view_after_update find_filter Let_def split: option.split list.split)
qed (simp add: sql_update_collection_def Let_def split: option.split)

lemma delete_collection_alike:
  assumes "alike e i w v"
  shows "runs_alike (alike e i) (sql_delete_collection c i) w v"
proof (rule write_alike[OF assms schema_delete_collection])
  note d = alike_tablesD[OF alikeD(1)[OF assms]]
  show "fst (sql_delete_collection c i w) = fst (sql_delete_collection c i v)"
    using alikeD(3)[OF assms] by (simp add: sql_delete_collection_def Let_def)
  have "ids_drawn e (w_tables (snd (sql_delete_collection c i w))) n \<longleftrightarrow>
      ids_drawn e (w_tables w) n \<and> \<not> (pe_uuid e n = c \<and> owns (w_tables w) i c)" if "schema_ok (w_tables w)" for w n
  proof -
    have "r = r'" if "r \<in> set (t_collections (w_tables w))" "r' \<in> set (t_collections (w_tables w))" "cr_id r = cr_id r'" for r r'
      using \<open>schema_ok (w_tables w)\<close> that by (auto simp: schema_ok_def collections_ok_def distinct_map dest: inj_onD)
    then have "cr_user_id r = i" if "r \<in> set (t_collections (w_tables w))" "cr_id r = c" "owns (w_tables w) i c" for r
      using that unfolding owns_def by metis
    then show ?thesis by (auto simp: ids_drawn_def sql_delete_collection_def owns_def Let_def)
  qed
  then show "ids_drawn e (w_tables (snd (sql_delete_collection c i w))) n
      \<longleftrightarrow> ids_drawn e (w_tables (snd (sql_delete_collection c i v))) n" for n
    using d(4,7-9) by simp
  show "user_view i (w_tables (snd (sql_delete_collection c i w))) = user_view i (w_tables (snd (sql_delete_collection c i v)))"
    using d(4) alikeD(2)[OF assms] by (simp add: view_after_delete_collection)
qed (simp add: sql_delete_collection_def Let_def)

lemma insert_collection_alike:
  assumes "alike e i w v"
  shows "runs_alike (alike e i) (sql_insert_collection (pe_uuid e n) ts i p) w v"
proof -
  let ?new = "pe_uuid e n"
  let ?row = "\<lparr>cr_id = ?new, cr_user_id = i, cr_name = cp_Name p, cr_icon_slug = cp_Icon p,
            cr_icon_accent = cp_Accent p, cr_is_default = cp_IsDefault p, cr_created_at = ts\<rparr>"
  define clash where "clash w \<longleftrightarrow> ids_drawn e (w_tables w) n \<or> (cp_IsDefault p
      \<and> (\<exists>r \<in> set (filter (\<lambda>r. cr_user_id r = i) (t_collections (w_tables w))). cr_is_default r))" for w :: world
  define known where "known w \<longleftrightarrow> filter (\<lambda>r. ur_id r = i) (t_users (w_tables w)) \<noteq> []" for w :: world
  have st: "sql_insert_collection ?new ts i p w = (if clash w then (Inl (PgError uniqueViolation), w)
      else if \<not> known w then (Inl (PgError foreignKeyViolation), w)
      else (Inr ?row, w\<lparr>w_tables := (w_tables w)\<lparr>t_collections := t_collections (w_tables w) @ [?row]\<rparr>\<rparr>))" for w
    unfolding sql_insert_collection_def ids_drawn_def clash_def known_def by (auto simp: Let_def filter_empty_conv)
  note d = alike_tablesD[OF alikeD(1)[OF assms]]
  have same: "clash w = clash v" "known w = known v" unfolding clash_def known_def using d(1,3,7) by simp_all
  show ?thesis
  proof (rule write_alike[OF assms schema_insert_collection])
    show "fst (sql_insert_collection ?new ts i p w) = fst (sql_insert_collection ?new ts i p v)"
      using same by (simp add: st)
    have "ids_drawn e (t\<lparr>t_collections := t_collections t @ [?row]\<rparr>) m \<longleftrightarrow> ids_drawn e t m \<or> pe_uuid e m = ?new" for t m
      by (auto simp: ids_drawn_def)
    then show "ids_drawn e (w_tables (snd (sql_insert_collection ?new ts i p w))) m
        \<longleftrightarrow> ids_drawn e (w_tables (snd (sql_insert_collection ?new ts i p v))) m" for m
      using same d(7) by (simp add: st)
    have "user_view i ((w_tables u)\<lparr>t_collections := t_collections (w_tables u) @ [?row]\<rparr>) =
        (case user_view i (w_tables u) of (us, ts, cs, xs) \<Rightarrow> (us, ts, cs @ [?row], xs))"
      if "schema_ok (w_tables u)" "\<not> clash u" for u :: world
      using that by (intro view_after_insert_collection) (auto simp: ids_drawn_def clash_def)
    then show "user_view i (w_tables (snd (sql_insert_collection ?new ts i p w)))
        = user_view i (w_tables (snd (sql_insert_collection ?new ts i p v)))"
      using same d(8,9) alikeD(2)[OF assms] by (simp add: st)
  qed (simp add: st)
qed

text \<open>The statements that name no account: the token of a session, and a collection that was resolved.\<close>

definition holds_token :: "tables \<Rightarrow> user_id \<Rightarrow> bytes \<Rightarrow> bool" where
  "holds_token t i h \<longleftrightarrow> (\<exists>r \<in> set (filter (\<lambda>r. tr_user_id r = i) (t_tokens t)). tr_hash r = h)"

lemma delete_token_alike:
  assumes "alike e i w v" "holds_token (w_tables w) i h"
  shows "runs_alike (alike e i) (sql_delete_token h) w v"
proof (rule write_alike[OF assms(1) schema_delete_token])
  note d = alike_tablesD[OF alikeD(1)[OF assms(1)]]
  have own: "filter (\<lambda>r. tr_hash r = h) (t_tokens t) = filter (\<lambda>r. tr_hash r = h) (filter (\<lambda>r. tr_user_id r = i) (t_tokens t))"
    if "schema_ok t" "holds_token t i h" for t
  proof -
    have "inj_on tr_hash (set (t_tokens t))" using that(1) by (simp add: schema_ok_def tokens_ok_def distinct_map)
    then have "tr_user_id r = i" if "r \<in> set (t_tokens t)" "tr_hash r = h" for r
      using that \<open>holds_token t i h\<close> unfolding holds_token_def by (auto dest: inj_onD)
    then show ?thesis by (auto intro!: filter_cong)
  qed
  have "holds_token (w_tables v) i h" using assms(2) d(2) by (simp only: holds_token_def)
  then show "fst (sql_delete_token h w) = fst (sql_delete_token h v)"
    using own[OF d(8) assms(2)] own[OF d(9)] d(2) by (simp add: sql_delete_token_def Let_def del: filter_filter)
  show "user_view i (w_tables (snd (sql_delete_token h w))) = user_view i (w_tables (snd (sql_delete_token h v)))"
    using alikeD(2)[OF assms(1)] by (simp add: sql_delete_token_def view_after_delete_token Let_def)
  show "ids_drawn e (w_tables (snd (sql_delete_token h w))) n = ids_drawn e (w_tables (snd (sql_delete_token h v))) n" for n
    using d(7) by (simp add: sql_delete_token_def ids_drawn_def Let_def)
qed (simp add: sql_delete_token_def Let_def)

lemma color_writes_alike:
  assumes "alike e i w v" "owns (w_tables w) i c"
  shows "runs_alike (alike e i) (sql_insert_color c h key ts) w v"
    "runs_alike (alike e i) (sql_delete_color c h) w v"
    "runs_alike (alike e i) (sql_delete_all_colors c) w v"
proof -
  note d = alike_tablesD[OF alikeD(1)[OF assms(1)]]
  have o: "owns (w_tables v) i c" using d(4) assms(2) by simp
  have c: "colors_of c (w_tables w) = colors_of c (w_tables v)" using d(6) assms(2) by simp
  have ids: "ids_drawn e (t\<lparr>t_colors := xs\<rparr>) n = ids_drawn e t n" for t xs n by (simp add: ids_drawn_def)
  have hit: "filter (\<lambda>r. xr_collection_id r = c \<and> xr_hex r = h) (t_colors t) = filter (\<lambda>r. xr_hex r = h) (colors_of c t)" for t
    by (simp add: colors_of_def conj_commute)
  let ?row = "\<lparr>xr_collection_id = c, xr_hex = h, xr_created_at = ts, xr_color_key = key\<rparr>"
  have insert: "sql_insert_color c h key ts u = (if \<not> normal_hex h then (Inl (PgError checkViolation), u)
      else if h \<in> xr_hex ` set (colors_of c (w_tables u)) then (Inr 0, u)
      else (Inr 1, u\<lparr>w_tables := (w_tables u)\<lparr>t_colors := t_colors (w_tables u) @ [?row]\<rparr>\<rparr>))" if "owns (w_tables u) i c" for u
    using that by (auto simp: sql_insert_color_def owns_def colors_of_def Let_def)
  show "runs_alike (alike e i) (sql_insert_color c h key ts) w v"
    by (rule write_alike[OF assms(1) schema_insert_color])
      (use c alikeD(2)[OF assms(1)] d(7) o assms(2) in
        \<open>auto simp: insert view_after_insert_color ids, auto simp: sql_insert_color_def Let_def\<close>)
  show "runs_alike (alike e i) (sql_delete_color c h) w v"
    by (rule write_alike[OF assms(1) schema_delete_color])
      (use c alikeD(2)[OF assms(1)] d(7) in \<open>simp_all add: sql_delete_color_def hit view_after_delete_color ids Let_def\<close>)
  show "runs_alike (alike e i) (sql_delete_all_colors c) w v"
    by (rule write_alike[OF assms(1) schema_delete_all_colors])
      (use c alikeD(2)[OF assms(1)] d(7) in \<open>simp_all add: sql_delete_all_colors_def view_after_delete_color ids Let_def\<close>)
qed

section \<open>Operations\<close>

lemma op_alike:
  assumes "alike e i w v" "\<And>n ts. runs_alike (alike e i) (st n ts) (w\<lparr>w_round := n'\<rparr>) (v\<lparr>w_round := n'\<rparr>)"
    and "n' = Suc (w_round w)"
    and "\<And>w. f w = (case send e (st (w_round w) (now q e w)) w of (Inl err, w1) \<Rightarrow> (h err, w1) | (Inr x, w1) \<Rightarrow> (k x, w1))"
  shows "runs_alike (alike e i) f w v"
proof -
  have r: "w_round w = w_round v" using assms(1) by (simp add: alike_def)
  then have "now q e w = now q e v" by (simp add: now_def split: querier.split)
  moreover have "runs_alike (alike e i) (send e (st n ts)) w v" for n ts
    using assms(2)[of n ts] r alike.any_round[OF assms(1)] unfolding assms(3)
    by (auto simp: runs_alike_def send_def Let_def split: link.split)
  ultimately show ?thesis
    using r alike.answer_alike[of e i "send e (st (w_round w) (now q e w))" w v h k] assms(4)[of w] assms(4)[of v]
    by (simp add: runs_alike_def)
qed

lemma reading_ops_alike:
  assumes "alike e i w v"
  shows "runs_alike (alike e i) (UserByID q i e) w v"
    "runs_alike (alike e i) (LockUser q i e) w v"
    "runs_alike (alike e i) (ListCollections q i e) w v"
    "runs_alike (alike e i) (CountCollections q i e) w v"
    "runs_alike (alike e i) (CollectionByID q i c e) w v"
    "runs_alike (alike e i) (resolveCollection q i c lock e) w v"
    "runs_alike (alike e i) (ExportCollections q i e) w v"
    "runs_alike (alike e i) (Ping q e) w v"
proof -
  note r = reads_alike[OF alike.any_round[OF assms, of "Suc (w_round w)"]]
  show "runs_alike (alike e i) (UserByID q i e) w v"
    by (rule op_alike[OF assms _ refl UserByID_def]) (rule r)
  show "runs_alike (alike e i) (LockUser q i e) w v"
    by (rule op_alike[OF assms _ refl LockUser_def]) (rule r)
  show "runs_alike (alike e i) (ListCollections q i e) w v"
    by (rule op_alike[OF assms _ refl ListCollections_def]) (rule r)
  show "runs_alike (alike e i) (CountCollections q i e) w v"
    by (rule op_alike[OF assms _ refl CountCollections_def]) (rule r)
  show "runs_alike (alike e i) (CollectionByID q i c e) w v"
    by (rule op_alike[OF assms _ refl CollectionByID_def]) (rule r)
  show "runs_alike (alike e i) (resolveCollection q i c lock e) w v"
    by (rule op_alike[OF assms _ refl resolveCollection_def]) (rule r)
  show "runs_alike (alike e i) (ExportCollections q i e) w v"
    by (rule op_alike[OF assms _ refl ExportCollections_def]) (rule r)
  show "runs_alike (alike e i) (Ping q e) w v"
    using alike.unit_alike[OF assms] by (simp add: runs_alike_def Ping_def)
qed

lemma writing_ops_alike:
  assumes "alike e i w v"
  shows "runs_alike (alike e i) (DeleteUser q i e) w v"
    "runs_alike (alike e i) (CreateCollection q i p e) w v"
    "runs_alike (alike e i) (UpdateCollection q i c up e) w v"
    "runs_alike (alike e i) (DeleteCollection q i c e) w v"
    "holds_token (w_tables w) i th \<Longrightarrow> runs_alike (alike e i) (DeleteToken q th e) w v"
proof -
  note a = alike.any_round[OF assms, of "Suc (w_round w)"]
  show "runs_alike (alike e i) (DeleteUser q i e) w v"
    by (rule op_alike[OF assms _ refl DeleteUser_def]) (rule delete_user_alike[OF a])
  show "runs_alike (alike e i) (CreateCollection q i p e) w v"
    by (rule op_alike[where st = "\<lambda>n ts. sql_insert_collection (pe_uuid e n) ts i p", OF assms _ refl CreateCollection_def])
      (rule insert_collection_alike[OF a])
  show "runs_alike (alike e i) (UpdateCollection q i c up e) w v"
    by (rule op_alike[OF assms _ refl UpdateCollection_def]) (rule update_collection_alike[OF a])
  show "runs_alike (alike e i) (DeleteCollection q i c e) w v"
    by (rule op_alike[OF assms _ refl DeleteCollection_def]) (rule delete_collection_alike[OF a])
  show "runs_alike (alike e i) (DeleteToken q th e) w v" if "holds_token (w_tables w) i th"
    by (rule op_alike[OF assms _ refl DeleteToken_def], rule delete_token_alike[OF a]) (simp add: that)
qed

lemma color_ops_alike:
  assumes "alike e i w v" "owns (w_tables w) i c"
  shows "runs_alike (alike e i) (CountColors q c e) w v"
    "runs_alike (alike e i) (HasColor q c h e) w v"
    "runs_alike (alike e i) (Storage.AddColor q c h e) w v"
    "runs_alike (alike e i) (DeleteColor q c h e) w v"
    "runs_alike (alike e i) (DeleteAllColors q c e) w v"
    "runs_alike (alike e i) (ListColors q c p e) w v"
proof -
  note a = alike.any_round[OF assms(1), of "Suc (w_round w)"]
  have o: "owns (w_tables (w\<lparr>w_round := Suc (w_round w)\<rparr>)) i c" using assms(2) by simp
  show "runs_alike (alike e i) (CountColors q c e) w v"
    by (rule op_alike[OF assms(1) _ refl CountColors_def]) (rule color_reads_alike[OF a o])
  show "runs_alike (alike e i) (HasColor q c h e) w v"
    by (rule op_alike[OF assms(1) _ refl HasColor_def]) (rule color_reads_alike[OF a o])
  show "runs_alike (alike e i) (Storage.AddColor q c h e) w v"
    by (rule op_alike[where st = "\<lambda>n ts. sql_insert_color c h (Feel (pe_math e) h) ts", OF assms(1) _ refl AddColor_def])
      (rule color_writes_alike[OF a o])
  show "runs_alike (alike e i) (DeleteColor q c h e) w v"
    by (rule op_alike[OF assms(1) _ refl DeleteColor_def]) (rule color_writes_alike[OF a o])
  show "runs_alike (alike e i) (DeleteAllColors q c e) w v"
    by (rule op_alike[OF assms(1) _ refl DeleteAllColors_def]) (rule color_writes_alike[OF a o])
  show "runs_alike (alike e i) (ListColors q c p e) w v"
  proof (cases "listQuery (pe_math e) (normalizedParams p) c")
    case (Inl err)
    then show ?thesis using assms(1) by (simp add: runs_alike_def ListColors_def Let_def)
  next
    case (Inr lq)
    then have "lq_collection lq = c" by (auto simp: listQuery_def split: sum.splits option.splits)
    from color_reads_alike(3)[OF a o this] show ?thesis
      by (rule op_alike[OF assms(1) _ refl]) (simp add: ListColors_def Inr Let_def cong: sum.case_cong)
  qed
qed

section \<open>Services\<close>

lemma runs_alike_cong: "runs_alike R g w v \<Longrightarrow> f w = g w \<Longrightarrow> f v = g v \<Longrightarrow> runs_alike R f w v"
  by (simp add: runs_alike_def)

text \<open>After a collection has been resolved, the caller owns it.\<close>

lemma resolved_alike:
  assumes "alike e i w v"
    and "\<And>w1 v1. alike e i w1 v1 \<Longrightarrow> owns (w_tables w1) i c \<Longrightarrow> runs_alike (alike e i) (g c) w1 v1"
  shows "runs_alike (alike e i) (\<lambda>w. case resolveCollection q i c lock e w of
    (Inl err, w1) \<Rightarrow> (Inl err, w1) | (Inr owned, w1) \<Rightarrow> g owned w1) w v"
proof (rule alike.then_alike[OF reading_ops_alike(6)[OF assms(1)]])
  fix x w1 v1
  assume x: "resolveCollection q i c lock e w = (Inr x, w1)" and a: "alike e i w1 v1"
  note o = resolveCollection_Inr[OF x]
  show "runs_alike (alike e i) (g x) w1 v1" using assms(2)[OF a] o by (simp add: owns_def)
qed

lemma color_services_alike:
  assumes "alike e i w v"
  shows "runs_alike (alike e i) (colorsvc_AddColor quota i c h e) w v"
    "runs_alike (alike e i) (colorsvc_DeleteColor i c h e) w v"
    "runs_alike (alike e i) (colorsvc_DeleteAllColors i c e) w v"
    "runs_alike (alike e i) (colorsvc_ListColors i c p e) w v"
proof -
  have tx: "runs_alike (alike e i) (add_color_tx quota i c h (Tx ts) e) w v" if "alike e i w v" for ts w v
  proof (rule runs_alike_cong)
    let ?g = "\<lambda>owned w1. case CountColors (Tx ts) owned e w1 of
      (Inl err, w2) \<Rightarrow> (Inl err, w2)
    | (Inr n, w2) \<Rightarrow> (\<lambda>w2. if n \<ge> quota then
         (case HasColor (Tx ts) owned h e w2 of
            (Inl err, w3) \<Rightarrow> (Inl err, w3)
          | (Inr has, w3) \<Rightarrow> (if \<not> has then Inl (Sentinel ColorErrQuotaFull) else Inr False, w3))
         else Storage.AddColor (Tx ts) owned h e w2) w2"
    show "runs_alike (alike e i) (\<lambda>w. case resolveCollection (Tx ts) i c True e w of
        (Inl err, w1) \<Rightarrow> (Inl err, w1) | (Inr owned, w1) \<Rightarrow> ?g owned w1) w v"
    proof (rule resolved_alike[OF that])
      fix w1 v1 assume a: "alike e i w1 v1" and o: "owns (w_tables w1) i c"
      show "runs_alike (alike e i) (?g c) w1 v1"
      proof (rule alike.then_alike[OF color_ops_alike(1)[OF a o]])
        fix n w2 v2 assume "CountColors (Tx ts) c e w1 = (Inr n, w2)" and b: "alike e i w2 v2"
        then have o2: "owns (w_tables w2) i c" using CountColors_Inr(2) o by simp
        show "runs_alike (alike e i) (\<lambda>w2. if n \<ge> quota then
           (case HasColor (Tx ts) c h e w2 of
              (Inl err, w3) \<Rightarrow> (Inl err, w3)
            | (Inr has, w3) \<Rightarrow> (if \<not> has then Inl (Sentinel ColorErrQuotaFull) else Inr False, w3))
           else Storage.AddColor (Tx ts) c h e w2) w2 v2"
          using alike.answer_alike[OF color_ops_alike(2)[OF b o2]] color_ops_alike(3)[OF b o2] by (cases "n \<ge> quota") simp_all
      qed
    qed
  qed (auto simp: add_color_tx_def LockCollection_def split: prod.split sum.split)
  show "runs_alike (alike e i) (colorsvc_AddColor quota i c h e) w v"
    by (rule runs_alike_cong, rule alike.InTx_alike[where fn = "add_color_tx quota i c h" and q = Pool, OF assms], erule tx)
      (simp_all add: colorsvc_AddColor_def)
  show "runs_alike (alike e i) (colorsvc_DeleteColor i c h e) w v"
    by (rule runs_alike_cong[OF resolved_alike[OF assms color_ops_alike(4)]])
      (simp_all add: colorsvc_DeleteColor_def ResolveCollection_def)
  show "runs_alike (alike e i) (colorsvc_DeleteAllColors i c e) w v"
    by (rule runs_alike_cong[OF resolved_alike[OF assms color_ops_alike(5)]])
      (simp_all add: colorsvc_DeleteAllColors_def ResolveCollection_def)
  show "runs_alike (alike e i) (colorsvc_ListColors i c p e) w v"
    by (rule runs_alike_cong[OF resolved_alike[OF assms color_ops_alike(6)]])
      (simp_all add: colorsvc_ListColors_def ResolveCollection_def)
qed

lemma collection_services_alike:
  assumes "alike e i w v"
  shows "runs_alike (alike e i) (collectionsvc_CreateCollection quota i p e) w v"
    "runs_alike (alike e i) (collectionsvc_ListCollections i e) w v"
    "runs_alike (alike e i) (collectionsvc_CollectionByID i c e) w v"
    "runs_alike (alike e i) (collectionsvc_UpdateCollection i c up e) w v"
    "runs_alike (alike e i) (collectionsvc_DeleteCollection i c e) w v"
proof -
  have tx: "runs_alike (alike e i) (create_collection_tx quota i p (Tx ts) e) w v" if "alike e i w v" for ts w v p
  proof (rule runs_alike_cong)
    let ?g = "\<lambda>_ w1. case CountCollections (Tx ts) i e w1 of
      (Inl err, w2) \<Rightarrow> (Inl err, w2)
    | (Inr n, w2) \<Rightarrow> (\<lambda>w2. if n \<ge> quota then (Inl (Sentinel CollectionErrQuotaFull), w2)
        else CreateCollection (Tx ts) i p e w2) w2"
    show "runs_alike (alike e i) (\<lambda>w. case LockUser (Tx ts) i e w of
        (Inl err, w1) \<Rightarrow> (Inl err, w1) | (Inr u, w1) \<Rightarrow> ?g u w1) w v"
    proof (rule alike.then_alike[OF reading_ops_alike(2)[OF that]], rule alike.then_alike[OF reading_ops_alike(4)])
      fix n w2 v2 assume b: "alike e i w2 v2"
      show "runs_alike (alike e i) (\<lambda>w2. if n \<ge> quota then (Inl (Sentinel CollectionErrQuotaFull), w2)
          else CreateCollection (Tx ts) i p e w2) w2 v2"
        using alike.value_alike[OF b] writing_ops_alike(2)[OF b] by (cases "n \<ge> quota") simp_all
    qed
  qed (auto simp: create_collection_tx_def split: prod.split sum.split)
  show "runs_alike (alike e i) (collectionsvc_CreateCollection quota i p e) w v"
    by (rule runs_alike_cong, rule alike.InTx_alike[where fn = "create_collection_tx quota i (p\<lparr>cp_IsDefault := False\<rparr>)" and q = Pool, OF assms], erule tx)
      (simp_all add: collectionsvc_CreateCollection_def)
  show "runs_alike (alike e i) (collectionsvc_ListCollections i e) w v"
    "runs_alike (alike e i) (collectionsvc_CollectionByID i c e) w v"
    "runs_alike (alike e i) (collectionsvc_UpdateCollection i c up e) w v"
    using reading_ops_alike(3,5)[OF assms] writing_ops_alike(3)[OF assms]
    by (simp_all add: runs_alike_def collectionsvc_ListCollections_def collectionsvc_CollectionByID_def
        collectionsvc_UpdateCollection_def)
  show "runs_alike (alike e i) (collectionsvc_DeleteCollection i c e) w v"
  proof (rule runs_alike_cong)
    show "runs_alike (alike e i) (\<lambda>w. case CollectionByID Pool i c e w of
        (Inl err, w1) \<Rightarrow> (Inl err, w1)
      | (Inr col, w1) \<Rightarrow> (\<lambda>w1. if col_IsDefault col then (Inl (Sentinel ErrDeleteDefault), w1)
          else DeleteCollection Pool i c e w1) w1) w v"
    proof (rule alike.then_alike[OF reading_ops_alike(5)[OF assms]])
      fix col w1 v1 assume a: "alike e i w1 v1"
      show "runs_alike (alike e i) (\<lambda>w1. if col_IsDefault col then (Inl (Sentinel ErrDeleteDefault), w1)
          else DeleteCollection Pool i c e w1) w1 v1"
        using alike.value_alike[OF a] writing_ops_alike(4)[OF a] by (cases "col_IsDefault col") simp_all
    qed
  qed (simp_all add: collectionsvc_DeleteCollection_def)
qed

lemma user_services_alike:
  assumes "alike e i w v"
  shows "runs_alike (alike e i) (usersvc_UserByID i e) w v"
    "runs_alike (alike e i) (usersvc_DeleteUser i e) w v"
    "runs_alike (alike e i) (usersvc_ExportUser i e) w v"
    "holds_token (w_tables w) i th \<Longrightarrow> runs_alike (alike e i) (Logout th e) w v"
proof -
  have tx: "runs_alike (alike e i) (export_user_tx i (Tx ts) e) w v" if "alike e i w v" for ts w v
  proof (rule runs_alike_cong)
    show "runs_alike (alike e i) (\<lambda>w. case UserByID (Tx ts) i e w of
        (Inl err, w1) \<Rightarrow> (Inl err, w1)
      | (Inr usr, w1) \<Rightarrow> (case ExportCollections (Tx ts) i e w1 of
           (Inl err, w2) \<Rightarrow> (Inl err, w2) | (Inr cs, w2) \<Rightarrow> (Inr (usr, cs), w2))) w v"
      by (rule alike.then_alike[OF reading_ops_alike(1)[OF that]], rule alike.answer_alike[OF reading_ops_alike(7)])
  qed (simp_all add: export_user_tx_def)
  show "runs_alike (alike e i) (usersvc_ExportUser i e) w v"
    by (rule runs_alike_cong, rule alike.InTx_alike[where fn = "export_user_tx i" and q = Pool, OF assms], erule tx)
      (simp_all add: usersvc_ExportUser_def)
  show "runs_alike (alike e i) (usersvc_UserByID i e) w v" "runs_alike (alike e i) (usersvc_DeleteUser i e) w v"
    using reading_ops_alike(1)[OF assms] writing_ops_alike(1)[OF assms]
    by (simp_all add: runs_alike_def usersvc_UserByID_def usersvc_DeleteUser_def)
  show "runs_alike (alike e i) (Logout th e) w v" if "holds_token (w_tables w) i th"
    using writing_ops_alike(5)[OF assms that, of Pool] by (simp add: runs_alike_def Logout_def)
qed

end
