(* ===== verification/Confidentiality.thy ===== *)
theory Confidentiality
  imports Two_Runs Api_Contracts
begin

text \<open>
  What a request can learn: the services answer alike in states that agree on the caller's account, so
  the API does, and no reply to a session depends on another account's data.
\<close>

section \<open>Handlers\<close>

lemma account_handlers_alike:
  assumes "alike (se_pg s) i w v"
  shows "runs_alike (alike (se_pg s) i) (HandleGetMe s req i) w v"
    "runs_alike (alike (se_pg s) i) (HandleDeleteMe s req i) w v"
    "runs_alike (alike (se_pg s) i) (HandleExport s req i) w v"
    "rq_token_hash req = Some hash \<Longrightarrow> holds_token (w_tables w) i hash \<Longrightarrow>
      runs_alike (alike (se_pg s) i) (HandleDeleteToken s req i) w v"
proof -
  note u = user_services_alike[OF assms]
  show "runs_alike (alike (se_pg s) i) (HandleGetMe s req i) w v" "runs_alike (alike (se_pg s) i) (HandleDeleteMe s req i) w v"
    using u(1,2) by (simp_all add: runs_alike_def HandleGetMe_def HandleDeleteMe_def reply_of_call)
  obtain r w1 v1 where "usersvc_ExportUser i (se_pg s) w = (r, w1)" "usersvc_ExportUser i (se_pg s) v = (r, v1)"
    "alike (se_pg s) i w1 v1"
    using u(3) by (cases "usersvc_ExportUser i (se_pg s) w"; cases "usersvc_ExportUser i (se_pg s) v") (auto simp: runs_alike_def)
  then show "runs_alike (alike (se_pg s) i) (HandleExport s req i) w v"
    by (auto simp: runs_alike_def HandleExport_def Let_def split: sum.split prod.split)
  show "runs_alike (alike (se_pg s) i) (HandleDeleteToken s req i) w v"
    if "rq_token_hash req = Some hash" "holds_token (w_tables w) i hash"
    using u(4)[OF that(2)] that(1)
    by (simp add: runs_alike_def HandleDeleteToken_def TokenHashFromContext_def reply_of_call)
qed

lemma collection_handlers_alike:
  assumes "alike (se_pg s) i w v"
  shows "runs_alike (alike (se_pg s) i) (HandleListCollections s req i) w v"
    "runs_alike (alike (se_pg s) i) (HandleCreateCollection s req i) w v"
    "runs_alike (alike (se_pg s) i) (HandleGetCollection s req i) w v"
    "runs_alike (alike (se_pg s) i) (HandleUpdateCollection s req i) w v"
    "runs_alike (alike (se_pg s) i) (HandleDeleteCollection s req i) w v"
  using collection_services_alike[OF assms] assms
  by (simp_all add: runs_alike_def HandleListCollections_def HandleCreateCollection_def HandleGetCollection_def
      HandleUpdateCollection_def HandleDeleteCollection_def reply_of_call split: sum.split)

lemma color_handlers_alike:
  assumes "alike (se_pg s) i w v"
  shows "runs_alike (alike (se_pg s) i) (HandleListColors s req i) w v"
    "runs_alike (alike (se_pg s) i) (HandleAddColor s req i) w v"
    "runs_alike (alike (se_pg s) i) (HandleDeleteAllColors s req i) w v"
    "runs_alike (alike (se_pg s) i) (HandleDeleteColor s req i) w v"
  using color_services_alike[OF assms] assms
  by (simp_all add: runs_alike_def HandleListColors_def HandleAddColor_def HandleDeleteAllColors_def
      HandleDeleteColor_def reply_of_call split: sum.split)

lemma public_handlers_alike:
  assumes "alike (se_pg s) i w v"
  shows "runs_alike (alike (se_pg s) i) (HandleReady s req) w v"
    "h \<in> {HandleLive, HandleVersion, HandleListCommonColors, HandleListShades, HandleColorInfo, HandleHarmony}
      \<Longrightarrow> runs_alike (alike (se_pg s) i) (h s req) w v"
    "runs_alike (alike (se_pg s) i) (NewStaticHandler files s req) w v"
proof -
  show "runs_alike (alike (se_pg s) i) (HandleReady s req) w v"
    using reading_ops_alike(8)[OF assms, of Pool] by (simp add: runs_alike_def HandleReady_def reply_of_call)
  show "runs_alike (alike (se_pg s) i) (h s req) w v"
    if "h \<in> {HandleLive, HandleVersion, HandleListCommonColors, HandleListShades, HandleColorInfo, HandleHarmony}"
    using that assms by (auto simp: runs_alike_def HandleLive_def HandleVersion_def HandleListCommonColors_def
        HandleListShades_def HandleColorInfo_def HandleHarmony_def Let_def)
  show "runs_alike (alike (se_pg s) i) (NewStaticHandler files s req) w v"
    using assms by (simp add: runs_alike_def NewStaticHandler_def)
qed

section \<open>Routes\<close>

definition discreet :: "route \<Rightarrow> bool" where
  "discreet r = (case r of
       Open h \<Rightarrow> \<forall>s req i w v. alike (se_pg s) i w v \<longrightarrow> runs_alike (alike (se_pg s) i) (h s req) w v
     | BcryptLimited _ \<Rightarrow> True
     | Authed h \<Rightarrow> \<forall>s req i w v hash. alike (se_pg s) i w v \<and> rq_token_hash req = Some hash
         \<and> holds_token (w_tables w) i hash \<longrightarrow> runs_alike (alike (se_pg s) i) (h s req i) w v)"

lemma routes_discreet: "list_all (\<lambda>pr. discreet (snd pr)) (routes cfg)"
  by (simp add: routes_def discreet_def account_handlers_alike collection_handlers_alike color_handlers_alike
      public_handlers_alike)

text \<open>Signing up tells whether a nickname is taken, and signing in is for who knows a password.\<close>

definition enters :: "request \<Rightarrow> bool" where
  "enters req \<longleftrightarrow> rq_method req = ''POST''
     \<and> pathSegments (rq_path req) \<in> {[''api'', ''v1'', ''users''], [''api'', ''v1'', ''tokens'']}"

lemma limited_enters:
  assumes "ServeMux (routes cfg) req = Some (BcryptLimited h, binds)"
  shows "enters req"
proof -
  obtain m p where m: "m = rq_method req \<or> m = ''GET'' \<or> m = []" and p: "(p, BcryptLimited h) \<in> set (routes cfg)"
    "matchPattern p m (pathSegments (rq_path req)) = Some binds"
    using assms by (auto simp: ServeMux_def Let_def split: option.splits if_splits dest!: findPattern_match)
  then show ?thesis
    using limited_routes[OF p(1)]
    by (auto simp: limited_patterns matchPattern_def enters_def matchSegments_iff split: if_splits)
qed

lemma authenticate_alike:
  assumes "alike (se_pg s) i w v" "session s req w = Some (hash, i)" "discreet (Authed h)"
  shows "runs_alike (alike (se_pg s) i) (authenticate h s req) w v"
proof -
  let ?e = "se_pg s" and ?w = "w\<lparr>w_round := Suc (w_round w)\<rparr>" and ?v = "v\<lparr>w_round := Suc (w_round w)\<rparr>"
  obtain t where t: "bearer req = Some t" "hash = HashToken (se_cy s) t"
    and u: "fst (UserIDForTokenHash Pool hash ?e w) = Inr i"
    using assms(2) by (auto simp: session_def split: option.splits sum.splits)
  have r: "w_round w = w_round v" using assms(1) by (simp add: alike_def)
  have link: "pe_link ?e (w_round w) = Delivered" and
    f: "\<exists>x. find (\<lambda>r. tr_hash r = hash \<and> tr_expiry r > pe_clock ?e (w_round w)) (t_tokens (w_tables w)) = Some x \<and> tr_user_id x = i"
    using u by (auto simp: UserIDForTokenHash_def send_def sql_user_for_token_def now_def Let_def
        split: prod.splits sum.splits link.splits option.splits)
  obtain x where x: "x \<in> set (t_tokens (w_tables w))" "tr_hash x = hash" "tr_expiry x > pe_clock ?e (w_round w)" "tr_user_id x = i"
    using f unfolding find_Some_iff by (metis nth_mem)
  note d = alike_tablesD[OF alikeD(1)[OF assms(1)]]
  have "x \<in> set (filter (\<lambda>r. tr_user_id r = i) (t_tokens (w_tables v)))" unfolding d(2)[symmetric] using x by simp
  then have xv: "x \<in> set (t_tokens (w_tables v))" by simp
  have "inj_on tr_hash (set (t_tokens (w_tables v)))" using d(9) by (simp add: schema_ok_def tokens_ok_def distinct_map)
  then have fv: "find (\<lambda>r. tr_hash r = hash \<and> tr_expiry r > pe_clock ?e (w_round w)) (t_tokens (w_tables v)) = Some x"
    using xv x by (intro find_unique) (auto dest: inj_onD)
  have U: "UserIDForTokenHash Pool hash ?e w = (Inr i, ?w)" "UserIDForTokenHash Pool hash ?e v = (Inr i, ?v)"
    using f fv x(4) link r
    by (auto simp: UserIDForTokenHash_def send_def sql_user_for_token_def now_def Let_def)
  have "holds_token (w_tables ?w) i hash" using x by (auto simp: holds_token_def)
  then have "runs_alike (alike ?e i) (h s (ContextWithTokenHash hash req) i) ?w ?v"
    using assms(3) alike.any_round[OF assms(1)] by (simp add: discreet_def ContextWithTokenHash_def)
  then show ?thesis using t U by (auto simp: runs_alike_def authenticate_bearer split: prod.split)
qed

text \<open>
  C5. Confidentiality.  What a session is told depends on its own account only: in two states of the
  database that hold the same for account \<^verbatim>\<open>i\<close>, and may differ in every other account, a request with a
  token of \<^verbatim>\<open>i\<close> gets the same reply, status, headers and body, on every route but signing up and
  in, whatever its ids and its content and whichever round trips are lost; and the states still hold the
  same for \<^verbatim>\<open>i\<close> afterwards, so that this goes on for any number of requests.
\<close>

theorem replies_are_confidential:
  assumes "alike (se_pg s) i w v" "session s req w = Some (hash, i)" "\<not> enters req"
  shows "fst (newMux cfg adm s req w) = fst (newMux cfg adm s req v)
    \<and> alike (se_pg s) i (snd (newMux cfg adm s req w)) (snd (newMux cfg adm s req v))"
proof (cases "ServeMux (routes cfg) req")
  case None
  then show ?thesis using assms(1) by (simp add: newMux_def)
next
  case (Some rb)
  then obtain r binds where rb: "ServeMux (routes cfg) req = Some (r, binds)" by (cases rb) simp
  have d: "discreet r" using routes_discreet[of cfg] ServeMux_in[OF rb] by (auto simp: list_all_iff)
  let ?s = "configured cfg s" and ?req = "req\<lparr>rq_PathValue := PathValue binds\<rparr>"
  have "runs_alike (alike (se_pg s) i) (run_route cfg adm r ?s ?req) w v"
  proof (cases r)
    case (Open h)
    have "alike (se_pg ?s) i w v" using assms(1) by simp
    then have "runs_alike (alike (se_pg ?s) i) (h ?s ?req) w v" using d unfolding Open discreet_def route.case by blast
    then show ?thesis using Open by (simp add: run_route_def runs_alike_def)
  next
    case (BcryptLimited h)
    then show ?thesis using limited_enters rb assms(3) by blast
  next
    case (Authed h)
    then show ?thesis
      using authenticate_alike[of ?s i w v ?req hash h] d assms(1,2) by (simp add: run_route_def runs_alike_def)
  qed
  then show ?thesis using rb by (simp add: newMux_def runs_alike_def)
qed

text \<open>The same database with another account, its collection and a colour in it.\<close>

definition crowded :: world where
  "crowded = logged_in\<lparr>w_tables :=
     \<lparr>t_users = t_users (w_tables logged_in) @
        [\<lparr>ur_id = 7, ur_nickname = ''eve'', ur_password_hash = ''x'', ur_created_at = 5\<rparr>],
      t_tokens = t_tokens (w_tables logged_in),
      t_collections = \<lparr>cr_id = 70, cr_user_id = 7, cr_name = ''Secret'', cr_icon_slug = DefIconSlug,
          cr_icon_accent = DefIconAccent, cr_is_default = True, cr_created_at = 5\<rparr> # t_collections (w_tables logged_in),
      t_colors = \<lparr>xr_collection_id = 70, xr_hex = ''#00ff7f'', xr_created_at = 6, xr_color_key = 0\<rparr>
        # t_colors (w_tables logged_in)\<rparr>\<rparr>"

theorem replies_are_confidential_witness:
  "fst (newMux sample_cfg Slot (sample_server\<lparr>se_pg := sample_env\<lparr>pe_uuid := \<lambda>_. 9\<rparr>\<rparr>)
      (sample_request ''GET'' ''/api/v1/me/collections'' [''Bearer secret'']) logged_in)
    = fst (newMux sample_cfg Slot (sample_server\<lparr>se_pg := sample_env\<lparr>pe_uuid := \<lambda>_. 9\<rparr>\<rparr>)
      (sample_request ''GET'' ''/api/v1/me/collections'' [''Bearer secret'']) crowded)"
proof -
  let ?s = "sample_server\<lparr>se_pg := sample_env\<lparr>pe_uuid := \<lambda>_. 9\<rparr>\<rparr>"
  let ?req = "sample_request ''GET'' ''/api/v1/me/collections'' [''Bearer secret'']"
  have "delivered (sample_env\<lparr>pe_uuid := \<lambda>_. 9\<rparr>)" using sample_delivered by (simp add: delivered_def)
  then have "session ?s ?req logged_in = Some (''terces'', 1)"
    by (simp add: session_def bearer_def CutPrefix_def Header_Get_def sample_request_def bearerPrefix_def
        bearerScheme_def HashToken_def UserIDForTokenHash_delivered logged_in_def signed_up_eval)
  moreover have "alike (se_pg ?s) 1 logged_in crowded"
  proof (rule alike_intro[OF _ logged_in_schema])
    show "schema_ok (w_tables crowded)"
      using logged_in_schema
      by (simp add: crowded_def logged_in_def signed_up_eval schema_ok_def users_ok_def tokens_ok_def collections_ok_def
          colors_ok_def citext_key_def ascii_lower_def normal_hex_def HexLen_def is_hex_digit_def hex_digits_def)
    show "user_view 1 (w_tables logged_in) = user_view 1 (w_tables crowded)"
      by (simp add: user_view_def owns_def crowded_def logged_in_def signed_up_eval)
    show "ids_drawn (se_pg ?s) (w_tables logged_in) n = ids_drawn (se_pg ?s) (w_tables crowded) n" for n
      by (simp add: ids_drawn_def crowded_def logged_in_def signed_up_eval)
  qed (simp add: crowded_def)
  moreover have "\<not> enters ?req" by (simp add: enters_def sample_request_def)
  ultimately show ?thesis using replies_are_confidential by blast
qed

end
