(* ===== verification/Export.thy ===== *)
theory Export
  imports Paging
begin

text \<open>
  The export: the loop of \<^verbatim>\<open>ExportCollections\<close> folds joined rows back into collections.  It is compared
  with a direct description, one entry per collection with its own sorted colours.
\<close>

section \<open>The description\<close>

definition export_spec :: "pg_env \<Rightarrow> tables \<Rightarrow> user_id \<Rightarrow> clt_with_colors list" where
  "export_spec e t i =
     map (\<lambda>c. \<lparr>cwc_Clt = scan_collection e c, cwc_Colors = map (scan_color e)
         (sort_key (\<lambda>x. (xr_created_at x, xr_hex x)) (colors_of (cr_id c) t))\<rparr>)
       (sort_key (\<lambda>c. (cr_created_at c, cr_id c)) (collections_of i t))"

text \<open>The joined rows of one collection in the query's order.\<close>

definition joined :: "tables \<Rightarrow> collection_row \<Rightarrow> (collection_row \<times> color_row option) list" where
  "joined t c = (case sort_key (\<lambda>x. (xr_created_at x, xr_hex x)) (colors_of (cr_id c) t) of
     [] \<Rightarrow> [(c, None)] | xs \<Rightarrow> map (\<lambda>x. (c, Some x)) xs)"

section \<open>The order of the joined rows\<close>

lemma joined_mset: "mset (joined t c) = mset (join_colors t c)"
proof (cases "colors_of (cr_id c) t")
  case Nil
  then show ?thesis by (simp add: joined_def join_colors_def)
next
  case (Cons x xs)
  let ?s = "sort_key (\<lambda>x. (xr_created_at x, xr_hex x)) (colors_of (cr_id c) t)"
  have "?s \<noteq> []" using Cons by (metis length_0_conv length_sort list.discI)
  then have "joined t c = map (\<lambda>x. (c, Some x)) ?s" by (cases ?s) (auto simp: joined_def)
  moreover have "join_colors t c = map (\<lambda>x. (c, Some x)) (colors_of (cr_id c) t)"
    using Cons by (simp add: join_colors_def)
  ultimately show ?thesis by simp
qed

lemma joined_set:
  "p \<in> set (joined t c) \<Longrightarrow> fst p = c \<and> (case snd p of None \<Rightarrow> colors_of (cr_id c) t = []
     | Some x \<Rightarrow> x \<in> set (colors_of (cr_id c) t))"
proof -
  assume "p \<in> set (joined t c)"
  then have "p \<in> set (join_colors t c)" using joined_mset by (metis mset_eq_setD)
  then show ?thesis by (auto simp: join_colors_def split: list.splits option.splits)
qed

lemma joined_sorted: "sorted (map export_key (joined t c))"
proof -
  let ?k = "\<lambda>x. (xr_created_at x, xr_hex x)"
  let ?s = "sort_key ?k (colors_of (cr_id c) t)"
  have "sorted (map ?k ?s)" by simp
  then have "sorted_wrt (\<lambda>x y. ?k x \<le> ?k y) ?s" by (simp add: sorted_map)
  then have "sorted_wrt (\<lambda>x y. export_key (c, Some x) \<le> export_key (c, Some y)) ?s"
    by (rule sorted_wrt_mono_rel[rotated]) (simp add: export_key_def)
  then show ?thesis
    by (cases ?s) (simp_all add: joined_def sorted_map sorted_wrt_map)
qed

text \<open>Rows of an earlier collection come first.\<close>

lemma joined_before:
  assumes "(cr_created_at c, cr_id c) < (cr_created_at d, cr_id d)"
    and "p \<in> set (joined t c)" "q \<in> set (joined t d)"
  shows "export_key p \<le> export_key q"
proof -
  obtain x y where "p = (c, x)" "q = (d, y)" using joined_set assms(2,3) by (metis prod.collapse)
  then show ?thesis using assms(1) by (auto simp: export_key_def less_eq_prod_def less_prod_def)
qed

lemma concat_joined_sorted:
  "sorted_wrt (\<lambda>c d. (cr_created_at c, cr_id c) < (cr_created_at d, cr_id d)) ds \<Longrightarrow>
    sorted (map export_key (concat (map (joined t) ds)))"
proof (induction ds)
  case (Cons c ds)
  then show ?case
    using joined_sorted[of t c] joined_before[of c _ _ t] by (fastforce simp: sorted_append)
qed simp

lemma export_key_inj:
  assumes "distinct (map cr_id cs)" and "colors_ok t"
  shows "inj_on export_key (set (concat (map (joined t) cs)))"
proof (rule inj_onI)
  fix p q
  assume "p \<in> set (concat (map (joined t) cs))" "q \<in> set (concat (map (joined t) cs))"
    and k: "export_key p = export_key q"
  then obtain c d where c: "c \<in> set cs" "p \<in> set (joined t c)" and d: "d \<in> set cs" "q \<in> set (joined t d)" by auto
  note p = joined_set[OF c(2)] and q = joined_set[OF d(2)]
  have "cr_id c = cr_id d" using k p q by (auto simp: export_key_def split: prod.splits)
  then have cd: "c = d" using assms(1) c(1) d(1) by (auto simp: distinct_map dest: inj_onD)
  have "snd p = snd q"
  proof (cases "snd p"; cases "snd q")
    fix x y assume xy: "snd p = Some x" "snd q = Some y"
    then have "xr_hex x = xr_hex y" using k by (auto simp: export_key_def split: prod.splits)
    moreover have "xr_collection_id x = xr_collection_id y" "x \<in> set (t_colors t)" "y \<in> set (t_colors t)"
      using p q xy cd by (auto simp: colors_of_def)
    ultimately have "x = y" using assms(2) by (auto simp: colors_ok_def distinct_map dest: inj_onD)
    then show "snd p = snd q" using xy by simp
  qed (use p q cd in auto)
  then show "p = q" using p q cd by (metis prod.collapse)
qed

lemma mset_concat_map: "mset (concat (map f xs)) = (\<Sum>x \<in># mset xs. mset (f x))"
  by (induction xs) simp_all

lemma export_rows:
  assumes "distinct (map cr_id cs)" and "colors_ok t"
  shows "sort_key export_key (concat (map (join_colors t) cs)) =
    concat (map (joined t) (sort_key (\<lambda>c. (cr_created_at c, cr_id c)) cs))"
proof -
  let ?k = "\<lambda>c. (cr_created_at c, cr_id c)"
  let ?ds = "sort_key ?k cs"
  have m: "mset (concat (map (joined t) ?ds)) = mset (concat (map (join_colors t) cs))"
    using mset_concat_map[of "joined t" ?ds] mset_concat_map[of "join_colors t" cs] by (simp add: joined_mset)
  have "distinct (map ?k cs)" using assms(1) by (auto simp: distinct_map inj_on_def)
  then have "sorted_wrt (\<lambda>c d. ?k c < ?k d) ?ds" by (rule sorted_wrt_sort_key_strict)
  then have "sorted (map export_key (concat (map (joined t) ?ds)))" by (rule concat_joined_sorted)
  moreover have "distinct (map cr_id ?ds)" using assms(1) by (simp add: distinct_map)
  then have "inj_on export_key (set (concat (map (joined t) ?ds)))" using assms(2) by (rule export_key_inj)
  ultimately show ?thesis
    using m by (intro sort_key_inj_key_eq) (simp_all only: mset_eq_setD[OF m])
qed

section \<open>Folding the rows back\<close>

lemma fold_same_collection:
  "foldl (export_step e) (out @ [\<lparr>cwc_Clt = scan_collection e c, cwc_Colors = ys\<rparr>]) (map (\<lambda>x. (c, Some x)) xs) =
    out @ [\<lparr>cwc_Clt = scan_collection e c, cwc_Colors = ys @ map (scan_color e) xs\<rparr>]"
  by (induction xs arbitrary: ys) (simp_all add: export_step_def Let_def)

lemma fold_joined:
  assumes "out = [] \<or> col_ID (cwc_Clt (last out)) \<noteq> cr_id c"
  shows "foldl (export_step e) out (joined t c) = out @ [\<lparr>cwc_Clt = scan_collection e c, cwc_Colors =
    map (scan_color e) (sort_key (\<lambda>x. (xr_created_at x, xr_hex x)) (colors_of (cr_id c) t))\<rparr>]"
proof (cases "sort_key (\<lambda>x. (xr_created_at x, xr_hex x)) (colors_of (cr_id c) t)")
  case Nil
  then show ?thesis
    using assms by (auto simp: joined_def export_step_def scan_collection_def Let_def)
next
  case (Cons x xs)
  have "export_step e out (c, Some x) = out @ [\<lparr>cwc_Clt = scan_collection e c, cwc_Colors = [scan_color e x]\<rparr>]"
    using assms by (auto simp: export_step_def scan_collection_def Let_def)
  then show ?thesis
    using fold_same_collection[of e out c "[scan_color e x]" xs] by (simp add: joined_def Cons)
qed

lemma fold_export:
  assumes "distinct (map cr_id ds)" "out = [] \<or> col_ID (cwc_Clt (last out)) \<notin> cr_id ` set ds"
  shows "foldl (export_step e) out (concat (map (joined t) ds)) = out @ map (\<lambda>c. \<lparr>cwc_Clt = scan_collection e c,
    cwc_Colors = map (scan_color e) (sort_key (\<lambda>x. (xr_created_at x, xr_hex x)) (colors_of (cr_id c) t))\<rparr>) ds"
  using assms
proof (induction ds arbitrary: out)
  case (Cons c ds)
  let ?g = "\<lambda>c. \<lparr>cwc_Clt = scan_collection e c, cwc_Colors =
    map (scan_color e) (sort_key (\<lambda>x. (xr_created_at x, xr_hex x)) (colors_of (cr_id c) t))\<rparr>"
  have "foldl (export_step e) out (joined t c) = out @ [?g c]" using Cons.prems(2) by (intro fold_joined) auto
  moreover have "foldl (export_step e) (out @ [?g c]) (concat (map (joined t) ds)) = (out @ [?g c]) @ map ?g ds"
    using Cons.prems(1) by (intro Cons.IH) (auto simp: scan_collection_def)
  ultimately show ?case by simp
qed simp

text \<open>
  C14. The export is the caller's account, without its password hash, and every collection of it
  with its colours: collections by date and id, each one's colours by date and hex, an empty
  collection with an empty list.  An account that does not exist is reported.
\<close>

theorem ExportUser_contract:
  assumes "delivered e" and "schema_ok (w_tables w)"
  shows "fst (usersvc_ExportUser i e w) =
    (case find (\<lambda>r. ur_id r = i) (t_users (w_tables w)) of
       None \<Rightarrow> Inl (Sentinel ErrUserNotFound)
     | Some r \<Rightarrow> Inr ((scan_user e r)\<lparr>user_PasswordHash := []\<rparr>, export_spec e (w_tables w) i))
    \<and> w_tables (snd (usersvc_ExportUser i e w)) = w_tables w"
proof -
  let ?t = "w_tables w"
  let ?cs = "collections_of i ?t"
  let ?ds = "sort_key (\<lambda>c. (cr_created_at c, cr_id c)) ?cs"
  have d: "distinct (map cr_id ?cs)"
    using assms(2) by (simp add: schema_ok_def collections_ok_def collections_of_def distinct_map_filter)
  then have "distinct (map cr_id ?ds)" by (simp add: distinct_map)
  moreover have "sort_key export_key (concat (map (join_colors ?t) ?cs)) = concat (map (joined ?t) ?ds)"
    using d assms(2) by (intro export_rows) (simp_all add: schema_ok_def)
  ultimately have "foldl (export_step e) [] (sort_key export_key (concat (map (join_colors ?t) ?cs)))
      = export_spec e ?t i"
    using fold_export[of ?ds "[]" e ?t] by (simp only: export_spec_def append_Nil simp_thms)
  then have x: "ExportCollections q i e u = (Inr (export_spec e ?t i), u\<lparr>w_round := Suc (w_round u)\<rparr>)"
    if "w_tables u = ?t" for q u
    using that assms(1)
    by (simp add: ExportCollections_def sql_export_def send_ok Let_def collections_of_def)
  show ?thesis
    using x InTx_delivered[OF assms(1), of "export_user_tx i" w] assms(1)
    by (auto simp: usersvc_ExportUser_def export_user_tx_def UserByID_def sql_user_by_id_def send_ok row_error_def
        split: option.split)
qed

theorem ExportUser_contract_witness:
  "fst (usersvc_ExportUser 1 sample_env signed_up) = Inr (sample_user\<lparr>user_ID := 1, user_PasswordHash := []\<rparr>,
    [\<lparr>cwc_Clt = \<lparr>col_ID = 2, col_Name = DefCollectionName, col_IconSlug = DefIconSlug,
        col_IconAccent = DefIconAccent, col_IsDefault = True, col_CreatedAt = Time 0 0\<rparr>, cwc_Colors = []\<rparr>])"
  using ExportUser_contract[OF sample_delivered signed_up_schema, of 1]
  by (simp add: signed_up_eval export_spec_def collections_of_def colors_of_def scan_user_def scan_collection_def
      scan_time_def sample_user_def sample_env_def)

end
