(* ===== verification/Api_Paging.thy ===== *)
theory Api_Paging
  imports Api_Contracts
begin

text \<open>
  A client reading a collection page by page through \<^verbatim>\<open>HandleListColors\<close>, handing each answer's
  \<^verbatim>\<open>next_cursor\<close> back until an answer has none.
\<close>

section \<open>The client\<close>

definition with_cursor :: "string \<Rightarrow> request \<Rightarrow> request" where
  "with_cursor token req = req\<lparr>rq_Query := (rq_Query req)(cursorQuery := token)\<rparr>"

text \<open>Running out of fuel or an answer that is not a page is \<^verbatim>\<open>None\<close>.\<close>

fun follow_api :: "nat \<Rightarrow> server_env \<Rightarrow> request \<Rightarrow> user_id \<Rightarrow> string \<Rightarrow> world \<Rightarrow> saved_color_resp list option" where
  "follow_api 0 s req i token w = None"
| "follow_api (Suc k) s req i token w =
     (case HandleListColors s (with_cursor token req) i w of
        (r, w') \<Rightarrow>
          (case rp_body r of
             ColorsBody page \<Rightarrow>
               if cm_NextCursor (lcr_Metadata page) = [] then Some (lcr_Colors page)
               else map_option (\<lambda>rest. lcr_Colors page @ rest)
                 (follow_api k s req i (cm_NextCursor (lcr_Metadata page)) w')
           | _ \<Rightarrow> None))"

section \<open>A decoded cursor serves like the colour it was made from\<close>

lemma EncodeToString_empty: "EncodeToString s = [] \<longleftrightarrow> s = []"
proof
  assume "EncodeToString s = []"
  then have "DecodeString (EncodeToString s) = DecodeString (EncodeToString [])"
    by (simp add: EncodeToString_def)
  then show "s = []" by (simp add: DecodeString_EncodeToString)
qed (simp add: EncodeToString_def)

lemma encodeCursor_not_empty: "encodeCursor srt order x \<noteq> []"
  by (simp add: encodeCursor_def EncodeToString_empty cursorSep_def)

text \<open>The orders by hex and by colour do not look at the cursor's date.\<close>

lemma keyset_by_hex:
  assumes "lp_Sort p = SortByHex \<or> lp_Sort p = SortByColor"
  shows "keyset m (p\<lparr>lp_After := Some \<lparr>cur_CreatedAt = t, cur_Hex = h\<rparr>\<rparr>)
    = keyset m (p\<lparr>lp_After := Some \<lparr>cur_CreatedAt = t', cur_Hex = h\<rparr>\<rparr>)"
  using assms by (auto simp: keyset_def Let_def)

lemma ListColors_by_hex:
  assumes "lp_Sort p = SortByHex \<or> lp_Sort p = SortByColor" "valid_params p"
  shows "ListColors q c (p\<lparr>lp_After := Some \<lparr>cur_CreatedAt = t, cur_Hex = h\<rparr>\<rparr>) e w
    = ListColors q c (p\<lparr>lp_After := Some \<lparr>cur_CreatedAt = t', cur_Hex = h\<rparr>\<rparr>) e w"
proof -
  have v: "valid_params (p\<lparr>lp_After := a\<rparr>)" for a using assms(2) by (simp add: valid_params_def)
  have "listQuery m (p\<lparr>lp_After := Some \<lparr>cur_CreatedAt = t, cur_Hex = h\<rparr>\<rparr>) c
      = listQuery m (p\<lparr>lp_After := Some \<lparr>cur_CreatedAt = t', cur_Hex = h\<rparr>\<rparr>) c" for m
    using keyset_by_hex[OF assms(1), of m t h t'] by (simp add: listQuery_def split: sum.split)
  then show ?thesis
    by (simp add: ListColors_def normalizedParams_valid[OF v] Let_def split: sum.split prod.split)
qed

text \<open>What a page that follows row \<^verbatim>\<open>r\<close> asks for, and what its cursor decodes to.\<close>

definition cursor_token :: "pg_env \<Rightarrow> list_params \<Rightarrow> color_row option \<Rightarrow> string" where
  "cursor_token e p ro = (case ro of
     None \<Rightarrow> [] | Some r \<Rightarrow> encodeCursor (lp_Sort p) (lp_Order p) (scan_color e r))"

lemma token_not_empty: "cursor_token e p (Some r) \<noteq> []"
  by (simp add: cursor_token_def encodeCursor_not_empty)

definition decoded :: "pg_env \<Rightarrow> list_params \<Rightarrow> color_row option \<Rightarrow> color_cursor option" where
  "decoded e p ro = map_option (\<lambda>r. \<lparr>cur_CreatedAt = (if lp_Sort p = SortByCreatedAt then color_CreatedAt (scan_color e r)
      else zeroTime), cur_Hex = xr_hex r\<rparr>) ro"

lemma ListColors_decoded:
  assumes "valid_params p"
  shows "ListColors q c (p\<lparr>lp_After := decoded e p ro\<rparr>) e w
    = ListColors q c (p\<lparr>lp_After := map_option (\<lambda>r. cursor_at (scan_color e r)) ro\<rparr>) e w"
proof (cases "lp_Sort p = SortByCreatedAt")
  case True
  then show ?thesis by (simp add: decoded_def cursor_at_def scan_color_def)
next
  case False
  then have s: "lp_Sort p = SortByHex \<or> lp_Sort p = SortByColor" using assms by (auto simp: valid_params_def)
  show ?thesis
    using False ListColors_by_hex[OF s assms] by (cases ro) (auto simp: decoded_def cursor_at_def scan_color_def)
qed

section \<open>One page\<close>

text \<open>
  The request: its collection, sort, order and limit parse to those of \<^verbatim>\<open>p\<close>, whatever cursor it carries.
\<close>

definition asks_for :: "server_env \<Rightarrow> request \<Rightarrow> clt_id \<Rightarrow> list_params \<Rightarrow> bool" where
  "asks_for s req c p \<longleftrightarrow> collectionIDFromPath s req = Inr c \<and> valid_params p
     \<and> rq_Query req sortQuery = lp_Sort p \<and> rq_Query req orderQuery = lp_Order p
     \<and> (\<forall>token. hl_ParseIntQuery (se_lib s) (with_cursor token req) limitQuery DefaultColorLimit 1 MaxColorLimit
          = Inr (lp_Limit p))"

lemma queries_distinct [simp]:
  "sortQuery \<noteq> cursorQuery" "orderQuery \<noteq> cursorQuery"
  by (simp_all add: sortQuery_def cursorQuery_def orderQuery_def)

lemma listColorsParams_asks:
  assumes "asks_for s req c p" "token = cursor_token e p ro"
    and "\<And>r. ro = Some r \<Longrightarrow> normal_hex (xr_hex r) \<and> printable (scan_time e (xr_created_at r))
      \<and> sv_ParseHex (se_sv s) hexCfg (xr_hex r) = Inr (xr_hex r)"
  shows "listColorsParams s (with_cursor token req) = Inr (p\<lparr>lp_After := decoded e p ro\<rparr>)"
proof -
  have v: "valid_params p" using assms(1) by (simp add: asks_for_def)
  then have srt: "lp_Sort p \<in> {SortByCreatedAt, SortByHex, SortByColor}" and ord: "lp_Order p \<in> {OrderAsc, OrderDesc}"
    by (auto simp: valid_params_def)
  have ne: "lp_Sort p \<noteq> []" "lp_Order p \<noteq> []"
    using srt ord by (auto simp: SortByCreatedAt_def SortByHex_def SortByColor_def OrderAsc_def OrderDesc_def)
  have parse: "ParseColorSort (lp_Sort p) = Inr (lp_Sort p)" "ParseSortOrder (lp_Order p) = Inr (lp_Order p)"
    using srt ord by (auto simp: ParseColorSort_def ParseSortOrder_def)
  have dec: "optional (\<lambda>c. decodeCursor (se_sv s) c (lp_Sort p) (lp_Order p)) (if token \<noteq> [] then Some token else None)
      = Inr (decoded e p ro)"
  proof (cases ro)
    case None
    then show ?thesis by (simp add: optional_def assms(2) cursor_token_def decoded_def)
  next
    case (Some r)
    then show ?thesis
      using decodeCursor_encodeCursor[OF srt ord, of "scan_color e r" "se_sv s"] assms(3)[OF Some] encodeCursor_not_empty
      by (simp add: optional_def assms(2) cursor_token_def decoded_def scan_color_def)
  qed
  show ?thesis
    using assms(1) ne parse dec
    by (simp add: listColorsParams_def asks_for_def with_cursor_def Let_def)
qed

lemma HandleListColors_page:
  assumes "asks_for s req c p" "token = cursor_token (se_pg s) p ro" "delivered (se_pg s)"
    and "owns (w_tables w) i c" "colors_ok (w_tables w)"
    and r: "\<And>r. ro = Some r \<Longrightarrow> xr_color_key r = Feel (pe_math (se_pg s)) (xr_hex r) \<and> normal_hex (xr_hex r)
      \<and> printable (scan_time (se_pg s) (xr_created_at r)) \<and> sv_ParseHex (se_sv s) hexCfg (xr_hex r) = Inr (xr_hex r)"
  shows "HandleListColors s (with_cursor token req) i w =
    (let xs = listing p (rows_after p ro (colors_of c (w_tables w))); n = nat (lp_Limit p) in
     (WriteJSON 200 (ColorsBody \<lparr>lcr_Colors = map savedColorResp (map (scan_color (se_pg s)) (take n xs)),
        lcr_Metadata = \<lparr>cm_Limit = lp_Limit p, cm_NextCursor =
          (if n < length xs then cursor_token (se_pg s) p (Some (last (take n xs))) else [])\<rparr>\<rparr>),
      w\<lparr>w_round := w_round w + 2\<rparr>))"
proof -
  have v: "valid_params p" and c: "collectionIDFromPath s (with_cursor token req) = Inr c"
    using assms(1) by (simp_all add: asks_for_def collectionIDFromPath_def with_cursor_def)
  have n: "0 < nat (lp_Limit p)" using v by (simp add: valid_params_def)
  let ?xs = "listing p (rows_after p ro (colors_of c (w_tables w)))"
  have l: "last (map (scan_color (se_pg s)) (take (nat (lp_Limit p)) ?xs)) = scan_color (se_pg s) (last (take (nat (lp_Limit p)) ?xs))"
    if "nat (lp_Limit p) < length ?xs"
    using that n listing_length[of p "rows_after p ro (colors_of c (w_tables w))"]
    by (intro last_map) (auto simp del: listing_length)
  have params: "listColorsParams s (with_cursor token req) = Inr (p\<lparr>lp_After := decoded (se_pg s) p ro\<rparr>)"
    by (rule listColorsParams_asks[OF assms(1,2)]) (use r in blast)
  show ?thesis
    using assms(3,4) c params l n
      ListColors_page[OF assms(3) v, where ro = ro and q = Pool and c = c and w = "w\<lparr>w_round := Suc (w_round w)\<rparr>"] r
    by (auto simp: HandleListColors_def colorsvc_ListColors_def ResolveCollection_def resolve_delivered
        ListColors_decoded[OF v] Let_def cursor_token_def)
qed

section \<open>All pages\<close>

text \<open>The colours of the collection: keys as stored, hexes the library accepts, dates the format prints.\<close>

definition listable :: "server_env \<Rightarrow> color_row list \<Rightarrow> bool" where
  "listable s rows \<longleftrightarrow> (\<forall>r \<in> set rows. printable (scan_time (se_pg s) (xr_created_at r))
     \<and> sv_ParseHex (se_sv s) hexCfg (xr_hex r) = Inr (xr_hex r))"

lemma follow_api_listing:
  assumes "asks_for s req c p" "delivered (se_pg s)" "owns (w_tables w) i c" "colors_ok (w_tables w)"
    "keys_ok (pe_math (se_pg s)) (w_tables w)" "rows = colors_of c (w_tables w)" "listable s rows"
    and "k \<le> length rows" "length rows < k + fuel"
    and "ro = (if k = 0 then None else Some (last (take k (listing p rows))))"
  shows "follow_api fuel s req i (cursor_token (se_pg s) p ro) w
    = Some (map (\<lambda>r. savedColorResp (scan_color (se_pg s) r)) (drop k (listing p rows)))"
  using assms
proof (induction fuel arbitrary: k ro w)
  case 0
  then show ?case by simp
next
  case (Suc fuel)
  let ?xs = "listing p rows" and ?n = "nat (lp_Limit p)" and ?f = "\<lambda>r. savedColorResp (scan_color (se_pg s) r)"
  have n: "0 < ?n" using Suc.prems(1) by (simp add: asks_for_def valid_params_def)
  have uniq: "distinct (map (row_value (keyset_columns (lp_Sort p))) rows)"
    unfolding Suc.prems(6) using Suc.prems(4) by (rule row_value_unique)
  have row: "xr_color_key r = Feel (pe_math (se_pg s)) (xr_hex r) \<and> normal_hex (xr_hex r)
      \<and> printable (scan_time (se_pg s) (xr_created_at r)) \<and> sv_ParseHex (se_sv s) hexCfg (xr_hex r) = Inr (xr_hex r)"
    if "ro = Some r" for r
  proof -
    have "0 < k" "take k ?xs \<noteq> []" "r = last (take k ?xs)"
      using that Suc.prems(8,10) by (auto split: if_splits simp flip: length_greater_0_conv)
    then have "r \<in> set (take k ?xs)" using last_in_set by blast
    then have "r \<in> set rows" using set_take_subset[of k ?xs] listing_set by blast
    then show ?thesis using Suc.prems(4-7) by (simp add: keys_ok_def colors_ok_def colors_of_def listable_def)
  qed
  have rest: "listing p (rows_after p ro rows) = drop k ?xs"
    using rows_after_listing[OF uniq] Suc.prems(8,10) by (cases "k = 0") (auto simp: rows_after_def)
  let ?w' = "w\<lparr>w_round := w_round w + 2\<rparr>"
  have page: "HandleListColors s (with_cursor (cursor_token (se_pg s) p ro) req) i w =
    (WriteJSON 200 (ColorsBody \<lparr>lcr_Colors = map ?f (take ?n (drop k ?xs)),
       lcr_Metadata = \<lparr>cm_Limit = lp_Limit p, cm_NextCursor =
         (if ?n < length (drop k ?xs) then cursor_token (se_pg s) p (Some (last (take ?n (drop k ?xs)))) else [])\<rparr>\<rparr>), ?w')"
    using HandleListColors_page[where ro = ro, OF Suc.prems(1) refl Suc.prems(2,3,4) row]
    unfolding Suc.prems(6)[symmetric] Let_def rest by (simp add: comp_def)
  show ?case
  proof (cases "?n < length (drop k ?xs)")
    case False
    then show ?thesis by (simp add: page WriteJSON_def del: length_drop)
  next
    case True
    let ?k = "k + ?n"
    have last: "last (take ?n (drop k ?xs)) = last (take ?k ?xs)"
      using True n by (auto simp: take_add last_append)
    have "follow_api fuel s req i (cursor_token (se_pg s) p (Some (last (take ?k ?xs)))) ?w' = Some (map ?f (drop ?k ?xs))"
      using Suc.prems n True by (intro Suc.IH) auto
    then have "follow_api (Suc fuel) s req i (cursor_token (se_pg s) p ro) w
        = Some (map ?f (take ?n (drop k ?xs)) @ map ?f (drop ?k ?xs))"
      using True last by (simp add: page WriteJSON_def token_not_empty)
    moreover have "take ?n (drop k ?xs) @ drop ?k ?xs = drop k ?xs"
      using append_take_drop_id[of ?n "drop k ?xs"] by (simp add: add.commute)
    ultimately show ?thesis by (metis map_append)
  qed
qed

text \<open>
  C23. Reading a collection through the API.  A client who asks for the first page and hands every
  \<^verbatim>\<open>next_cursor\<close> back receives, for every sort, order and page size, each saved colour exactly once
  and in the order asked for, and an answer without a cursor at the end.
\<close>

theorem follow_api_complete:
  assumes "asks_for s req c p" "delivered (se_pg s)" "owns (w_tables w) i c"
    and "app_ok (pe_math (se_pg s)) (w_tables w)" "listable s (colors_of c (w_tables w))"
    and "length (colors_of c (w_tables w)) < fuel"
  shows "follow_api fuel s req i [] w
      = Some (map (\<lambda>r. savedColorResp (scan_color (se_pg s) r)) (listing p (colors_of c (w_tables w))))
    \<and> mset (listing p (colors_of c (w_tables w))) = mset (colors_of c (w_tables w))"
proof (intro conjI)
  have ok: "colors_ok (w_tables w)" "keys_ok (pe_math (se_pg s)) (w_tables w)"
    using assms(4) by (auto simp: app_ok_def schema_ok_def)
  have "cursor_token (se_pg s) p None = []" by (simp add: cursor_token_def)
  then show "follow_api fuel s req i [] w
      = Some (map (\<lambda>r. savedColorResp (scan_color (se_pg s) r)) (listing p (colors_of c (w_tables w))))"
    using follow_api_listing[OF assms(1-3) ok refl assms(5), where k = 0 and fuel = fuel and ro = None] assms(6)
    by simp
  show "mset (listing p (colors_of c (w_tables w))) = mset (colors_of c (w_tables w))"
    by (simp add: listing_def listing.order_mset)
qed

text \<open>Two colours, one per page, oldest first.\<close>

definition sample_listing :: request where
  "sample_listing = (sample_request ''GET'' ''/api/v1/me/collections/2/colors'' [])\<lparr>rq_Query :=
     (\<lambda>name. if name = sortQuery then SortByCreatedAt else if name = orderQuery then OrderAsc else [])\<rparr>"

theorem follow_api_complete_witness:
  "map_option (map scr_Hex) (follow_api 3 (sample_server\<lparr>se_lib := sample_lib\<lparr>hl_ParseIntQuery := \<lambda>_ _ _ _ _. Inr 1\<rparr>\<rparr>)
     sample_listing 1 [] two_colors) = Some [''#102030'', ''#00ff7f'']"
proof -
  let ?s = "sample_server\<lparr>se_lib := sample_lib\<lparr>hl_ParseIntQuery := \<lambda>_ _ _ _ _. Inr 1\<rparr>\<rparr>"
  let ?p = "\<lparr>lp_Sort = SortByCreatedAt, lp_Order = OrderAsc, lp_After = None, lp_Limit = 1\<rparr>"
  have a: "asks_for ?s sample_listing 2 ?p"
    by (simp add: asks_for_def collectionIDFromPath_def ParseID_def sample_strvalid_def valid_params_def
        MaxColorLimit_def sample_listing_def sortQuery_def orderQuery_def)
  have ok: "app_ok (pe_math (se_pg ?s)) (w_tables two_colors)"
    by (simp add: two_colors_def signed_up_eval app_ok_def schema_ok_def users_ok_def tokens_ok_def
        collections_ok_def colors_ok_def keys_ok_def defaults_ok_def sample_env_def normal_hex_def HexLen_def
        is_hex_digit_def hex_digits_def)
  have o: "owns (w_tables two_colors) 1 2" by (simp add: two_colors_def signed_up_eval owns_def)
  have l: "listable ?s (colors_of 2 (w_tables two_colors))"
    by (simp add: listable_def two_colors_def colors_of_def sample_strvalid_def scan_time_def sample_env_def
        printable_def yearOf_def yearDays_def epochDays_def)
  have "listing ?p (colors_of 2 (w_tables two_colors)) = rev (t_colors (w_tables two_colors))"
    by (simp add: listing_def sql_order_def direction_of_def keyset_columns_def two_colors_def colors_of_def
        row_value_def column_value_def less_sql_value_def)
  moreover have "length (colors_of 2 (w_tables two_colors)) < 3" by (simp add: two_colors_def colors_of_def)
  ultimately show ?thesis
    using follow_api_complete[OF a _ o ok l] sample_delivered
    by (simp add: two_colors_def savedColorResp_def scan_color_def)
qed

end
