(* ===== verification/Color_Bounds.thy ===== *)
theory Color_Bounds
  imports Color_Space Binary64
begin

text \<open>
  Error bounds for the float expressions of \<^verbatim>\<open>internal/color\<close>, in units of \<^verbatim>\<open>2 ^ -40\<close>, and the ranges
  that follow: the transfer function keeps the unit interval, weighted sums stay near their exact value.
\<close>

definition ulp :: real where "ulp = 1 / 2 ^ 40"

lemma ulp_small: "0 < ulp" "ulp \<le> 1 / 1000000000000"
  by (simp_all add: ulp_def)

context ieee
begin

lemma err: "\<bar>x\<bar> \<le> 4096 \<Longrightarrow> \<bar>f_rnd m x - x\<bar> \<le> ulp"
  using rnd_abs_err[of x] by (simp add: ulp_def)

lemma lit_err: "\<bar>c\<bar> \<le> 4096 \<Longrightarrow> \<bar>lit m c - c\<bar> \<le> ulp"
  by (simp add: lit_def err)

lemma product_err:
  assumes "\<bar>c\<bar> \<le> 8" "\<bar>x\<bar> \<le> 8"
  shows "\<bar>fmul m (lit m c) x - c * x\<bar> \<le> 9 * ulp"
proof -
  have c: "\<bar>lit m c - c\<bar> \<le> ulp" using assms(1) by (intro lit_err) simp
  then have c9: "\<bar>lit m c\<bar> \<le> 9" using assms(1) ulp_small by linarith
  have "\<bar>(lit m c - c) * x\<bar> \<le> ulp * 8" unfolding abs_mult using c assms(2) by (intro mult_mono) auto
  moreover have "\<bar>lit m c * x\<bar> \<le> 9 * 8" unfolding abs_mult using c9 assms(2) by (intro mult_mono) auto
  then have "\<bar>fmul m (lit m c) x - lit m c * x\<bar> \<le> ulp" unfolding fmul_def by (intro err) simp
  moreover have "fmul m (lit m c) x - c * x = (fmul m (lit m c) x - lit m c * x) + (lit m c - c) * x"
    by (simp add: algebra_simps)
  ultimately show ?thesis by linarith
qed

lemma wsum_err:
  assumes "\<bar>c1\<bar> \<le> 8" "\<bar>x\<bar> \<le> 8" "\<bar>c2\<bar> \<le> 8" "\<bar>y\<bar> \<le> 8" "\<bar>c3\<bar> \<le> 8" "\<bar>z\<bar> \<le> 8"
  shows "\<bar>wsum m c1 x c2 y c3 z - (c1 * x + c2 * y + c3 * z)\<bar> \<le> 29 * ulp"
proof -
  let ?p = "fmul m (lit m c1) x" and ?q = "fmul m (lit m c2) y" and ?r = "fmul m (lit m c3) z"
  have p: "\<bar>?p - c1 * x\<bar> \<le> 9 * ulp" "\<bar>?q - c2 * y\<bar> \<le> 9 * ulp" "\<bar>?r - c3 * z\<bar> \<le> 9 * ulp"
    using assms by (auto intro: product_err)
  have b: "\<bar>c1 * x\<bar> \<le> 64" "\<bar>c2 * y\<bar> \<le> 64" "\<bar>c3 * z\<bar> \<le> 64"
    using assms mult_mono[of "\<bar>c1\<bar>" 8 "\<bar>x\<bar>" 8] mult_mono[of "\<bar>c2\<bar>" 8 "\<bar>y\<bar>" 8] mult_mono[of "\<bar>c3\<bar>" 8 "\<bar>z\<bar>" 8]
    by (simp_all add: abs_mult)
  have s: "\<bar>fadd m ?p ?q - (?p + ?q)\<bar> \<le> ulp" unfolding fadd_def using p b ulp_small by (intro err) linarith
  have "\<bar>fadd m (fadd m ?p ?q) ?r - (fadd m ?p ?q + ?r)\<bar> \<le> ulp"
    using p b s ulp_small unfolding fadd_def [of m "fadd m ?p ?q"] by (intro err) linarith
  then show ?thesis unfolding wsum_def using p s by linarith
qed

lemma wsum_nonneg:
  assumes "0 \<le> c1" "0 \<le> x" "0 \<le> c2" "0 \<le> y" "0 \<le> c3" "0 \<le> z"
  shows "0 \<le> wsum m c1 x c2 y c3 z"
  using assms unfolding wsum_def fadd_def fmul_def lit_def by (intro rnd_nonneg add_nonneg_nonneg mult_nonneg_nonneg)

lemma norm_range: "0 \<le> RNorm m h \<and> RNorm m h \<le> 1" "0 \<le> GNorm m h \<and> GNorm m h \<le> 1" "0 \<le> BNorm m h \<and> BNorm m h \<le> 1"
  using channelNormalized_range by (simp_all add: RNorm_def GNorm_def BNorm_def)

text \<open>A quotient near another: the divisor is at least \<^verbatim>\<open>1 / 32\<close>.\<close>

lemma quotient_err:
  assumes "\<bar>x\<bar> \<le> 100" "1 / 32 \<le> y"
  shows "\<bar>fdiv m x y - x / y\<bar> \<le> ulp"
proof -
  have "\<bar>x / y\<bar> \<le> 100 / (1 / 32)"
    unfolding abs_divide using assms by (intro frac_le) auto
  then show ?thesis unfolding fdiv_def by (intro err) simp
qed

end

context go_math
begin

lemma srgbToLinear_range:
  assumes c: "0 \<le> c" "c \<le> 1"
  shows "0 \<le> srgbToLinear m c \<and> srgbToLinear m c \<le> 1 + 20 * ulp"
proof (cases "c \<le> lit m 0.04045")
  case True
  have "\<bar>lit m 12.92 - 323 / 25\<bar> \<le> ulp" using lit_err[of "12.92"] by simp
  then have d: "1 \<le> lit m 12.92" using ulp_small by (simp add: abs_le_iff)
  have "0 \<le> c / lit m 12.92" "c / lit m 12.92 \<le> 1" using c d by (auto simp: divide_le_eq)
  then have "0 \<le> fdiv m c (lit m 12.92) \<and> fdiv m c (lit m 12.92) \<le> 1" unfolding fdiv_def by (rule rnd_unit)
  then show ?thesis using True ulp_small by (simp add: srgbToLinear_def)
next
  case False
  define t where "t = lit m 0.04045"
  define k where "k = lit m 0.055"
  define d where "d = lit m 1.055"
  define y where "y = lit m 2.4"
  have l: "\<bar>t - 809 / 20000\<bar> \<le> ulp" "\<bar>k - 11 / 200\<bar> \<le> ulp" "\<bar>d - 211 / 200\<bar> \<le> ulp" "\<bar>y - 12 / 5\<bar> \<le> ulp"
    using lit_err[of "0.04045"] lit_err[of "0.055"] lit_err[of "1.055"] lit_err[of "2.4"]
    by (simp_all add: t_def k_def d_def y_def)
  define s where "s = fadd m c k"
  have "\<bar>s - (c + k)\<bar> \<le> ulp" unfolding s_def fadd_def using c l ulp_small by (intro err) linarith
  moreover have "t < c" using False by (simp add: t_def)
  ultimately have s: "477 / 5000 \<le> s" "s \<le> 211 / 200 + 2 * ulp" using c l ulp_small by linarith+
  have d: "211 / 200 - ulp \<le> d" "d \<le> 211 / 200 + ulp" using l(3) by linarith+
  define x where "x = fdiv m s d"
  have xe: "\<bar>x - s / d\<bar> \<le> ulp" unfolding x_def using s d ulp_small by (intro quotient_err) linarith+
  have "s / d \<le> 1 + 4 * ulp"
  proof -
    have "s \<le> 211 / 200 + 2 * ulp" by (rule s(2))
    also have "\<dots> \<le> (1 + 4 * ulp) * (211 / 200 - ulp)"
    proof -
      have "ulp * ulp \<le> ulp * (1 / 1000)" using ulp_small by (intro mult_left_mono) auto
      then show ?thesis using ulp_small by (simp add: algebra_simps)
    qed
    also have "\<dots> \<le> (1 + 4 * ulp) * d" using d ulp_small by (intro mult_left_mono) auto
    finally show ?thesis using d ulp_small by (simp add: divide_le_eq mult.commute)
  qed
  moreover have "9 / 100 + ulp \<le> s / d"
  proof -
    have "(9 / 100 + ulp) * d \<le> (9 / 100 + ulp) * (1056 / 1000)" using d ulp_small by (intro mult_left_mono) auto
    also have "\<dots> \<le> 477 / 5000" using ulp_small by simp
    finally show ?thesis using s d ulp_small by (simp add: le_divide_eq)
  qed
  ultimately have x: "9 / 100 \<le> x" "x \<le> 1 + 5 * ulp" using xe by linarith+
  have y: "0 \<le> y" "y \<le> 3" using l(4) ulp_small by linarith+
  have hi: "x powr y \<le> 1 + 18 * ulp"
  proof (cases "x \<le> 1")
    case True
    then have "x powr y \<le> 1 powr y" using x y by (intro powr_mono2) auto
    then show ?thesis using ulp_small by simp
  next
    case False
    have u: "ulp * ulp \<le> ulp * (1 / 1000)" "ulp * ulp * ulp \<le> ulp * (1 / 1000)"
      using ulp_small mult_mono[of ulp "1/1000" ulp 1] by (auto simp: mult_le_cancel_left1 mult.assoc intro!: mult_left_mono)
    have "x powr y \<le> x powr 3" using False y by (intro powr_mono) auto
    also have "\<dots> = x ^ 3" using x by (simp add: powr_numeral)
    also have "\<dots> \<le> (1 + 5 * ulp) ^ 3" using x by (intro power_mono) auto
    also have "\<dots> = 1 + 15 * ulp + 75 * (ulp * ulp) + 125 * (ulp * ulp * ulp)" by (simp add: power3_eq_cube algebra_simps)
    also have "\<dots> \<le> 1 + 18 * ulp" using u ulp_small by linarith
    finally show ?thesis .
  qed
  have lo: "2 * ulp \<le> x powr y"
  proof (cases "x \<le> 1")
    case True
    have "1 / 10000 \<le> (9 / 100 :: real) ^ 3" by (simp add: power3_eq_cube)
    also have "\<dots> \<le> x ^ 3" using x by (intro power_mono) auto
    also have "\<dots> = x powr 3" using x by (simp add: powr_numeral)
    also have "\<dots> \<le> x powr y" using True x y by (intro powr_mono') auto
    finally show ?thesis using ulp_small by linarith
  next
    case False
    then have "1 \<le> x powr y" using y by (intro ge_one_powr_ge_zero) auto
    then show ?thesis using ulp_small by linarith
  qed
  have "\<bar>f_pow m x y - x powr y\<bar> \<le> ulp"
  proof -
    have "\<bar>x powr y\<bar> \<le> 2 ^ 9" using hi ulp_small by simp
    then show ?thesis unfolding ulp_def using x by (intro near_le pow_near) simp_all
  qed
  then have "0 \<le> f_pow m x y \<and> f_pow m x y \<le> 1 + 20 * ulp" using hi lo ulp_small by linarith
  then show ?thesis using False by (simp add: srgbToLinear_def x_def y_def s_def d_def k_def)
qed

lemma linear_ranges:
  "0 \<le> srgbToLinear m (RNorm m h) \<and> srgbToLinear m (RNorm m h) \<le> 1 + 20 * ulp"
  "0 \<le> srgbToLinear m (GNorm m h) \<and> srgbToLinear m (GNorm m h) \<le> 1 + 20 * ulp"
  "0 \<le> srgbToLinear m (BNorm m h) \<and> srgbToLinear m (BNorm m h) \<le> 1 + 20 * ulp"
  using norm_range by (simp_all add: srgbToLinear_range)

subsection \<open>The lightness of a hex code\<close>

text \<open>A cube root of the code, by its cube.\<close>

lemma cbrt_cases:
  assumes "0 \<le> x" "x \<le> 2"
  obtains y where "0 \<le> y" "y ^ 3 = x" "\<bar>f_cbrt m x - y\<bar> \<le> ulp"
proof -
  define y where "y = root 3 x"
  have y: "0 \<le> y" "y ^ 3 = x" using assms by (simp_all add: y_def)
  have "y \<le> 2"
  proof (rule power_le_imp_le_base)
    show "y ^ Suc 2 \<le> 2 ^ Suc 2" using y assms(2) by (simp add: numeral_3_eq_3)
  qed simp
  then have "\<bar>root 3 x\<bar> \<le> 2 ^ 9" using y by (simp add: y_def)
  then have "\<bar>f_cbrt m x - root 3 x\<bar> \<le> 1 / 2 ^ 40" using cbrt_near[OF assms(1)] near_le by blast
  then have "\<bar>f_cbrt m x - y\<bar> \<le> ulp" by (simp only: y_def ulp_def)
  then show thesis using that y by blast
qed

end

lemma cube_le: "0 \<le> b \<Longrightarrow> a ^ 3 \<le> b ^ 3 \<Longrightarrow> a \<le> (b :: real)"
  using power_le_imp_le_base[of a 2 b] by (simp add: numeral_3_eq_3)

text \<open>The exact combination of the three cube roots, given how their cubes depend on the channels.\<close>

lemma lightness_exact:
  fixes l md s r g b :: real
  assumes "0 \<le> l" "0 \<le> md" "0 \<le> s"
    and ch: "0 \<le> r" "r \<le> 1 + 20 * ulp" "0 \<le> g" "g \<le> 1 + 20 * ulp" "0 \<le> b" "b \<le> 1 + 20 * ulp"
    and X: "\<bar>l ^ 3 - (4122214708 / 10000000000 * r + 5363325363 / 10000000000 * g + 514459929 / 10000000000 * b)\<bar> \<le> 29 * ulp"
    and Y: "\<bar>md ^ 3 - (2119034982 / 10000000000 * r + 6806995451 / 10000000000 * g + 1073969566 / 10000000000 * b)\<bar> \<le> 29 * ulp"
    and Z: "\<bar>s ^ 3 - (883024619 / 10000000000 * r + 2817188376 / 10000000000 * g + 6299787005 / 10000000000 * b)\<bar> \<le> 29 * ulp"
  defines "L \<equiv> 2104542553 / 10000000000 * l + 7936177850 / 10000000000 * md - 40720468 / 10000000000 * s"
  shows "- 1 / 5000 \<le> L" "L \<le> 1 + 1 / 2500" "l \<le> 1 + 1 / 100000000" "md \<le> 1 + 1 / 100000000" "s \<le> 1 + 1 / 100000000"
proof -
  have one: "x \<le> 1 + 1 / 100000000" if "x ^ 3 \<le> 1 + 1 / 100000000" for x :: real
  proof (rule cube_le)
    have "(1 + 1 / 100000000 :: real) \<le> (1 + 1 / 100000000) ^ 3" by (simp add: power3_eq_cube)
    then show "x ^ 3 \<le> (1 + 1 / 100000000) ^ 3" using that by linarith
  qed simp
  have c: "l ^ 3 \<le> 1 + 1 / 100000000" "md ^ 3 \<le> 1 + 1 / 100000000" "s ^ 3 \<le> 1 + 1 / 100000000"
    using X Y Z ch ulp_small by linarith+
  then show top: "l \<le> 1 + 1 / 100000000" "md \<le> 1 + 1 / 100000000" "s \<le> 1 + 1 / 100000000" using one by blast+
  show "- 1 / 5000 \<le> L"
  proof (cases "s \<le> 1 / 100")
    case True
    then show ?thesis using assms(1,2) unfolding L_def by linarith
  next
    case False
    have "(1 / 100) ^ 3 \<le> s ^ 3" using False by (intro power_mono) auto
    then have "(43 / 100 * s) ^ 3 \<le> l ^ 3" using X Z ch ulp_small by (simp add: power_mult_distrib power3_eq_cube)
    then have "43 / 100 * s \<le> l" using assms(1) by (rule cube_le[rotated])
    then show ?thesis using assms(1-3) unfolding L_def by linarith
  qed
  show "L \<le> 1 + 1 / 2500"
  proof (cases "md \<le> 999 / 1000")
    case True
    show ?thesis
    proof (cases "md \<le> 1 / 2")
      case True
      then show ?thesis using top assms(3) unfolding L_def by linarith
    next
      case False
      have "(1 / 2) ^ 3 \<le> md ^ 3" using False by (intro power_mono) auto
      then have "(74 / 100 * md) ^ 3 \<le> s ^ 3" using Y Z ch ulp_small by (simp add: power_mult_distrib power3_eq_cube)
      then have "74 / 100 * md \<le> s" using assms(3) by (rule cube_le[rotated])
      then show ?thesis using True top unfolding L_def by linarith
    qed
  next
    case False
    have "(999 / 1000) ^ 3 \<le> md ^ 3" using False by (intro power_mono) auto
    then have "(99 / 100) ^ 3 \<le> s ^ 3" using Y Z ch ulp_small by (simp add: power3_eq_cube)
    then have "99 / 100 \<le> s" using assms(3) by (rule cube_le[rotated])
    then show ?thesis using top unfolding L_def by linarith
  qed
qed

context go_math
begin

lemma hexToOklab_lightness:
  assumes "hexToOklab m h = (lightness, a, b)"
  shows "- 1 / 4000 \<le> lightness" "lightness \<le> 1 + 9 / 20000"
proof -
  define r where "r = srgbToLinear m (RNorm m h)"
  define g where "g = srgbToLinear m (GNorm m h)"
  define bl where "bl = srgbToLinear m (BNorm m h)"
  have ch: "0 \<le> r" "r \<le> 1 + 20 * ulp" "0 \<le> g" "g \<le> 1 + 20 * ulp" "0 \<le> bl" "bl \<le> 1 + 20 * ulp"
    using linear_ranges[of h] by (simp_all add: r_def g_def bl_def)
  define X where "X = wsum m 0.4122214708 r 0.5363325363 g 0.0514459929 bl"
  define Y where "Y = wsum m 0.2119034982 r 0.6806995451 g 0.1073969566 bl"
  define Z where "Z = wsum m 0.0883024619 r 0.2817188376 g 0.6299787005 bl"
  have e: "\<bar>X - (0.4122214708 * r + 0.5363325363 * g + 0.0514459929 * bl)\<bar> \<le> 29 * ulp"
    "\<bar>Y - (0.2119034982 * r + 0.6806995451 * g + 0.1073969566 * bl)\<bar> \<le> 29 * ulp"
    "\<bar>Z - (0.0883024619 * r + 0.2817188376 * g + 0.6299787005 * bl)\<bar> \<le> 29 * ulp"
    unfolding X_def Y_def Z_def using ch ulp_small by (intro wsum_err; simp)+
  have n: "0 \<le> X" "0 \<le> Y" "0 \<le> Z" unfolding X_def Y_def Z_def using ch by (intro wsum_nonneg; simp)+
  have two: "X \<le> 2" "Y \<le> 2" "Z \<le> 2" using e ch ulp_small by simp_all
  obtain l where l: "0 \<le> l" "l ^ 3 = X" "\<bar>f_cbrt m X - l\<bar> \<le> ulp" using cbrt_cases[OF n(1) two(1)] .
  obtain md where md: "0 \<le> md" "md ^ 3 = Y" "\<bar>f_cbrt m Y - md\<bar> \<le> ulp" using cbrt_cases[OF n(2) two(2)] .
  obtain s where s: "0 \<le> s" "s ^ 3 = Z" "\<bar>f_cbrt m Z - s\<bar> \<le> ulp" using cbrt_cases[OF n(3) two(3)] .
  note ex = lightness_exact[OF l(1) md(1) s(1) ch, unfolded l(2) md(2) s(2)]
  have x: "\<bar>X - (4122214708 / 10000000000 * r + 5363325363 / 10000000000 * g + 514459929 / 10000000000 * bl)\<bar> \<le> 29 * ulp"
    "\<bar>Y - (2119034982 / 10000000000 * r + 6806995451 / 10000000000 * g + 1073969566 / 10000000000 * bl)\<bar> \<le> 29 * ulp"
    "\<bar>Z - (883024619 / 10000000000 * r + 2817188376 / 10000000000 * g + 6299787005 / 10000000000 * bl)\<bar> \<le> 29 * ulp"
    using e by simp_all
  note L = ex[OF x]
  have "\<bar>lightness - (0.2104542553 * f_cbrt m X + 0.7936177850 * f_cbrt m Y + - 0.0040720468 * f_cbrt m Z)\<bar> \<le> 29 * ulp"
  proof -
    have "lightness = wsum m 0.2104542553 (f_cbrt m X) 0.7936177850 (f_cbrt m Y) (- 0.0040720468) (f_cbrt m Z)"
      using assms by (simp add: hexToOklab_def Let_def X_def Y_def Z_def r_def g_def bl_def)
    moreover have "\<bar>f_cbrt m X\<bar> \<le> 8" "\<bar>f_cbrt m Y\<bar> \<le> 8" "\<bar>f_cbrt m Z\<bar> \<le> 8"
      using l md s L(3-5) ulp_small by linarith+
    ultimately show ?thesis by (simp only:) (intro wsum_err; simp)
  qed
  then have "\<bar>lightness - (2104542553 / 10000000000 * f_cbrt m X + 7936177850 / 10000000000 * f_cbrt m Y
      - 40720468 / 10000000000 * f_cbrt m Z)\<bar> \<le> 29 * ulp" by simp
  then show "- 1 / 4000 \<le> lightness" "lightness \<le> 1 + 9 / 20000" using L(1,2) l(3) md(3) s(3) ulp_small by linarith+
qed

end

end
