(* ===== verification/Info_Laws.thy ===== *)
theory Info_Laws
  imports Color_Info Color_Bounds
begin

text \<open>
  What \<^verbatim>\<open>internal/color/info.go\<close> and \<^verbatim>\<open>contrast.go\<close> report stays in range, and the two contrasts of a
  colour are never both poor.
\<close>

lemma go_round_percent: "0 \<le> x \<Longrightarrow> x \<le> 100 + 1 / 4 \<Longrightarrow> 0 \<le> go_round x \<and> go_round x \<le> 100"
proof -
  assume x: "0 \<le> x" "x \<le> 100 + 1 / 4"
  have "go_round x \<le> go_round (100 + 1 / 4)" using x(2) by (rule go_round_mono)
  moreover have "go_round (100 + 1 / 4) = 100" by (rule go_round_unique) simp
  ultimately show ?thesis using go_round_mono[OF x(1)] go_round_of_int[of 0] by simp
qed

lemma wholeDegrees_range:
  assumes "0 \<le> v"
  shows "0 \<le> wholeDegrees v \<and> wholeDegrees v < 360"
proof -
  have "0 \<le> go_round v" using go_round_mono[OF assms] go_round_of_int[of 0] by simp
  then show ?thesis by (cases "go_round v = 0") (simp_all add: wholeDegrees_def)
qed

context go_math
begin

subsection \<open>Contrast\<close>

lemma luminance_range: "0 \<le> relativeLuminance m h \<and> relativeLuminance m h \<le> 1 + 50 * ulp"
proof -
  let ?r = "srgbToLinear m (RNorm m h)" and ?g = "srgbToLinear m (GNorm m h)" and ?b = "srgbToLinear m (BNorm m h)"
  note r = linear_ranges[of h]
  have "\<bar>relativeLuminance m h - (0.2126 * ?r + 0.7152 * ?g + 0.0722 * ?b)\<bar> \<le> 29 * ulp"
    unfolding relativeLuminance_def using r ulp_small by (intro wsum_err) auto
  moreover have "0.2126 * ?r + 0.7152 * ?g + 0.0722 * ?b \<le> 1 + 20 * ulp" using r by simp
  moreover have "0 \<le> relativeLuminance m h" unfolding relativeLuminance_def using r by (intro wsum_nonneg) auto
  ultimately show ?thesis by linarith
qed

text \<open>The summand that keeps the divisor away from zero.\<close>

lemma flare:
  assumes "0 \<le> a" "a \<le> 2"
  shows "\<bar>fadd m a (lit m 0.05) - (a + 1 / 20)\<bar> \<le> 2 * ulp"
proof -
  have l: "\<bar>lit m 0.05 - 1 / 20\<bar> \<le> ulp" using lit_err[of "0.05"] by simp
  have "\<bar>fadd m a (lit m 0.05) - (a + lit m 0.05)\<bar> \<le> ulp"
    unfolding fadd_def using assms l ulp_small by (intro err) (simp add: abs_le_iff)
  then show ?thesis using l by (simp add: abs_le_iff)
qed

lemma contrastRatio_range:
  assumes "0 \<le> a" "a \<le> 2" "0 \<le> b" "b \<le> 2" "max a b \<le> 1 + 50 * ulp"
  shows "1 \<le> contrastRatio m a b \<and> contrastRatio m a b \<le> 21 + 1 / 1000"
proof -
  define A where "A = fadd m (max a b) (lit m 0.05)"
  define B where "B = fadd m (min a b) (lit m 0.05)"
  have e: "\<bar>A - (max a b + 1 / 20)\<bar> \<le> 2 * ulp" "\<bar>B - (min a b + 1 / 20)\<bar> \<le> 2 * ulp"
    unfolding A_def B_def using assms by (intro flare; simp add: max_def min_def)+
  have B: "1 / 32 \<le> B" "1 / 20 - 2 * ulp \<le> B" using e(2) assms ulp_small by (auto simp: min_def split: if_splits)
  have A: "A \<le> 21 / 20 + 52 * ulp" using e(1) assms(5) by linarith
  have AB: "B \<le> A" unfolding A_def B_def fadd_def by (intro rnd_mono) simp
  have "A / B \<le> 21 + 1 / 2000"
  proof -
    have "A \<le> (21 + 1 / 2000) * (1 / 20 - 2 * ulp)" using A ulp_small by simp
    also have "\<dots> \<le> (21 + 1 / 2000) * B" using B(2) by (intro mult_left_mono) auto
    finally show ?thesis using B(1) by (simp add: divide_le_eq)
  qed
  moreover have "1 \<le> A / B" using AB B(1) by simp
  moreover have "\<bar>fdiv m A B - A / B\<bar> \<le> ulp" using A AB B(1) ulp_small by (intro quotient_err) linarith+
  moreover have "1 \<le> fdiv m A B" unfolding fdiv_def using rnd_mono[of 1 "A / B"] \<open>1 \<le> A / B\<close> by simp
  ultimately show ?thesis using ulp_small unfolding contrastRatio_def A_def B_def by linarith
qed

text \<open>Against white or against black, the ratio is at least the square root of 21, give or take.\<close>

lemma contrast_one_good:
  "457 / 100 \<le> contrastRatio m (relativeLuminance m h) whiteLuminance
    \<or> 457 / 100 \<le> contrastRatio m (relativeLuminance m h) blackLuminance"
proof (rule ccontr)
  define L where "L = relativeLuminance m h"
  have L: "0 \<le> L" "L \<le> 1 + 50 * ulp" "L \<le> 2" using luminance_range[of h] ulp_small by (auto simp: L_def)
  define W where "W = fadd m (max L 1) (lit m 0.05)"
  define B where "B = fadd m (min L 1) (lit m 0.05)"
  define K where "K = fadd m L (lit m 0.05)"
  define Z where "Z = fadd m 0 (lit m 0.05)"
  have e: "\<bar>W - (max L 1 + 1 / 20)\<bar> \<le> 2 * ulp" "\<bar>B - (min L 1 + 1 / 20)\<bar> \<le> 2 * ulp"
    "\<bar>K - (L + 1 / 20)\<bar> \<le> 2 * ulp" "\<bar>Z - 1 / 20\<bar> \<le> 2 * ulp"
    unfolding W_def B_def K_def Z_def using L flare[of "max L 1"] flare[of "min L 1"] flare[of L] flare[of 0]
    by (auto simp: max_def min_def)
  have low: "1 / 32 \<le> B" "1 / 32 \<le> Z" using e(2,4) L ulp_small by (auto simp: min_def split: if_splits)
  assume "\<not> ?thesis"
  then have "fdiv m W B < 457 / 100" "fdiv m K Z < 457 / 100"
    using L(1) by (simp_all add: contrastRatio_def whiteLuminance_def blackLuminance_def W_def B_def K_def Z_def
        flip: L_def)
  moreover have "\<bar>fdiv m W B - W / B\<bar> \<le> ulp" "\<bar>fdiv m K Z - K / Z\<bar> \<le> ulp"
    using e L low ulp_small by (intro quotient_err; auto simp: max_def split: if_splits)+
  ultimately have q: "W / B < 229 / 50" "K / Z < 229 / 50" using ulp_small by linarith+
  have w: "50 * W < 229 * B" "50 * K < 229 * Z" using q low by (simp_all add: divide_less_eq)
  have z: "Z \<le> 1 / 20 + 2 * ulp" using e(4) by linarith
  have "B \<le> K + 4 * ulp" using e(2,3) by (auto simp: min_def split: if_splits)
  moreover have "1 + 1 / 20 - 2 * ulp \<le> W" using e(1) by (auto simp: max_def split: if_splits)
  ultimately show False using w z ulp_small by linarith
qed

text \<open>Truncation to two decimals keeps a ratio above the threshold it passed.\<close>

lemma contrastOf_range:
  assumes "1 \<le> r" "r \<le> 21 + 1 / 1000"
  shows "1 \<le> Ratio (contrastOf m r) \<and> Ratio (contrastOf m r) \<le> 21 \<and> Level (contrastOf m r) = levelOf (Ratio (contrastOf m r))"
    and "457 / 100 \<le> r \<Longrightarrow> 9 / 2 \<le> Ratio (contrastOf m r)"
proof -
  have p: "f_pow m 10 2 = 100" using pow_ten[of 2] by simp
  define t where "t = go_trunc (fmul m r 100)"
  have e: "\<bar>fmul m r 100 - r * 100\<bar> \<le> ulp" unfolding fmul_def using assms by (intro err) simp
  have "f_rnd m 100 \<le> fmul m r 100" unfolding fmul_def using assms by (intro rnd_mono) simp
  then have f: "100 \<le> fmul m r 100" using rnd_numeral[of "Num.num_of_nat 100"] rnd_of_int[of 100] by simp
  have v: "Ratio (contrastOf m r) = fdiv m (of_int t) 100" "Level (contrastOf m r) = levelOf (fdiv m (of_int t) 100)"
    by (simp_all add: contrastOf_def contrastRatioDecimals_def p t_def Let_def)
  have tr: "t = \<lfloor>fmul m r 100\<rfloor>" using f by (simp add: t_def go_trunc_nonneg)
  have t: "100 \<le> t" "t \<le> 2100" using f e assms ulp_small unfolding tr by linarith+
  have "of_int t / 100 \<le> (21 :: real)" "1 \<le> of_int t / (100 :: real)" using t by auto
  then have "fdiv m (of_int t) 100 \<le> f_rnd m 21" "f_rnd m 1 \<le> fdiv m (of_int t) 100"
    unfolding fdiv_def using rnd_mono[of "of_int t / 100" 21] rnd_mono[of 1 "of_int t / 100"] by blast+
  then show "1 \<le> Ratio (contrastOf m r) \<and> Ratio (contrastOf m r) \<le> 21
      \<and> Level (contrastOf m r) = levelOf (Ratio (contrastOf m r))"
    using rnd_of_int[of 21] unfolding v by simp
  show "9 / 2 \<le> Ratio (contrastOf m r)" if "457 / 100 \<le> r"
  proof -
    have "450 \<le> t" using that e ulp_small unfolding tr by linarith
    then have "9 / 2 \<le> of_int t / (100 :: real)" by simp
    then have "f_rnd m (9 / 2) \<le> fdiv m (of_int t) 100" unfolding fdiv_def by (rule rnd_mono)
    then show ?thesis using rnd_dyadic[of 9 1] unfolding v by simp
  qed
qed

lemma contrasts_readable:
  assumes "contrastsOfBW m h = (white, black)"
  shows "\<forall>c \<in> {white, black}. 1 \<le> Ratio c \<and> Ratio c \<le> 21 \<and> Level c = levelOf (Ratio c)"
    and "\<exists>c \<in> {white, black}. Level c = LevelAA \<or> Level c = LevelAAA"
proof -
  let ?L = "relativeLuminance m h"
  let ?w = "contrastRatio m ?L whiteLuminance" and ?b = "contrastRatio m ?L blackLuminance"
  have d: "white = contrastOf m ?w" "black = contrastOf m ?b" using assms by (simp_all add: contrastsOfBW_def Let_def)
  have L: "0 \<le> ?L" "?L \<le> 1 + 50 * ulp" "?L \<le> 2" using luminance_range[of h] ulp_small by auto
  have r: "1 \<le> ?w \<and> ?w \<le> 21 + 1 / 1000" "1 \<le> ?b \<and> ?b \<le> 21 + 1 / 1000"
    unfolding whiteLuminance_def blackLuminance_def using L ulp_small by (intro contrastRatio_range; simp)+
  show "\<forall>c \<in> {white, black}. 1 \<le> Ratio c \<and> Ratio c \<le> 21 \<and> Level c = levelOf (Ratio c)"
    using contrastOf_range(1) r unfolding d by blast
  have lv: "Level (contrastOf m x) = LevelAA \<or> Level (contrastOf m x) = LevelAAA"
    if "1 \<le> x" "x \<le> 21 + 1 / 1000" "457 / 100 \<le> x" for x
    using contrastOf_range[OF that(1,2)] that(3) by (simp add: levelOf_def ratioAA_def ratioAAA_def)
  show "\<exists>c \<in> {white, black}. Level c = LevelAA \<or> Level c = LevelAAA"
    using contrast_one_good[of h] r lv[of ?w] lv[of ?b] unfolding d by blast
qed

subsection \<open>The wheels\<close>

lemma ratio_near_one:
  assumes "\<bar>x\<bar> \<le> y + 3 * ulp" "1 / 512 \<le> y" "y \<le> 2"
  shows "\<bar>fdiv m x y\<bar> \<le> 1 + 1 / 1000"
proof -
  have "\<bar>x\<bar> \<le> (1 + 1 / 2000) * y" using assms(1,2) ulp_small by (simp add: algebra_simps)
  then have "\<bar>x / y\<bar> \<le> 1 + 1 / 2000" using assms(2) by (simp add: abs_divide divide_le_eq)
  moreover have "\<bar>fdiv m x y - x / y\<bar> \<le> ulp" unfolding fdiv_def using calculation by (intro err) linarith
  ultimately show ?thesis using ulp_small by linarith
qed

text \<open>Two channels differ by nothing or by at least almost \<^verbatim>\<open>1 / 255\<close>.\<close>

lemma channel_steps:
  assumes "x \<in> {RNorm m h, GNorm m h, BNorm m h}" "y \<in> {RNorm m h, GNorm m h, BNorm m h}" "x < y"
  shows "1 / 255 - 2 * ulp \<le> y - x"
proof -
  have ch: "\<exists>k :: int. z = f_rnd m (of_int k / 255) \<and> \<bar>z - of_int k / 255\<bar> \<le> ulp"
    if "z \<in> {RNorm m h, GNorm m h, BNorm m h}" for z
  proof -
    have "\<exists>i. z = f_rnd m (of_int (channelByte h i) / 255)"
      using that unfolding RNorm_def GNorm_def BNorm_def channelNormalized_def fdiv_def by blast
    then obtain i where z: "z = f_rnd m (of_int (channelByte h i) / 255)" ..
    have "\<bar>(of_int (channelByte h i) :: real)\<bar> \<le> 255"
      using channelByte_range[of h i] by simp
    then have "\<bar>z - of_int (channelByte h i) / 255\<bar> \<le> ulp" unfolding z by (intro err) simp
    then show ?thesis using z by blast
  qed
  obtain k l :: int where k: "x = f_rnd m (of_int k / 255)" "\<bar>x - of_int k / 255\<bar> \<le> ulp"
    and l: "y = f_rnd m (of_int l / 255)" "\<bar>y - of_int l / 255\<bar> \<le> ulp"
    using ch[OF assms(1)] ch[OF assms(2)] by blast
  have "k < l"
  proof (rule ccontr)
    assume "\<not> k < l"
    then have "y \<le> x" unfolding k(1) l(1) by (intro rnd_mono) simp
    then show False using assms(3) by simp
  qed
  then have "of_int k + 1 \<le> (of_int l :: real)" by linarith
  then show ?thesis using k(2) l(2) by simp
qed

text \<open>What both wheels start from: the greatest and the least channel and their difference.\<close>

lemma span_cases:
  fixes h :: hex
  defines "high \<equiv> max (max (RNorm m h) (GNorm m h)) (BNorm m h)"
    and "low \<equiv> min (min (RNorm m h) (GNorm m h)) (BNorm m h)"
  shows "0 \<le> low" "low \<le> high" "high \<le> 1" "0 \<le> fsub m high low" "fsub m high low \<le> 1"
    and "fsub m high low \<noteq> 0 \<Longrightarrow> 1 / 256 \<le> high - low \<and> \<bar>fsub m high low - (high - low)\<bar> \<le> ulp"
proof -
  note n = norm_range[of h]
  show lh: "0 \<le> low" "low \<le> high" "high \<le> 1" using n by (auto simp: high_def low_def)
  have "0 \<le> fsub m high low \<and> fsub m high low \<le> 1" unfolding fsub_def using lh by (intro rnd_unit) auto
  then show "0 \<le> fsub m high low" "fsub m high low \<le> 1" by auto
  show "1 / 256 \<le> high - low \<and> \<bar>fsub m high low - (high - low)\<bar> \<le> ulp" if "fsub m high low \<noteq> 0"
  proof -
    have ne: "low < high" using that lh(2) by (cases "low = high") (auto simp: fsub_def)
    have "low \<in> {RNorm m h, GNorm m h, BNorm m h}" "high \<in> {RNorm m h, GNorm m h, BNorm m h}"
      by (auto simp: low_def high_def min_def max_def)
    then have "1 / 255 - 2 * ulp \<le> high - low" using channel_steps ne by blast
    moreover have "\<bar>fsub m high low - (high - low)\<bar> \<le> ulp" unfolding fsub_def using lh by (intro err) auto
    ultimately show ?thesis using ulp_small by linarith
  qed
qed

lemma hue_nonneg:
  assumes "high = max (max (RNorm m h) (GNorm m h)) (BNorm m h)" "rng = fsub m high (min (min (RNorm m h) (GNorm m h)) (BNorm m h))"
    and "rng \<noteq> 0"
  shows "0 \<le> hueDegrees m (RNorm m h) (GNorm m h) (BNorm m h) high rng"
proof -
  note n = norm_range[of h]
  note s = span_cases[of h, folded assms(1), folded assms(2)]
  have r: "1 / 512 \<le> rng" "rng \<le> 1" using s(5) s(6)[OF assms(3)] ulp_small by linarith+
  have q: "\<bar>fdiv m (fsub m x y) rng\<bar> \<le> 1 + 1 / 1000"
    if "x \<in> {RNorm m h, GNorm m h, BNorm m h}" "y \<in> {RNorm m h, GNorm m h, BNorm m h}" for x y
  proof -
    have "\<bar>x - y\<bar> \<le> high - min (min (RNorm m h) (GNorm m h)) (BNorm m h)"
      using that by (auto simp: assms(1))
    moreover have "\<bar>fsub m x y - (x - y)\<bar> \<le> ulp" unfolding fsub_def using that n by (intro err) auto
    ultimately have "\<bar>fsub m x y\<bar> \<le> rng + 3 * ulp" using s(6)[OF assms(3)] ulp_small by linarith
    then show ?thesis using r by (intro ratio_near_one) auto
  qed
  define hue where "hue = (if high = RNorm m h then go_mod (fdiv m (fsub m (GNorm m h) (BNorm m h)) rng) 6
    else if high = GNorm m h then fadd m (fdiv m (fsub m (BNorm m h) (RNorm m h)) rng) 2
    else fadd m (fdiv m (fsub m (RNorm m h) (GNorm m h)) rng) 4)"
  have "- 2 \<le> hue"
  proof (cases "high = RNorm m h")
    case True
    have "\<bar>fdiv m (fsub m (GNorm m h) (BNorm m h)) rng\<bar> < 6" using q[of "GNorm m h" "BNorm m h"] by simp
    then show ?thesis using True q[of "GNorm m h" "BNorm m h"] by (simp add: hue_def go_mod_small)
  next
    case False
    have "0 \<le> fadd m (fdiv m (fsub m (BNorm m h) (RNorm m h)) rng) 2" "0 \<le> fadd m (fdiv m (fsub m (RNorm m h) (GNorm m h)) rng) 4"
      unfolding fadd_def using q[of "BNorm m h" "RNorm m h"] q[of "RNorm m h" "GNorm m h"] by (auto intro!: rnd_nonneg)
    then show ?thesis using False by (auto simp: hue_def)
  qed
  then have "- 120 \<le> hue * 60" by simp
  then have "f_rnd m (- 120) \<le> fmul m hue 60" unfolding fmul_def by (rule rnd_mono)
  then have "- 120 \<le> fmul m hue 60" using rnd_of_int[of "- 120"] by simp
  then have "0 \<le> fadd m (fmul m hue 60) 360" unfolding fadd_def by (intro rnd_nonneg) simp
  then show ?thesis unfolding hueDegrees_def Let_def hue_def[symmetric] by auto
qed

lemma percent_range:
  assumes "0 \<le> v" "v \<le> 1 + 1 / 1000"
  shows "0 \<le> wholePercent m v \<and> wholePercent m v \<le> 100"
proof -
  have "\<bar>fmul m v 100 - v * 100\<bar> \<le> ulp" unfolding fmul_def using assms by (intro err) simp
  moreover have "0 \<le> fmul m v 100" unfolding fmul_def using assms by (intro rnd_nonneg) simp
  ultimately show ?thesis using assms ulp_small unfolding wholePercent_def by (intro go_round_percent) linarith+
qed

text \<open>The divisor of the HSL saturation is never zero.\<close>

lemma hsl_divisor_pos:
  assumes "0 \<le> low" "high \<le> 1" "1 / 256 \<le> high - low"
  shows "0 < fsub m 1 \<bar>fsub m (fmul m 2 (fdiv m (fadd m high low) 2)) 1\<bar>"
proof -
  define s where "s = fadd m high low"
  define l where "l = fdiv m s 2"
  define t where "t = fmul m 2 l"
  define u where "u = fsub m t 1"
  have s: "\<bar>s - (high + low)\<bar> \<le> ulp" unfolding s_def fadd_def using assms by (intro err) linarith
  have l: "\<bar>l - s / 2\<bar> \<le> ulp" unfolding l_def fdiv_def using s assms ulp_small by (intro err) linarith
  have t: "\<bar>t - 2 * l\<bar> \<le> ulp" unfolding t_def fmul_def using l s assms ulp_small by (intro err) linarith
  have u: "\<bar>u - (t - 1)\<bar> \<le> ulp" unfolding u_def fsub_def using t l s assms ulp_small by (intro err) linarith
  have a: "\<bar>u\<bar> \<le> 1 - 1 / 300" using u t l s assms ulp_small by linarith
  have "\<bar>fsub m 1 \<bar>u\<bar> - (1 - \<bar>u\<bar>)\<bar> \<le> ulp" unfolding fsub_def using a by (intro err) linarith
  then show ?thesis using a ulp_small unfolding u_def t_def l_def s_def by linarith
qed

lemma hexToHSL_range:
  assumes "hexToHSL m h = (hue, s, l)"
  shows "0 \<le> hue" "0 \<le> s \<and> s \<le> 1" "0 \<le> l \<and> l \<le> 1"
proof -
  define high where "high = max (max (RNorm m h) (GNorm m h)) (BNorm m h)"
  define low where "low = min (min (RNorm m h) (GNorm m h)) (BNorm m h)"
  note sp = span_cases[of h, folded high_def low_def]
  have l: "0 \<le> fdiv m (fadd m high low) 2 \<and> fdiv m (fadd m high low) 2 \<le> 1"
  proof -
    have "0 \<le> fadd m high low" unfolding fadd_def using sp by (intro rnd_nonneg) simp
    moreover have "fadd m high low \<le> f_rnd m 2" unfolding fadd_def using sp by (intro rnd_mono) simp
    ultimately show ?thesis unfolding fdiv_def using rnd_of_int[of 2] by (intro rnd_unit) auto
  qed
  have e: "hexToHSL m h = (if fsub m high low = 0 then (0, 0, fdiv m (fadd m high low) 2)
      else (hueDegrees m (RNorm m h) (GNorm m h) (BNorm m h) high (fsub m high low),
        min (fdiv m (fsub m high low) (fsub m 1 \<bar>fsub m (fmul m 2 (fdiv m (fadd m high low) 2)) 1\<bar>)) 1,
        fdiv m (fadd m high low) 2))"
    by (simp add: hexToHSL_def high_def low_def Let_def)
  show "0 \<le> hue" "0 \<le> s \<and> s \<le> 1" "0 \<le> l \<and> l \<le> 1"
  proof (atomize(full), cases "fsub m high low = 0")
    case True
    then show "0 \<le> hue \<and> (0 \<le> s \<and> s \<le> 1) \<and> 0 \<le> l \<and> l \<le> 1" using e l assms by simp
  next
    case False
    have "0 \<le> hueDegrees m (RNorm m h) (GNorm m h) (BNorm m h) high (fsub m high low)"
      using False by (intro hue_nonneg) (simp_all add: high_def low_def)
    moreover have "0 < fsub m 1 \<bar>fsub m (fmul m 2 (fdiv m (fadd m high low) 2)) 1\<bar>"
      using sp(1,3) sp(6)[OF False] by (intro hsl_divisor_pos) auto
    then have "0 \<le> fdiv m (fsub m high low) (fsub m 1 \<bar>fsub m (fmul m 2 (fdiv m (fadd m high low) 2)) 1\<bar>)"
      unfolding fdiv_def using sp(4) by (intro rnd_nonneg divide_nonneg_pos) auto
    ultimately show "0 \<le> hue \<and> (0 \<le> s \<and> s \<le> 1) \<and> 0 \<le> l \<and> l \<le> 1" using False e l assms by auto
  qed
qed

lemma hexToHSV_range:
  assumes "hexToHSV m h = (hue, s, v)"
  shows "0 \<le> hue \<and> 0 \<le> s \<and> s \<le> 1 + 1 / 1000 \<and> 0 \<le> v \<and> v \<le> 1"
proof -
  define high where "high = max (max (RNorm m h) (GNorm m h)) (BNorm m h)"
  define low where "low = min (min (RNorm m h) (GNorm m h)) (BNorm m h)"
  note sp = span_cases[of h, folded high_def low_def]
  have e: "hexToHSV m h = (if fsub m high low = 0 then (0, 0, high)
      else (hueDegrees m (RNorm m h) (GNorm m h) (BNorm m h) high (fsub m high low), fdiv m (fsub m high low) high, high))"
    by (simp add: hexToHSV_def high_def low_def Let_def)
  show ?thesis
  proof (cases "fsub m high low = 0")
    case True
    then show ?thesis using e sp assms by simp
  next
    case False
    have "0 \<le> hueDegrees m (RNorm m h) (GNorm m h) (BNorm m h) high (fsub m high low)"
      using False by (intro hue_nonneg) (simp_all add: high_def low_def)
    moreover have "\<bar>fdiv m (fsub m high low) high\<bar> \<le> 1 + 1 / 1000"
      using sp(1-4) sp(6)[OF False] ulp_small by (intro ratio_near_one) linarith+
    moreover have "0 \<le> fdiv m (fsub m high low) high"
      unfolding fdiv_def using sp(1,2,4) by (intro rnd_nonneg divide_nonneg_nonneg) auto
    ultimately show ?thesis using False e sp assms by auto
  qed
qed

lemma oklab_hue_nonneg: "0 \<le> oklabHueDegrees m a b"
proof -
  define p where "p = lit m pi"
  have p: "\<bar>p - pi\<bar> \<le> ulp" unfolding p_def using pi_less_4 by (intro lit_err) (simp add: abs_le_iff pi_ge_zero; linarith)
  have pb: "1 \<le> p" "p \<le> 5" using p pi_ge_two pi_less_4 ulp_small by linarith+
  have a: "- p \<le> f_atan2 m b a" "f_atan2 m b a \<le> p" using atan2_range[of b a] by (auto simp: p_def lit_def)
  have "\<bar>fmul m (f_atan2 m b a) 180 - f_atan2 m b a * 180\<bar> \<le> ulp" unfolding fmul_def using a pb by (intro err) linarith
  then have f: "- (180 * p + 1) \<le> fmul m (f_atan2 m b a) 180" "\<bar>fmul m (f_atan2 m b a) 180\<bar> \<le> 901" using a pb ulp_small by linarith+
  have "- 182 \<le> fmul m (f_atan2 m b a) 180 / p" using f(1) pb by (simp add: le_divide_eq)
  then have "f_rnd m (- 182) \<le> fdiv m (fmul m (f_atan2 m b a) 180) p" unfolding fdiv_def by (rule rnd_mono)
  then have d: "- 182 \<le> fdiv m (fmul m (f_atan2 m b a) 180) p" using rnd_of_int[of "- 182"] by simp
  then have "0 \<le> fadd m (fdiv m (fmul m (f_atan2 m b a) 180) p) 360" unfolding fadd_def by (intro rnd_nonneg) simp
  then show ?thesis by (simp add: oklabHueDegrees_def Let_def p_def)
qed

lemma roundTo_range:
  assumes "0 \<le> d" "d \<le> 3" "0 \<le> go_round (fmul m v (10 ^ d))" "go_round (fmul m v (10 ^ d)) \<le> 4096"
  shows "0 \<le> roundTo m v d"
    and "of_int (go_round (fmul m v (10 ^ d))) \<le> of_int k * (10 :: real) ^ d \<Longrightarrow> 0 \<le> k \<Longrightarrow> k \<le> 4096 \<Longrightarrow> roundTo m v d \<le> of_int k"
proof -
  have p: "f_pow m 10 (of_nat d) = 10 ^ d" using assms(2) by (rule pow_ten)
  have r: "roundTo m v d = fdiv m (of_int (go_round (fmul m v (10 ^ d)))) (10 ^ d)" by (simp add: roundTo_def p Let_def)
  show "0 \<le> roundTo m v d" unfolding r fdiv_def using assms by (intro rnd_nonneg) simp
  assume k: "of_int (go_round (fmul m v (10 ^ d))) \<le> of_int k * (10 :: real) ^ d" "0 \<le> k" "k \<le> 4096"
  then have "of_int (go_round (fmul m v (10 ^ d))) / 10 ^ d \<le> (of_int k :: real)" by (simp add: divide_le_eq)
  then show "roundTo m v d \<le> of_int k" unfolding r fdiv_def using k by (intro rnd_le_of_int) auto
qed

lemma oklch_lightness_range:
  assumes "hexToOklab m h = (lightness, a, b)"
  shows "0 \<le> roundTo m (fmul m lightness 100) okLightnessDecimals \<and> roundTo m (fmul m lightness 100) okLightnessDecimals \<le> 100"
proof -
  note L = hexToOklab_lightness[OF assms]
  define v where "v = fmul m lightness 100"
  have "\<bar>v - lightness * 100\<bar> \<le> ulp" unfolding v_def fmul_def using L by (intro err) linarith
  then have v: "- 1 / 39 \<le> v" "v \<le> 100 + 1 / 22" using L ulp_small by linarith+
  have "\<bar>fmul m v 10 - v * 10\<bar> \<le> ulp" unfolding fmul_def using v by (intro err) linarith
  then have t: "- 1 / 3 \<le> fmul m v 10" "fmul m v 10 \<le> 1000 + 5 / 10 - 1 / 100" using v ulp_small by linarith+
  have "go_round (- 1 / 3) = 0" "go_round (1000 + 5 / 10 - 1 / 100) = 1000" by (rule go_round_unique; simp)+
  then have g: "0 \<le> go_round (fmul m v 10)" "go_round (fmul m v 10) \<le> 1000"
    using go_round_mono[OF t(1)] go_round_mono[OF t(2)] by simp_all
  then have "of_int (go_round (fmul m v 10)) \<le> (of_int 100 * 10 ^ 1 :: real)" by simp
  then show ?thesis
    using roundTo_range[of 1 v] roundTo_range(2)[of 1 v 100] g unfolding v_def[symmetric] okLightnessDecimals_def by simp
qed

lemma oklch_chroma_nonneg: "0 \<le> roundTo m (f_hypot m a b) okChromaDecimals"
proof -
  have p: "f_pow m 10 (of_nat 3) = 10 ^ 3" by (rule pow_ten) simp
  have "0 \<le> fmul m (f_hypot m a b) (10 ^ 3)" unfolding fmul_def using hypot_nonneg by (intro rnd_nonneg mult_nonneg_nonneg) simp_all
  then have "0 \<le> go_round (fmul m (f_hypot m a b) (10 ^ 3))" using go_round_mono[of 0] go_round_of_int[of 0] by fastforce
  then show ?thesis unfolding roundTo_def okChromaDecimals_def Let_def p fdiv_def by (intro rnd_nonneg) simp
qed

end

definition degrees :: "int \<Rightarrow> bool" where "degrees d \<longleftrightarrow> 0 \<le> d \<and> d < 360"
definition percent :: "int \<Rightarrow> bool" where "percent p \<longleftrightarrow> 0 \<le> p \<and> p \<le> 100"

text \<open>
  C39. The description of a colour is well formed and useful.  For every hex code the channels are its
  bytes, every hue is a whole number of degrees below 360 and every share a percentage, the OkLCh lightness
  included, as the API documents, with no division by zero on the way; both contrasts lie between 1 and 21 and carry the level of the ratio
  that is shown, never that of a ratio rounded up; and text in white or in black on the colour always
  passes level AA.
\<close>

theorem Describe_contract:
  assumes "go_math m" "length h = HexLen" "Describe m h = i"
  shows "info_Hex i = h \<and> info_RGB i = \<lparr>rgb_R = RByte h, rgb_G = GByte h, rgb_B = BByte h\<rparr>
    \<and> degrees (hsl_Hue (info_HSL i)) \<and> percent (hsl_Saturation (info_HSL i)) \<and> percent (hsl_Lightness (info_HSL i))
    \<and> degrees (hsv_Hue (info_HSV i)) \<and> percent (hsv_Saturation (info_HSV i)) \<and> percent (hsv_Value (info_HSV i))
    \<and> degrees (ok_Hue (info_OkLCh i)) \<and> 0 \<le> ok_Lightness (info_OkLCh i) \<and> ok_Lightness (info_OkLCh i) \<le> 100
    \<and> 0 \<le> ok_Chroma (info_OkLCh i)
    \<and> (\<forall>c \<in> {AgainstWhite i, AgainstBlack i}. 1 \<le> Ratio c \<and> Ratio c \<le> 21 \<and> Level c = levelOf (Ratio c))
    \<and> (\<exists>c \<in> {AgainstWhite i, AgainstBlack i}. Level c = LevelAA \<or> Level c = LevelAAA)"
proof -
  obtain hue s l where hsl: "hexToHSL m h = (hue, s, l)" using prod_cases3 by blast
  obtain hue' s' v where hsv: "hexToHSV m h = (hue', s', v)" using prod_cases3 by blast
  obtain lightness a b where lab: "hexToOklab m h = (lightness, a, b)" using prod_cases3 by blast
  obtain white black where bw: "contrastsOfBW m h = (white, black)" by fastforce
  define okh where "okh = (if neutralChroma m \<le> f_hypot m a b then oklabHueDegrees m a b else 0)"
  have "0 \<le> okh" unfolding okh_def using go_math.oklab_hue_nonneg[OF assms(1)] by simp
  then have ok: "degrees (wholeDegrees okh)" using wholeDegrees_range by (simp add: degrees_def)
  note rl = go_math.hexToHSL_range[OF assms(1) hsl] and rv = go_math.hexToHSV_range[OF assms(1) hsv]
  have pc: "percent (wholePercent m x)" if "0 \<le> x" "x \<le> 1 + 1 / 1000" for x
    using go_math.percent_range[OF assms(1) that] by (simp add: percent_def)
  have i: "info_Hex i = h" "info_RGB i = \<lparr>rgb_R = RByte h, rgb_G = GByte h, rgb_B = BByte h\<rparr>"
    "hsl_Hue (info_HSL i) = wholeDegrees hue" "hsl_Saturation (info_HSL i) = wholePercent m s"
    "hsl_Lightness (info_HSL i) = wholePercent m l" "hsv_Hue (info_HSV i) = wholeDegrees hue'"
    "hsv_Saturation (info_HSV i) = wholePercent m s'" "hsv_Value (info_HSV i) = wholePercent m v"
    "ok_Lightness (info_OkLCh i) = roundTo m (fmul m lightness 100) okLightnessDecimals"
    "ok_Chroma (info_OkLCh i) = roundTo m (f_hypot m a b) okChromaDecimals"
    "ok_Hue (info_OkLCh i) = wholeDegrees okh" "AgainstWhite i = white" "AgainstBlack i = black"
    using assms(2,3) by (auto simp: Describe_def hsl hsv lab bw Let_def okh_def)
  show ?thesis
    unfolding i using ok rl rv pc go_math.contrasts_readable[OF assms(1) bw] go_math.oklch_lightness_range[OF assms(1) lab]
      go_math.oklch_chroma_nonneg[OF assms(1), of a b]
      wholeDegrees_range[of hue] wholeDegrees_range[of hue'] by (simp add: degrees_def)
qed

theorem Describe_contract_witness:
  "degrees (hsl_Hue (info_HSL (Describe binary64_env ''#ff8000'')))
    \<and> (\<exists>c \<in> {AgainstWhite (Describe binary64_env ''#ff8000''), AgainstBlack (Describe binary64_env ''#ff8000'')}.
        Level c = LevelAA \<or> Level c = LevelAAA)"
proof -
  have "length ''#ff8000'' = HexLen" by (simp add: HexLen_def)
  from Describe_contract[OF binary64_go_math this refl] show ?thesis by blast
qed

end
