(* ===== verification/Go_Env.thy ===== *)
theory Go_Env
  imports Go_Time Go_Float Go_Errors
begin

text \<open>
  What the programs read their configuration with: \<^verbatim>\<open>strconv.Atoi\<close> and \<^verbatim>\<open>time.ParseDuration\<close>, on
  64-bit integers, and the readers \<^verbatim>\<open>intFromEnv\<close>, \<^verbatim>\<open>durationFromEnv\<close> and \<^verbatim>\<open>stringFromEnv\<close> built on
  them.  An environment is a function; a variable that is not set is the empty string.
\<close>

type_synonym getenv = "string \<Rightarrow> string"

section \<open>strconv.Atoi\<close>

definition syntaxError :: "(go_error, 'a) result" where
  "syntaxError = Inl (Foreign ''strconv.Atoi: invalid syntax'')"

definition rangeError :: "(go_error, 'a) result" where
  "rangeError = Inl (Foreign ''strconv.Atoi: value out of range'')"

text \<open>The loop of \<^verbatim>\<open>ParseUint\<close>, which checks for overflow digit by digit.\<close>

fun ParseUint :: "nat \<Rightarrow> string \<Rightarrow> (go_error, nat) result" where
  "ParseUint n [] = Inr n"
| "ParseUint n (c # s) =
     (if \<not> isDigit c then syntaxError
      else if n \<ge> (2 ^ 64 - 1) div 10 + 1 then rangeError
      else if 10 * n + digitVal c > 2 ^ 64 - 1 then rangeError
      else ParseUint (10 * n + digitVal c) s)"

definition cutSign :: "string \<Rightarrow> bool \<times> string" where
  "cutSign s = (case s of
       c # r \<Rightarrow> if c = CHR ''-'' then (True, r) else if c = CHR ''+'' then (False, r) else (False, s)
     | [] \<Rightarrow> (False, []))"

definition Atoi :: "string \<Rightarrow> (go_error, int) result" where
  "Atoi s =
     (case cutSign s of (neg, ds) \<Rightarrow>
        if ds = [] then syntaxError
        else case ParseUint 0 ds of
               Inl err \<Rightarrow> Inl err
             | Inr un \<Rightarrow>
                 if \<not> neg \<and> un \<ge> 2 ^ 63 then rangeError
                 else if neg \<and> un > 2 ^ 63 then rangeError
                 else Inr (if neg then - int un else int un))"

lemma Atoi_range: "Atoi s = Inr n \<Longrightarrow> - (2 ^ 63) \<le> n \<and> n < 2 ^ 63"
  by (auto simp: Atoi_def syntaxError_def rangeError_def not_le not_less split: prod.splits if_splits sum.splits)

lemma ParseUint_atoi:
  "list_all isDigit s \<Longrightarrow> foldl (\<lambda>a c. 10 * a + digitVal c) n s < 2 ^ 63
    \<Longrightarrow> ParseUint n s = Inr (foldl (\<lambda>a c. 10 * a + digitVal c) n s)"
proof (induction s arbitrary: n)
  case (Cons c s)
  have mono: "k \<le> foldl (\<lambda>a c. 10 * a + digitVal c) k t" for k t
  proof (induction t arbitrary: k)
    case (Cons d t)
    have "k \<le> 10 * k + digitVal d" by simp
    then show ?case using Cons[of "10 * k + digitVal d"] by (simp; linarith)
  qed simp
  have "10 * n + digitVal c < 2 ^ 63" using Cons.prems(2) mono[of "10 * n + digitVal c" s] by simp
  then have "n < (2 ^ 64 - 1) div 10 + 1" "10 * n + digitVal c \<le> 2 ^ 64 - 1" by simp_all
  then show ?case using Cons by simp
qed simp

lemma decimal_digits: "list_all isDigit (decimal n)"
  by (induction n rule: decimal.induct) (subst decimal.simps, simp)

lemma atoi_decimal: "atoi (decimal n) = n"
proof (induction n rule: decimal.induct)
  case (1 n)
  then show ?case by (subst decimal.simps) (auto simp: atoi_append, simp add: atoi_def)
qed

lemma decimal_not_Nil [simp]: "decimal n \<noteq> []"
  by (subst decimal.simps) simp

lemma decimal_hd_digit: "isDigit (hd (decimal n))"
  using decimal_digits[of n] by (cases "decimal n") simp_all

lemma digit_not_sign: "isDigit c \<Longrightarrow> c \<noteq> CHR ''-'' \<and> c \<noteq> CHR ''+'' \<and> c \<noteq> CHR ''.''"
  by (auto simp: isDigit_def)

lemma cutSign_digits: "s \<noteq> [] \<Longrightarrow> isDigit (hd s) \<Longrightarrow> cutSign s = (False, s)"
  by (cases s) (auto simp: cutSign_def dest: digit_not_sign)

lemma Atoi_decimal:
  assumes "n < 2 ^ 63"
  shows "Atoi (decimal n) = Inr (int n)"
proof -
  have "ParseUint 0 (decimal n) = Inr n"
    using ParseUint_atoi[OF decimal_digits, of 0 n] assms atoi_decimal[of n] by (simp add: atoi_def)
  then show ?thesis using assms
    by (simp add: Atoi_def cutSign_digits decimal_hd_digit)
qed

text \<open>\<^verbatim>\<open>strconv.Itoa\<close>.\<close>

definition Itoa :: "int \<Rightarrow> string" where
  "Itoa n = (if n < 0 then ''-'' @ decimal (nat (- n)) else decimal (nat n))"

section \<open>time.ParseDuration\<close>

text \<open>A duration is a number of nanoseconds.\<close>

definition Second :: int where "Second = 1000000000"

definition durationError :: "string \<Rightarrow> (go_error, 'a) result" where
  "durationError s = Inl (Foreign (''time: invalid duration '' @ s))"

fun leadingInt :: "64 word \<Rightarrow> string \<Rightarrow> (64 word \<times> string) option" where
  "leadingInt x [] = Some (x, [])"
| "leadingInt x (c # s) =
     (if \<not> isDigit c then Some (x, c # s)
      else if x > 2 ^ 63 div 10 then None
      else let x' = x * 10 + of_nat (digitVal c) in
           if x' > 2 ^ 63 then None else leadingInt x' s)"

fun leadingFraction :: "fenv \<Rightarrow> bool \<Rightarrow> 64 word \<Rightarrow> real \<Rightarrow> string \<Rightarrow> 64 word \<times> real \<times> string" where
  "leadingFraction m overflow x scale [] = (x, scale, [])"
| "leadingFraction m overflow x scale (c # s) =
     (if \<not> isDigit c then (x, scale, c # s)
      else if overflow \<or> x > (2 ^ 63 - 1) div 10 then leadingFraction m True x scale s
      else let y = x * 10 + of_nat (digitVal c) in
           if y > 2 ^ 63 then leadingFraction m True x scale s
           else leadingFraction m False y (fmul m scale 10) s)"

definition unitMap :: "(string \<times> 64 word) list" where
  "unitMap =
     [(''ns'', 1), (''us'', 1000), ([CHR 0xC2, CHR 0xB5, CHR ''s''], 1000), ([CHR 0xCE, CHR 0xBC, CHR ''s''], 1000),
      (''ms'', 1000000), (''s'', 1000000000), (''m'', 60000000000), (''h'', 3600000000000)]"

definition unit_char :: "char \<Rightarrow> bool" where
  "unit_char c \<longleftrightarrow> c \<noteq> CHR ''.'' \<and> \<not> isDigit c"

text \<open>One round of the loop: a number, its fraction and its unit.\<close>

definition durationTerm :: "fenv \<Rightarrow> string \<Rightarrow> string \<Rightarrow> (go_error, 64 word \<times> string) result" where
  "durationTerm m orig s =
     (if \<not> (hd s = CHR ''.'' \<or> isDigit (hd s)) then durationError orig
      else case leadingInt 0 s of
             None \<Rightarrow> durationError orig
           | Some (v, s1) \<Rightarrow>
               let pre = length s \<noteq> length s1;
                   (f, scale, s2) = (if s1 \<noteq> [] \<and> hd s1 = CHR ''.'' then leadingFraction m False 0 1 (tl s1) else (0, 1, s1));
                   post = (s1 \<noteq> [] \<and> hd s1 = CHR ''.'' \<and> length (tl s1) \<noteq> length s2);
                   u = takeWhile unit_char s2
               in if \<not> pre \<and> \<not> post then durationError orig
                  else if u = [] then Inl (Foreign (''time: missing unit in duration '' @ orig))
                  else case map_of unitMap u of
                         None \<Rightarrow> Inl (Foreign (''time: unknown unit in duration '' @ orig))
                       | Some unit \<Rightarrow>
                           if v > 2 ^ 63 div unit then durationError orig
                           else
                             let v1 = v * unit;
                                 v2 = (if f > 0 then v1 + word_of_int (go_trunc (fmul m (f_rnd m (real (unat f)))
                                         (fdiv m (f_rnd m (real (unat unit))) scale))) else v1)
                             in if f > 0 \<and> v2 > 2 ^ 63 then durationError orig
                                else Inr (v2, dropWhile unit_char s2))"

lemma leadingInt_shrinks: "leadingInt x s = Some (v, r) \<Longrightarrow> length r \<le> length s"
  by (induction x s rule: leadingInt.induct) (auto simp: Let_def split: if_splits)

lemma leadingFraction_shrinks: "leadingFraction m b x sc s = (f, sc', r) \<Longrightarrow> length r \<le> length s"
  by (induction m b x sc s rule: leadingFraction.induct) (auto simp: Let_def split: if_splits)

lemma dropWhile_shrinks: "takeWhile p s \<noteq> [] \<Longrightarrow> length (dropWhile p s) < length s"
  by (cases s) (auto simp: le_imp_less_Suc length_dropWhile_le split: if_splits)

lemma durationTerm_shrinks:
  assumes "durationTerm m orig s = Inr (v, r)"
  shows "length r < length s"
proof -
  obtain x s1 where i: "leadingInt 0 s = Some (x, s1)"
    using assms by (cases "leadingInt 0 s") (auto simp: durationTerm_def durationError_def split: if_splits)
  obtain f sc s2 where f: "(if s1 \<noteq> [] \<and> hd s1 = CHR ''.'' then leadingFraction m False 0 1 (tl s1) else (0, 1, s1)) = (f, sc, s2)"
    by (metis prod.exhaust)
  have u: "takeWhile unit_char s2 \<noteq> []" "r = dropWhile unit_char s2"
    using assms by (auto simp: durationTerm_def durationError_def i f Let_def split: if_splits option.splits)
  have "length s2 \<le> length s1"
    using f leadingFraction_shrinks[of m False 0 1 "tl s1" f sc s2] by (auto split: if_splits)
  then show ?thesis using u dropWhile_shrinks[of unit_char s2] leadingInt_shrinks[OF i] by simp
qed

function durationLoop :: "fenv \<Rightarrow> string \<Rightarrow> 64 word \<Rightarrow> string \<Rightarrow> (go_error, 64 word) result" where
  "durationLoop m orig d s =
     (if s = [] then Inr d
      else case durationTerm m orig s of
             Inl err \<Rightarrow> Inl err
           | Inr (v, r) \<Rightarrow> if d + v > 2 ^ 63 then durationError orig else durationLoop m orig (d + v) r)"
  by pat_completeness auto
termination
  by (relation "measure (\<lambda>(m, orig, d, s). length s)") (auto dest: durationTerm_shrinks)

declare durationLoop.simps [simp del]

definition ParseDuration :: "fenv \<Rightarrow> string \<Rightarrow> (go_error, int) result" where
  "ParseDuration m orig =
     (case cutSign orig of (neg, s) \<Rightarrow>
        if s = ''0'' then Inr 0
        else if s = [] then durationError orig
        else case durationLoop m orig 0 s of
               Inl err \<Rightarrow> Inl err
             | Inr d \<Rightarrow>
                 if neg then Inr (sint (- d))
                 else if d > 2 ^ 63 - 1 then durationError orig
                 else Inr (sint d))"

text \<open>Whole numbers of seconds are read exactly.\<close>

lemma unat_small: "n < 2 ^ 64 \<Longrightarrow> unat (of_nat n :: 64 word) = n"
  by (simp add: unat_of_nat)

lemma leadingInt_digits:
  "list_all isDigit ds \<Longrightarrow> foldl (\<lambda>a c. 10 * a + digitVal c) (unat x) ds \<le> 2 ^ 62 \<Longrightarrow> unat x \<le> 2 ^ 62
    \<Longrightarrow> c # r \<noteq> [] \<Longrightarrow> \<not> isDigit c
    \<Longrightarrow> leadingInt x (ds @ c # r) = Some (of_nat (foldl (\<lambda>a c. 10 * a + digitVal c) (unat x) ds), c # r)"
proof (induction ds arbitrary: x)
  case (Cons d ds)
  have mono: "k \<le> foldl (\<lambda>a c. 10 * a + digitVal c) k t" for k t
  proof (induction t arbitrary: k)
    case (Cons d t)
    have "k \<le> 10 * k + digitVal d" by simp
    then show ?case using Cons[of "10 * k + digitVal d"] by (simp; linarith)
  qed simp
  let ?n = "10 * unat x + digitVal d"
  let ?y = "x * 10 + of_nat (digitVal d)"
  have n: "?n \<le> 2 ^ 62" using Cons.prems(2) mono[of ?n ds] by simp
  have y: "?y = of_nat ?n" by (simp add: mult.commute)
  have uy: "unat ?y = ?n" unfolding y by (rule unat_small) (use n in simp)
  have "\<not> x > 2 ^ 63 div 10" using n by (simp add: word_less_nat_alt not_less)
  moreover have "\<not> ?y > 2 ^ 63" using uy n by (simp only: word_less_nat_alt) simp
  ultimately have "leadingInt x ((d # ds) @ c # r) = leadingInt ?y (ds @ c # r)"
    using Cons.prems(1) by (simp add: Let_def)
  also have "\<dots> = Some (of_nat (foldl (\<lambda>a c. 10 * a + digitVal c) (unat ?y) ds), c # r)"
    using Cons.prems n uy by (intro Cons.IH) simp_all
  finally show ?case using uy by simp
qed simp

lemma ParseDuration_seconds:
  assumes "n \<le> 9000000000"
  shows "ParseDuration m (decimal n @ ''s'') = Inr (int n * Second)"
proof -
  let ?s = "decimal n @ ''s''"
  have hd: "?s \<noteq> []" "isDigit (hd ?s)" using decimal_hd_digit[of n] by simp_all
  have sg: "cutSign ?s = (False, ?s)" using hd by (intro cutSign_digits)
  have i: "leadingInt 0 ?s = Some (of_nat n, ''s'')"
    using leadingInt_digits[OF decimal_digits, of 0 n "CHR ''s''" "[]"] atoi_decimal[of n] assms
    by (simp add: atoi_def isDigit_def)
  have tw: "unit_char (CHR ''s'')" by (simp add: unit_char_def isDigit_def)
  have un: "unat (of_nat n :: 64 word) = n" by (rule unat_small) (use assms in simp)
  have v: "\<not> (of_nat n :: 64 word) > 2 ^ 63 div 1000000000"
    using assms by (simp add: word_less_nat_alt un not_less)
  have t: "durationTerm m ?s ?s = Inr (of_nat n * 1000000000, [])"
    using hd v by (simp add: durationTerm_def i Let_def tw unitMap_def)
  have w: "(of_nat n * 1000000000 :: 64 word) = of_nat (n * 1000000000)" by simp
  have uw: "unat (of_nat n * 1000000000 :: 64 word) = n * 1000000000"
    unfolding w by (rule unat_small) (use assms in simp)
  have ok: "\<not> (of_nat n * 1000000000 :: 64 word) > 2 ^ 63" "\<not> (of_nat n * 1000000000 :: 64 word) > 2 ^ 63 - 1"
    using assms by (simp_all add: word_less_nat_alt uw not_less)
  have l: "durationLoop m ?s 0 ?s = Inr (of_nat n * 1000000000)"
    using ok(1) by (subst durationLoop.simps) (simp add: t durationLoop.simps)
  have "sint (of_nat n * 1000000000 :: 64 word) = int n * 1000000000"
  proof -
    have "uint (of_nat n * 1000000000 :: 64 word) = int n * 1000000000" using uw by (simp add: uint_nat del: unat_eq_nat_uint)
    then show ?thesis using assms by (simp add: sint_uint signed_take_bit_int_eq_self)
  qed
  then show ?thesis using ok(2) by (simp add: ParseDuration_def sg l Second_def)
qed

section \<open>Reading the environment\<close>

definition intFromEnv :: "getenv \<Rightarrow> string \<Rightarrow> int \<Rightarrow> (go_error, int) result" where
  "intFromEnv env name def =
     (let v = env name in
      if v = [] then Inr def
      else case Atoi v of
             Inl err \<Rightarrow> Inl (Errorf (name @ ''='' @ v) [Sentinel ErrConfig, err])
           | Inr n \<Rightarrow> Inr n)"

definition durationFromEnv :: "fenv \<Rightarrow> getenv \<Rightarrow> string \<Rightarrow> int \<Rightarrow> (go_error, int) result" where
  "durationFromEnv m env name def =
     (let v = env name in
      if v = [] then Inr def
      else case ParseDuration m v of
             Inl err \<Rightarrow> Inl (Errorf (name @ ''='' @ v) [Sentinel ErrConfig, err])
           | Inr d \<Rightarrow> Inr d)"

definition stringFromEnv :: "getenv \<Rightarrow> string \<Rightarrow> string \<Rightarrow> string" where
  "stringFromEnv env name def = (let v = env name in if v \<noteq> [] then v else def)"

end
