(* ===== verification/Json.thy ===== *)
theory Json
  imports Go_Env
begin

text \<open>
  \<^verbatim>\<open>encoding/json\<close>, as far as the replies need it: what \<^verbatim>\<open>json.Marshal\<close> writes for a value, with the
  escapes of its default settings, and a reader of the grammar of RFC 8259, for what a client
  makes of the bytes.  A string is a byte string; a number is the text of its digits.
\<close>

section \<open>Strings\<close>

abbreviation ord :: "char \<Rightarrow> nat" where "ord \<equiv> of_char"

definition between :: "nat \<Rightarrow> nat \<Rightarrow> char \<Rightarrow> bool" where
  "between lo hi c \<longleftrightarrow> lo \<le> ord c \<and> ord c \<le> hi"

abbreviation continuation :: "char \<Rightarrow> bool" where
  "continuation \<equiv> between 0x80 0xBF"

text \<open>
  The number of bytes of the UTF-8 sequence that a string beginning with a byte above 127 starts with,
  0 when it is not valid, as \<^verbatim>\<open>utf8.DecodeRuneInString\<close> decides.
\<close>

definition rune2 :: "char \<Rightarrow> char \<Rightarrow> bool" where
  "rune2 a b \<longleftrightarrow> between 0xC2 0xDF a \<and> continuation b"

definition rune3 :: "char \<Rightarrow> char \<Rightarrow> char \<Rightarrow> bool" where
  "rune3 a b c \<longleftrightarrow> continuation c \<and>
     (ord a = 0xE0 \<and> between 0xA0 0xBF b \<or> ord a = 0xED \<and> between 0x80 0x9F b
      \<or> (between 0xE1 0xEC a \<or> between 0xEE 0xEF a) \<and> continuation b)"

definition rune4 :: "char \<Rightarrow> char \<Rightarrow> char \<Rightarrow> char \<Rightarrow> bool" where
  "rune4 a b c d \<longleftrightarrow> continuation c \<and> continuation d \<and>
     (ord a = 0xF0 \<and> between 0x90 0xBF b \<or> between 0xF1 0xF3 a \<and> continuation b
      \<or> ord a = 0xF4 \<and> between 0x80 0x8F b)"

definition rune_size :: "string \<Rightarrow> nat" where
  "rune_size s = (case s of
       a # b # s' \<Rightarrow> if rune2 a b then 2 else (case s' of
         c # s'' \<Rightarrow> if rune3 a b c then 3 else (case s'' of
           d # _ \<Rightarrow> if rune4 a b c d then 4 else 0 | [] \<Rightarrow> 0) | [] \<Rightarrow> 0) | _ \<Rightarrow> 0)"

lemma rune_bytes:
  "rune2 a b \<Longrightarrow> 128 \<le> ord a \<and> 128 \<le> ord b"
  "rune3 a b c \<Longrightarrow> 128 \<le> ord a \<and> 128 \<le> ord b \<and> 128 \<le> ord c"
  "rune4 a b c d \<Longrightarrow> 128 \<le> ord a \<and> 128 \<le> ord b \<and> 128 \<le> ord c \<and> 128 \<le> ord d"
  unfolding rune2_def rune3_def rune4_def between_def by linarith+

lemma rune_size_cases:
  obtains "rune_size s = 0"
  | a b r where "s = a # b # r" "rune2 a b" "rune_size s = 2"
  | a b c r where "s = a # b # c # r" "rune3 a b c" "rune_size s = 3"
  | a b c d r where "s = a # b # c # d # r" "rune4 a b c d" "rune_size s = 4"
proof -
  note e = rune_size_def
  consider "length s < 2" | a b r where "s = a # b # r" by (cases s; cases "tl s") auto
  then show thesis
  proof cases
    case 1
    then show thesis using that(1) by (cases s; cases "tl s") (simp_all add: e)
  next
    case (2 a b r)
    show thesis
    proof (cases "rune2 a b")
      case True
      then show thesis using that(2) 2 by (simp add: e)
    next
      case two: False
      show thesis
      proof (cases r)
        case Nil
        then show thesis using that(1) 2 two by (simp add: e)
      next
        case r: (Cons c r')
        show thesis
        proof (cases "rune3 a b c")
          case True
          then show thesis using that(3) 2 two r by (simp add: e)
        next
          case False
          then show thesis using that(1,4) 2 two r by (cases r'; cases "rune4 a b c (hd r')") (simp_all add: e)
        qed
      qed
    qed
  qed
qed

text \<open>Valid UTF-8.\<close>

function utf8 :: "string \<Rightarrow> bool" where
  "utf8 [] = True"
| "utf8 (c # s) = (if ord c < 128 then utf8 s
     else if rune_size (c # s) = 0 then False else utf8 (drop (rune_size (c # s)) (c # s)))"
  by pat_completeness auto
termination by (relation "measure length") auto

definition hexdigit :: "nat \<Rightarrow> char" where
  "hexdigit n = ''0123456789abcdef'' ! (n mod 16)"

text \<open>\<^verbatim>\<open>htmlSafeSet\<close>: printable ASCII that may stand for itself, in HTML too.\<close>

definition htmlSafe :: "char \<Rightarrow> bool" where
  "htmlSafe c \<longleftrightarrow> 32 \<le> ord c \<and> ord c < 128 \<and> c \<notin> {CHR 0x22, CHR 0x5C, CHR ''<'', CHR ''>'', CHR ''&''}"

definition escape :: "char \<Rightarrow> string" where
  "escape c = CHR 0x5C # (
     if c \<in> {CHR 0x22, CHR 0x5C} then [c]
     else if c = CHR 0x08 then ''b''
     else if c = CHR 0x0C then ''f''
     else if c = CHR 0x0A then ''n''
     else if c = CHR 0x0D then ''r''
     else if c = CHR 0x09 then ''t''
     else ''u00'' @ [hexdigit (ord c div 16), hexdigit (ord c)])"

text \<open>U+2028 and U+2029, which JavaScript once took for line ends, and bytes that are not UTF-8.\<close>

definition lineSeparator :: string where "lineSeparator = [CHR 0xE2, CHR 0x80, CHR 0xA8]"
definition paragraphSeparator :: string where "paragraphSeparator = [CHR 0xE2, CHR 0x80, CHR 0xA9]"

function appendString :: "string \<Rightarrow> string" where
  "appendString [] = []"
| "appendString (c # s) =
     (if ord c < 128 then (if htmlSafe c then [c] else escape c) @ appendString s
      else let n = rune_size (c # s); r = take n (c # s) in
        if n = 0 then CHR 0x5C # ''ufffd'' @ appendString s
        else (if r = lineSeparator then CHR 0x5C # ''u2028''
              else if r = paragraphSeparator then CHR 0x5C # ''u2029'' else r)
          @ appendString (drop n (c # s)))"
  by pat_completeness auto
termination by (relation "measure length") auto

text \<open>The reader: the rest of a string after its opening quote.  Surrogate escapes are refused.\<close>

definition hexval :: "char \<Rightarrow> nat option" where
  "hexval c = (if isDigit c then Some (digitVal c)
     else if between 97 102 c then Some (ord c - 87)
     else if between 65 70 c then Some (ord c - 55) else None)"

definition utf8_char :: "nat \<Rightarrow> string option" where
  "utf8_char n = (if n < 0x80 then Some [char_of n]
     else if n < 0x800 then Some [char_of (0xC0 + n div 64), char_of (0x80 + n mod 64)]
     else if 0xD800 \<le> n \<and> n \<le> 0xDFFF then None
     else Some [char_of (0xE0 + n div 4096), char_of (0x80 + n div 64 mod 64), char_of (0x80 + n mod 64)])"

definition prefixed :: "string option \<Rightarrow> (string \<times> string) option \<Rightarrow> (string \<times> string) option" where
  "prefixed p r = (case (p, r) of (Some a, Some (s, rest)) \<Rightarrow> Some (a @ s, rest) | _ \<Rightarrow> None)"

definition simple_escape :: "char \<Rightarrow> string option" where
  "simple_escape c = map_of (zip ''\"/bfnrt'' [[CHR 0x22], ''/'', [CHR 0x08], [CHR 0x0C], [CHR 0x0A], [CHR 0x0D], [CHR 0x09]]
      @ [(CHR 0x5C, [CHR 0x5C])]) c"

definition code_unit :: "char \<Rightarrow> char \<Rightarrow> char \<Rightarrow> char \<Rightarrow> string option" where
  "code_unit a b c d = (case (hexval a, hexval b, hexval c, hexval d) of
      (Some w, Some x, Some y, Some z) \<Rightarrow> utf8_char (w * 4096 + x * 256 + y * 16 + z) | _ \<Rightarrow> None)"

fun read_string :: "string \<Rightarrow> (string \<times> string) option" where
  "read_string [] = None"
| "read_string (c # s) =
     (if c = CHR 0x22 then Some ([], s)
      else if c = CHR 0x5C then
        (case s of [] \<Rightarrow> None
         | e # s' \<Rightarrow>
           if e = CHR ''u'' then
             (case s' of w # x # y # z # s'' \<Rightarrow> prefixed (code_unit w x y z) (read_string s'') | _ \<Rightarrow> None)
           else prefixed (simple_escape e) (read_string s'))
      else if ord c < 32 then None
      else prefixed (Some [c]) (read_string s))"

lemma read_ascii: "htmlSafe c \<Longrightarrow> read_string (c # s) = prefixed (Some [c]) (read_string s)"
  by (auto simp: htmlSafe_def)

lemma hexval_hexdigit: "hexval (hexdigit n) = Some (n mod 16)"
proof -
  have "\<forall>k \<in> set [0..<16]. hexval (hexdigit k) = Some k" by code_simp
  moreover have "hexdigit n = hexdigit (n mod 16)" by (simp add: hexdigit_def)
  ultimately show ?thesis by simp
qed

lemma code_unit_hexdigits:
  "code_unit (hexdigit a) (hexdigit b) (hexdigit c) (hexdigit d) =
     utf8_char (a mod 16 * 4096 + b mod 16 * 256 + c mod 16 * 16 + d mod 16)"
  by (simp add: code_unit_def hexval_hexdigit)

lemma read_escape:
  assumes "ord c < 128"
  shows "read_string (escape c @ s) = prefixed (Some [c]) (read_string s)"
proof -
  consider "c \<in> {CHR 0x22, CHR 0x5C, CHR 0x08, CHR 0x0C, CHR 0x0A, CHR 0x0D, CHR 0x09}"
    | "escape c = CHR 0x5C # CHR ''u'' # map hexdigit [0, 0, ord c div 16, ord c]"
    by (cases "c \<in> {CHR 0x22, CHR 0x5C, CHR 0x08, CHR 0x0C, CHR 0x0A, CHR 0x0D, CHR 0x09}")
      (simp_all add: escape_def hexdigit_def)
  then show ?thesis
  proof cases
    case 1
    then show ?thesis by (elim insertE) (simp_all add: escape_def simple_escape_def)
  next
    case 2
    have "ord c div 16 mod 16 * 16 + ord c mod 16 = ord c" using assms by simp
    then show ?thesis using assms unfolding 2 by (simp add: code_unit_hexdigits utf8_char_def)
  qed
qed

lemma read_runes: "list_all (\<lambda>c. 128 \<le> ord c) bs \<Longrightarrow> read_string (bs @ s) = prefixed (Some bs) (read_string s)"
proof (induction bs)
  case Nil
  then show ?case by (simp add: prefixed_def split: option.split)
next
  case (Cons c bs)
  then have "c \<noteq> CHR 0x22" "c \<noteq> CHR 0x5C" "\<not> ord c < 32" by auto
  then show ?case using Cons by (simp add: prefixed_def split: option.split)
qed

lemma read_separators:
  "read_string (CHR 0x5C # ''u2028'' @ s) = prefixed (Some lineSeparator) (read_string s)"
  "read_string (CHR 0x5C # ''u2029'' @ s) = prefixed (Some paragraphSeparator) (read_string s)"
proof -
  have "char_of (226 :: nat) = CHR 0xE2" "char_of (128 :: nat) = CHR 0x80" "char_of (168 :: nat) = CHR 0xA8"
    "char_of (169 :: nat) = CHR 0xA9"
    by (simp_all add: char_of_eq_iff)
  then show "read_string (CHR 0x5C # ''u2028'' @ s) = prefixed (Some lineSeparator) (read_string s)"
    "read_string (CHR 0x5C # ''u2029'' @ s) = prefixed (Some paragraphSeparator) (read_string s)"
    by (simp_all add: code_unit_def hexval_def isDigit_def digitVal_def utf8_char_def lineSeparator_def
        paragraphSeparator_def)
qed

lemma rune_size_bytes:
  assumes "n = rune_size (c # s)"
  shows "list_all (\<lambda>c. 128 \<le> ord c) (take n (c # s))"
  by (rule rune_size_cases[of "c # s"]) (use assms rune_bytes in \<open>simp_all add: numeral_eq_Suc\<close>)

lemma read_appendString:
  "utf8 s \<Longrightarrow> read_string (appendString s @ CHR 0x22 # rest) = Some (s, rest)"
proof (induction s rule: appendString.induct)
  case 1
  then show ?case by simp
next
  case (2 c s)
  let ?n = "rune_size (c # s)"
  show ?case
  proof (cases "ord c < 128")
    case True
    then have "read_string (appendString s @ CHR 0x22 # rest) = Some (s, rest)" using 2 by simp
    then show ?thesis using True by (simp add: read_ascii read_escape prefixed_def del: read_string.simps)
  next
    case False
    then have n: "?n \<noteq> 0" "utf8 (drop ?n (c # s))" using "2.prems" by (simp_all split: if_splits)
    have t: "read_string (appendString (drop ?n (c # s)) @ CHR 0x22 # rest) = Some (drop ?n (c # s), rest)"
      using "2.IH" False n by simp
    have "read_string ((if take ?n (c # s) = lineSeparator then CHR 0x5C # ''u2028''
          else if take ?n (c # s) = paragraphSeparator then CHR 0x5C # ''u2029'' else take ?n (c # s)) @ t)
        = prefixed (Some (take ?n (c # s))) (read_string t)" for t
      using read_separators read_runes[OF rune_size_bytes[OF refl]] by simp
    then show ?thesis using False n(1) t
      by (simp add: prefixed_def Let_def del: read_string.simps)
  qed
qed

section \<open>Numbers\<close>

definition json_exponent :: "string \<Rightarrow> bool" where
  "json_exponent s = (case s of [] \<Rightarrow> True
     | c # r \<Rightarrow> (c = CHR ''e'' \<or> c = CHR ''E'')
         \<and> (let d = (if r \<noteq> [] \<and> hd r \<in> {CHR ''+'', CHR ''-''} then tl r else r)
            in d \<noteq> [] \<and> list_all isDigit d))"

definition json_fraction :: "string \<Rightarrow> bool" where
  "json_fraction s = (case s of [] \<Rightarrow> True
     | c # r \<Rightarrow> if c = CHR ''.'' then takeWhile isDigit r \<noteq> [] \<and> json_exponent (dropWhile isDigit r)
         else json_exponent s)"

definition json_number :: "string \<Rightarrow> bool" where
  "json_number s =
     (let a = (if s \<noteq> [] \<and> hd s = CHR ''-'' then tl s else s); i = takeWhile isDigit a in
      i \<noteq> [] \<and> (length i = 1 \<or> hd i \<noteq> CHR ''0'') \<and> json_fraction (dropWhile isDigit a))"

definition number_char :: "char \<Rightarrow> bool" where
  "number_char c \<longleftrightarrow> isDigit c \<or> c \<in> set ''+-.eE''"

lemma digits_number: "list_all isDigit s \<Longrightarrow> list_all number_char s"
  by (auto simp: list_all_iff number_char_def)

lemma take_digits: "list_all number_char (dropWhile isDigit s) \<Longrightarrow> list_all number_char s"
  by (induction s) (auto simp: number_char_def split: if_splits)

lemma json_number_chars:
  assumes "json_number s"
  shows "list_all number_char s" "s \<noteq> []" "isDigit (hd s) \<or> hd s = CHR ''-''"
proof -
  have e: "list_all number_char r" if "json_exponent r" for r
    using that by (cases r; cases "tl r") (auto simp: json_exponent_def number_char_def Let_def list_all_iff split: if_splits)
  have f: "list_all number_char r" if "json_fraction r" for r
    using that e[of r] e[of "dropWhile isDigit (tl r)"]
    by (cases r) (auto simp: json_fraction_def number_char_def intro: take_digits split: if_splits)
  let ?a = "if s \<noteq> [] \<and> hd s = CHR ''-'' then tl s else s"
  have n: "takeWhile isDigit ?a \<noteq> []" "json_fraction (dropWhile isDigit ?a)"
    using assms unfolding json_number_def Let_def by blast+
  have a: "list_all number_char ?a" using f[OF n(2)] by (rule take_digits)
  have d: "?a \<noteq> [] \<and> isDigit (hd ?a)" using n(1) by (simp add: takeWhile_eq_Nil_iff)
  show "s \<noteq> []" using d by auto
  then show "isDigit (hd s) \<or> hd s = CHR ''-''" using d by (metis (full_types))
  show "list_all number_char s"
  proof (cases "hd s = CHR ''-''")
    case True
    then have "list_all number_char (tl s)" "s = CHR ''-'' # tl s" using a \<open>s \<noteq> []\<close> by (simp_all, metis list.collapse)
    moreover have "number_char (CHR ''-'')" by (simp add: number_char_def)
    ultimately show ?thesis by (metis list.pred_inject(2))
  next
    case False
    then show ?thesis using a by simp
  qed
qed

lemma decimal_no_zero: "length (decimal n) = 1 \<or> hd (decimal n) \<noteq> CHR ''0''"
proof (induction n rule: decimal.induct)
  case (1 n)
  have z: "digit n = CHR ''0'' \<Longrightarrow> n < 10 \<Longrightarrow> n = 0" for n using digit_zero[of n] by simp
  show ?case
  proof (cases "n < 100")
    case True
    then show ?thesis using z[of "n div 10"] by (subst (1 2) decimal.simps; subst decimal.simps) (auto simp: decimal.simps)
  next
    case False
    then have "length (decimal (n div 10)) \<noteq> 1" by (subst decimal.simps) simp
    then show ?thesis using 1 False by (subst (1 2) decimal.simps) (simp add: hd_append)
  qed
qed

lemma decimal_number:
  assumes "json_fraction r" "r \<noteq> [] \<Longrightarrow> \<not> isDigit (hd r)"
  shows "json_number (decimal n @ r)" "json_number (CHR ''-'' # decimal n @ r)"
proof -
  have t: "takeWhile isDigit (decimal n @ r) = decimal n" "dropWhile isDigit (decimal n @ r) = r"
    using decimal_digits[of n] assms(2) by (cases r; simp add: takeWhile_append2 list_all_iff)+
  have "hd (decimal n @ r) \<noteq> CHR ''-''" using decimal_hd_digit[of n] by (auto dest: digit_not_sign)
  then show "json_number (decimal n @ r)" "json_number (CHR ''-'' # decimal n @ r)"
    using t decimal_no_zero[of n] assms(1) by (simp_all add: json_number_def Let_def)
qed

lemma Itoa_number: "json_number (Itoa n)"
  using decimal_number[of "[]"] by (simp add: Itoa_def json_fraction_def)

lemma Itoa_inject [simp]: "Itoa n = Itoa k \<longleftrightarrow> n = k"
proof -
  have "hd (decimal m) \<noteq> CHR ''-''" for m using decimal_hd_digit[of m] by (auto dest: digit_not_sign)
  then have "decimal m \<noteq> CHR ''-'' # s" "CHR ''-'' # s \<noteq> decimal m" for m s by (metis list.sel(1))+
  moreover have "decimal a = decimal b \<longleftrightarrow> a = b" for a b by (metis atoi_decimal)
  ultimately show ?thesis by (auto simp: Itoa_def)
qed

section \<open>Values\<close>

datatype json =
    JNull
  | JBool bool
  | JNumber string
  | JString string
  | JArray "json list"
  | JObject "(string \<times> json) list"

definition json_quote :: "string \<Rightarrow> string" where
  "json_quote s = CHR 0x22 # appendString s @ [CHR 0x22]"

fun json_text :: "json \<Rightarrow> string" and json_elems :: "json list \<Rightarrow> string"
  and json_members :: "(string \<times> json) list \<Rightarrow> string" where
  "json_text JNull = ''null''"
| "json_text (JBool b) = (if b then ''true'' else ''false'')"
| "json_text (JNumber s) = s"
| "json_text (JString s) = json_quote s"
| "json_text (JArray vs) = ''['' @ json_elems vs @ '']''"
| "json_text (JObject ms) = ''{'' @ json_members ms @ ''}''"
| "json_elems [] = []"
| "json_elems (v # vs) = json_text v @ (if vs = [] then [] else '','' @ json_elems vs)"
| "json_members [] = []"
| "json_members ((k, v) # ms) =
     json_quote k @ '':'' @ json_text v @ (if ms = [] then [] else '','' @ json_members ms)"

text \<open>What can be written without loss: strings in UTF-8, numbers of the grammar.\<close>

fun json_ok :: "json \<Rightarrow> bool" where
  "json_ok (JNumber s) = json_number s"
| "json_ok (JString s) = utf8 s"
| "json_ok (JArray vs) = (\<forall>v \<in> set vs. json_ok v)"
| "json_ok (JObject ms) = (\<forall>m \<in> set ms. utf8 (fst m) \<and> json_ok (snd m))"
| "json_ok _ = True"

section \<open>Reading\<close>

text \<open>
  A reader of RFC 8259 texts.  Its fuel bounds the calls that nest, of which every one has read a
  character before; one more than the length of the text is enough.
\<close>

definition json_space :: "char \<Rightarrow> bool" where
  "json_space c \<longleftrightarrow> c \<in> {CHR '' '', CHR 0x09, CHR 0x0A, CHR 0x0D}"

abbreviation skip :: "string \<Rightarrow> string" where "skip \<equiv> dropWhile json_space"

definition expect :: "char \<Rightarrow> string \<Rightarrow> string option" where
  "expect c s = (case skip s of [] \<Rightarrow> None | d # r \<Rightarrow> if d = c then Some r else None)"

definition json_word :: "string \<Rightarrow> json \<Rightarrow> string \<Rightarrow> (json \<times> string) option" where
  "json_word w v s = (if take (length w) s = w then Some (v, drop (length w) s) else None)"

fun read_value :: "nat \<Rightarrow> string \<Rightarrow> (json \<times> string) option"
  and read_elems :: "nat \<Rightarrow> string \<Rightarrow> (json list \<times> string) option"
  and read_members :: "nat \<Rightarrow> string \<Rightarrow> ((string \<times> json) list \<times> string) option" where
  "read_value 0 _ = None"
| "read_value (Suc n) s = (case skip s of
       [] \<Rightarrow> None
     | c # r \<Rightarrow>
       if c = CHR 0x22 then map_option (\<lambda>(t, r). (JString t, r)) (read_string r)
       else if c = CHR ''['' then
         (case expect (CHR '']'') r of Some r' \<Rightarrow> Some (JArray [], r')
          | None \<Rightarrow> map_option (\<lambda>(vs, r). (JArray vs, r)) (read_elems n r))
       else if c = CHR ''{'' then
         (case expect (CHR ''}'') r of Some r' \<Rightarrow> Some (JObject [], r')
          | None \<Rightarrow> map_option (\<lambda>(ms, r). (JObject ms, r)) (read_members n r))
       else if c = CHR ''n'' then json_word ''null'' JNull (c # r)
       else if c = CHR ''t'' then json_word ''true'' (JBool True) (c # r)
       else if c = CHR ''f'' then json_word ''false'' (JBool False) (c # r)
       else (let t = takeWhile number_char (c # r) in
         if json_number t then Some (JNumber t, dropWhile number_char (c # r)) else None))"
| "read_elems 0 _ = None"
| "read_elems (Suc n) s = (case read_value n s of None \<Rightarrow> None
     | Some (v, r) \<Rightarrow> (case expect (CHR '']'') r of Some r' \<Rightarrow> Some ([v], r')
         | None \<Rightarrow> (case expect (CHR '','') r of None \<Rightarrow> None
             | Some r' \<Rightarrow> map_option (\<lambda>(vs, r). (v # vs, r)) (read_elems n r'))))"
| "read_members 0 _ = None"
| "read_members (Suc n) s = (case Option.bind (expect (CHR 0x22) s) read_string of None \<Rightarrow> None
     | Some (k, r) \<Rightarrow> (case Option.bind (expect (CHR '':'') r) (read_value n) of None \<Rightarrow> None
         | Some (v, r) \<Rightarrow> (case expect (CHR ''}'') r of Some r' \<Rightarrow> Some ([(k, v)], r')
             | None \<Rightarrow> (case expect (CHR '','') r of None \<Rightarrow> None
                 | Some r' \<Rightarrow> map_option (\<lambda>(ms, r). ((k, v) # ms, r)) (read_members n r')))))"

definition json_parse :: "string \<Rightarrow> json option" where
  "json_parse s = (case read_value (Suc (length s)) s of None \<Rightarrow> None
     | Some (v, r) \<Rightarrow> if skip r = [] then Some v else None)"

text \<open>A text ends where a value can end.\<close>

definition ends :: "string \<Rightarrow> bool" where
  "ends r \<longleftrightarrow> r = [] \<or> hd r \<in> {CHR '','', CHR '']'', CHR ''}''}"

lemma expect_Cons: "\<not> json_space d \<Longrightarrow> expect c (d # r) = (if d = c then Some r else None)"
  by (simp add: expect_def)

lemma not_space [simp]: "\<not> json_space (CHR '','')" "\<not> json_space (CHR '']'')" "\<not> json_space (CHR ''}'')" "\<not> json_space (CHR '':'')"
    "\<not> json_space (CHR 0x22)" "\<not> json_space (CHR ''['')" "\<not> json_space (CHR ''{'')"
  by (simp_all add: json_space_def)

lemma read_number:
  assumes "json_number s" "ends r"
  shows "read_value (Suc n) (s @ r) = Some (JNumber s, r)"
proof -
  note c = json_number_chars[OF assms(1)]
  have r: "r = [] \<or> \<not> number_char (hd r)" using assms(2) by (auto simp: ends_def number_char_def isDigit_def)
  have t: "takeWhile number_char (s @ r) = s" "dropWhile number_char (s @ r) = r"
    using c(1) r by (cases r; auto simp: list_all_iff takeWhile_append2 dropWhile_append2)+
  obtain d s' where s: "s = d # s'" using c(2) by (cases s) auto
  have "isDigit d \<or> d = CHR ''-''" using c(3) s by simp
  then have "d \<notin> {CHR 0x22, CHR ''['', CHR ''{'', CHR ''n'', CHR ''t'', CHR ''f''}" "\<not> json_space d"
    by (auto simp: isDigit_def json_space_def)
  then show ?thesis using t assms(1) by (simp add: s)
qed

text \<open>The first character of a text does not close an array.\<close>

lemma text_first:
  assumes "json_ok v"
  shows "\<exists>c s. json_text v = c # s \<and> \<not> json_space c \<and> c \<noteq> CHR '']''"
proof (cases v)
  case (JNumber s)
  then have "json_number s" using assms by simp
  from json_number_chars[OF this] show ?thesis
    by (cases s) (auto simp: JNumber isDigit_def json_space_def)
qed (auto simp: json_quote_def json_space_def)

lemma read_quote: "utf8 k \<Longrightarrow> Option.bind (expect (CHR 0x22) (json_quote k @ r)) read_string = Some (k, r)"
  by (simp add: json_quote_def expect_Cons read_appendString)

lemma read_text:
  "json_ok v \<Longrightarrow> ends r \<Longrightarrow> length (json_text v) < n \<Longrightarrow> read_value n (json_text v @ r) = Some (v, r)"
  "\<forall>v \<in> set vs. json_ok v \<Longrightarrow> vs \<noteq> [] \<Longrightarrow> length (json_elems vs) + 1 < n \<Longrightarrow>
     read_elems n (json_elems vs @ CHR '']'' # r) = Some (vs, r)"
  "\<forall>m \<in> set ms. utf8 (fst m) \<and> json_ok (snd m) \<Longrightarrow> ms \<noteq> [] \<Longrightarrow> length (json_members ms) + 1 < n \<Longrightarrow>
     read_members n (json_members ms @ CHR ''}'' # r) = Some (ms, r)"
proof (induction v and vs and ms arbitrary: n r and n r and n r rule: json_text_json_elems_json_members.induct)
  case (1 n r)
  then show ?case by (cases n) (simp_all add: json_space_def json_word_def)
next
  case (2 b n r)
  then show ?case by (cases n; cases b) (simp_all add: json_space_def json_word_def)
next
  case (3 s)
  then show ?case using read_number by (cases n) (simp_all del: read_value.simps)
next
  case (4 s)
  then show ?case by (cases n) (simp_all add: json_quote_def read_appendString)
next
  case (5 vs)
  then obtain m where n: "n = Suc m" by (cases n) auto
  show ?case
  proof (cases vs)
    case Nil
    then show ?thesis by (simp add: n json_space_def expect_Cons)
  next
    case (Cons v ws)
    then have "json_ok v" using 5 by simp
    then have "expect (CHR '']'') (json_elems vs @ CHR '']'' # r) = None"
      using text_first[of v] by (auto simp: Cons expect_Cons)
    moreover have "read_elems m (json_elems vs @ CHR '']'' # r) = Some (vs, r)" using 5 n Cons by auto
    ultimately show ?thesis by (simp add: n)
  qed
next
  case (6 ms)
  then obtain m where n: "n = Suc m" by (cases n) auto
  show ?case
  proof (cases ms)
    case Nil
    then show ?thesis by (simp add: n json_space_def expect_Cons)
  next
    case (Cons a ws)
    then have "expect (CHR ''}'') (json_members ms @ CHR ''}'' # r) = None"
      by (cases a) (simp add: Cons json_quote_def expect_Cons)
    moreover have "read_members m (json_members ms @ CHR ''}'' # r) = Some (ms, r)" using 6 n Cons by auto
    ultimately show ?thesis by (simp add: n)
  qed
next
  case (8 v vs)
  then obtain m where n: "n = Suc m" by (cases n) auto
  let ?r = "(if vs = [] then [] else '','' @ json_elems vs) @ CHR '']'' # r"
  have "read_value m (json_text v @ ?r) = Some (v, ?r)" using 8 n by (auto simp: ends_def)
  moreover have "vs \<noteq> [] \<Longrightarrow> read_elems m (json_elems vs @ CHR '']'' # r) = Some (vs, r)" using 8 n by auto
  ultimately show ?case by (cases "vs = []") (simp_all add: n expect_Cons)
next
  case (10 k v ms)
  then obtain m where n: "n = Suc m" by (cases n) auto
  let ?r = "(if ms = [] then [] else '','' @ json_members ms) @ CHR ''}'' # r"
  have k: "Option.bind (expect (CHR 0x22) (json_quote k @ s)) read_string = Some (k, s)" for s
    using read_quote 10 by simp
  have "read_value m (json_text v @ ?r) = Some (v, ?r)" using 10 n by (auto simp: ends_def)
  moreover have "ms \<noteq> [] \<Longrightarrow> read_members m (json_members ms @ CHR ''}'' # r) = Some (ms, r)" using 10 n by auto
  ultimately show ?case using k by (cases "ms = []") (simp_all add: n expect_Cons)
qed simp_all

theorem json_parse_text: "json_ok v \<Longrightarrow> json_parse (json_text v) = Some v"
  using read_text(1)[of v "[]" "Suc (length (json_text v))"] by (simp add: json_parse_def ends_def)

end
