(* ===== verification/Float_Text.thy ===== *)
theory Float_Text
  imports Info_Laws Json
begin

text \<open>
  How \<^verbatim>\<open>strconv\<close> writes a \<^verbatim>\<open>float64\<close>, and that the numbers of a colour's description, which
  \<^verbatim>\<open>roundTo\<close> and \<^verbatim>\<open>contrastOf\<close> cut to a fixed number of decimals, are written with no more of them.
\<close>

text \<open>
  \<^verbatim>\<open>strconv.AppendFloat(x, 'f', -1, 64)\<close>, which \<^verbatim>\<open>encoding/json\<close> uses from \<^verbatim>\<open>1e-6\<close> to \<^verbatim>\<open>1e21\<close>: the
  least number of decimals from which the float can be read again.
\<close>

definition reads_back :: "fenv \<Rightarrow> real \<Rightarrow> nat \<Rightarrow> bool" where
  "reads_back m x d \<longleftrightarrow> f_rnd m (of_int (go_round (x * 10 ^ d)) / 10 ^ d) = x"

definition float_decimals :: "fenv \<Rightarrow> real \<Rightarrow> nat" where
  "float_decimals m x = (case List.find (reads_back m x) [0..<18] of Some d \<Rightarrow> d | None \<Rightarrow> 17)"

definition decimal_point :: "int \<Rightarrow> nat \<Rightarrow> string" where
  "decimal_point k d =
     (if k < 0 then ''-'' else []) @ decimal (nat \<bar>k\<bar> div 10 ^ d)
       @ (if d = 0 then [] else CHR ''.'' # fixed d (nat \<bar>k\<bar>))"

definition FormatFloat :: "fenv \<Rightarrow> real \<Rightarrow> string" where
  "FormatFloat m x = (let d = float_decimals m x in decimal_point (go_round (x * 10 ^ d)) d)"

text \<open>Reading a decimal: the number without its point, and the number of decimals.\<close>

definition read_decimal :: "string \<Rightarrow> int \<times> nat" where
  "read_decimal s =
     (case cutSign s of (neg, a) \<Rightarrow>
        let f = drop 1 (dropWhile isDigit a);
            n = int (atoi (takeWhile isDigit a) * 10 ^ length f + atoi f)
        in (if neg then - n else n, length f))"

definition ParseFloat :: "fenv \<Rightarrow> string \<Rightarrow> real" where
  "ParseFloat m s = (case read_decimal s of (k, d) \<Rightarrow> f_rnd m (of_int k / 10 ^ d))"

text \<open>The floats of which the decimals that are printed say all.\<close>

definition shown :: "fenv \<Rightarrow> real \<Rightarrow> bool" where
  "shown m x \<longleftrightarrow> (\<exists>d < 18. reads_back m x d)"

lemma float_decimals_least:
  assumes "reads_back m x d" "d < 18"
  shows "reads_back m x (float_decimals m x)" "float_decimals m x \<le> d"
proof -
  obtain j where j: "List.find (reads_back m x) [0..<18] = Some j"
    using assms by (cases "List.find (reads_back m x) [0..<18]") (auto simp: find_None_iff)
  then obtain i where i: "i < 18" "reads_back m x ([0..<18] ! i)" "j = [0..<18] ! i"
    "\<And>k. k < i \<Longrightarrow> \<not> reads_back m x ([0..<18] ! k)"
    by (auto simp: find_Some_iff)
  then have "reads_back m x j" "j = i" by auto
  moreover have "i \<le> d" using i(4)[of d] assms by (cases "d < i") auto
  ultimately show "reads_back m x (float_decimals m x)" "float_decimals m x \<le> d"
    using j by (simp_all add: float_decimals_def)
qed

lemma read_decimal_point: "read_decimal (decimal_point k d) = (k, d)"
proof -
  let ?n = "nat \<bar>k\<bar>" and ?f = "if d = 0 then [] else CHR ''.'' # fixed d (nat \<bar>k\<bar>)"
  let ?a = "decimal (?n div 10 ^ d) @ ?f"
  have c: "cutSign (decimal_point k d) = (k < 0, ?a)"
  proof (cases "k < 0")
    case True
    then show ?thesis by (simp add: decimal_point_def cutSign_def)
  next
    case False
    have "cutSign ?a = (False, ?a)" using cutSign_digits[of ?a] decimal_hd_digit by simp
    then show ?thesis using False by (simp add: decimal_point_def del: append_assoc)
  qed
  have t: "takeWhile isDigit ?a = decimal (?n div 10 ^ d)" "dropWhile isDigit ?a = ?f"
    using decimal_digits[of "?n div 10 ^ d"] by (auto simp: list_all_iff isDigit_def)
  have l: "length (drop 1 ?f) = d" by simp
  have "atoi (drop 1 ?f) = ?n mod 10 ^ d"
    by (cases "d = 0") (simp add: atoi_def, simp only: if_False drop_Suc_Cons drop_0 atoi_fixed One_nat_def)
  then have v: "atoi (decimal (?n div 10 ^ d)) * 10 ^ d + atoi (drop 1 ?f) = ?n"
    by (simp only: atoi_decimal div_mult_mod_eq)
  show ?thesis
    unfolding read_decimal_def c prod.case Let_def t l v by auto
qed

lemma ParseFloat_FormatFloat: "shown m x \<Longrightarrow> ParseFloat m (FormatFloat m x) = x"
  using float_decimals_least(1)
  by (auto simp: shown_def ParseFloat_def FormatFloat_def Let_def read_decimal_point reads_back_def)

lemma FormatFloat_number: "json_number (FormatFloat m x)"
proof -
  have f: "json_fraction (CHR ''.'' # fixed (Suc d) n)" for d n
  proof -
    have "takeWhile isDigit (fixed (Suc d) n) = fixed (Suc d) n" "dropWhile isDigit (fixed (Suc d) n) = []"
      using fixed_digits[of "Suc d" n] unfolding list_all_iff takeWhile_eq_all_conv dropWhile_eq_Nil_conv by blast+
    then show ?thesis by (simp add: json_fraction_def json_exponent_def)
  qed
  have "json_number (decimal_point k d)" for k d
  proof -
    let ?f = "if d = 0 then [] else CHR ''.'' # fixed d (nat \<bar>k\<bar>)"
    have "json_fraction ?f" using f by (cases d) (simp_all add: json_fraction_def del: fixed.simps)
    moreover have "?f \<noteq> [] \<Longrightarrow> \<not> isDigit (hd ?f)" by (simp add: isDigit_def split: if_splits)
    ultimately have "json_number (decimal n @ ?f)" "json_number (CHR ''-'' # decimal n @ ?f)" for n
      using decimal_number[of ?f] by blast+
    then show ?thesis
      by (cases "k < 0") (simp_all only: decimal_point_def if_True if_False append_Cons append_Nil simp_thms)
  qed
  then show ?thesis by (simp add: FormatFloat_def Let_def)
qed

section \<open>The description of a colour\<close>

context ieee
begin

lemma quotient_reads_back:
  assumes "\<bar>fdiv m (of_int k) (10 ^ d)\<bar> \<le> 4096" "d \<le> 3"
  shows "reads_back m (fdiv m (of_int k) (10 ^ d)) d"
proof -
  define q where "q = (of_int k :: real) / 10 ^ d"
  have e: "\<bar>f_rnd m q - q\<bar> \<le> \<bar>q\<bar> / 2 ^ 53 + min_normal" by (rule rnd_err)
  have mn: "min_normal \<le> 1 / 2 ^ 53" by (rule min_normal_le) simp
  have "\<bar>f_rnd m q\<bar> \<le> 4096" using assms(1) by (simp add: fdiv_def q_def)
  moreover have "\<bar>q\<bar> / 2 ^ 53 \<le> \<bar>q\<bar> / 2" by (intro divide_left_mono) auto
  ultimately have q: "\<bar>q\<bar> \<le> 9000" using e mn by simp
  then have "\<bar>q\<bar> / 2 ^ 53 \<le> 9000 / 2 ^ 53" by (intro divide_right_mono) auto
  then have small: "\<bar>f_rnd m q - q\<bar> \<le> 1 / 10000" using e mn by simp
  have "(10 :: real) ^ d \<le> 10 ^ 3" using assms(2) by (intro power_increasing) auto
  then have "\<bar>f_rnd m q - q\<bar> * 10 ^ d \<le> 1 / 10000 * 10 ^ 3" using small by (intro mult_mono) auto
  moreover have "f_rnd m q * 10 ^ d - of_int k = (f_rnd m q - q) * 10 ^ d" by (simp add: q_def field_simps)
  ultimately have "\<bar>f_rnd m q * 10 ^ d - of_int k\<bar> < 1 / 2" by (simp add: abs_mult)
  then have "go_round (f_rnd m q * 10 ^ d) = k" by (rule go_round_unique)
  then show ?thesis unfolding reads_back_def fdiv_def q_def[symmetric] by (simp add: q_def)
qed

end

context go_math
begin

lemma cbrt_wsum_small:
  assumes "0 \<le> c1" "0 \<le> c2" "0 \<le> c3" "c1 + c2 + c3 \<le> 3 / 2"
    and "0 \<le> x" "x \<le> 1 + 20 * ulp" "0 \<le> y" "y \<le> 1 + 20 * ulp" "0 \<le> z" "z \<le> 1 + 20 * ulp"
  shows "\<bar>f_cbrt m (wsum m c1 x c2 y c3 z)\<bar> \<le> 3"
proof -
  let ?s = "wsum m c1 x c2 y c3 z"
  have one: "x \<le> 6 / 5" "y \<le> 6 / 5" "z \<le> 6 / 5" using assms ulp_small by linarith+
  have "c1 * x \<le> c1 * (6 / 5)" "c2 * y \<le> c2 * (6 / 5)" "c3 * z \<le> c3 * (6 / 5)"
    using assms one by (intro mult_left_mono; simp)+
  then have "c1 * x + c2 * y + c3 * z \<le> 9 / 5" using assms(4) by linarith
  moreover have "\<bar>?s - (c1 * x + c2 * y + c3 * z)\<bar> \<le> 29 * ulp" using assms one by (intro wsum_err) linarith+
  ultimately have two: "?s \<le> 2" using ulp_small by linarith
  have "0 \<le> ?s" using assms by (intro wsum_nonneg)
  then obtain r where r: "0 \<le> r" "r ^ 3 = ?s" "\<bar>f_cbrt m ?s - r\<bar> \<le> ulp" using cbrt_cases two by blast
  have "r ^ 3 \<le> 2 ^ 3" using r(2) two by simp
  then have "r \<le> 2" by (rule cube_le[rotated]) simp
  then show ?thesis using r ulp_small by linarith
qed

lemma oklch_chroma_le:
  assumes "hexToOklab m h = (lightness, a, b)"
  shows "roundTo m (f_hypot m a b) okChromaDecimals \<le> 300"
proof -
  note ch = linear_ranges[of h]
  have w: "\<bar>wsum m c1 x c2 y c3 z\<bar> \<le> 100"
    if "\<bar>c1\<bar> \<le> 8" "\<bar>x\<bar> \<le> 3" "\<bar>c2\<bar> \<le> 8" "\<bar>y\<bar> \<le> 3" "\<bar>c3\<bar> \<le> 8" "\<bar>z\<bar> \<le> 3" for c1 x c2 y c3 z
  proof -
    have "\<bar>c * t\<bar> \<le> 8 * 3" if "\<bar>c\<bar> \<le> 8" "\<bar>t\<bar> \<le> 3" for c t :: real
      unfolding abs_mult using that by (intro mult_mono) auto
    from this[OF that(1,2)] this[OF that(3,4)] this[OF that(5,6)]
    have "\<bar>c1 * x + c2 * y + c3 * z\<bar> \<le> 72" by linarith
    moreover have "\<bar>wsum m c1 x c2 y c3 z - (c1 * x + c2 * y + c3 * z)\<bar> \<le> 29 * ulp"
      using that by (intro wsum_err) linarith+
    ultimately show ?thesis using ulp_small by linarith
  qed
  have ab: "\<bar>a\<bar> \<le> 100" "\<bar>b\<bar> \<le> 100"
    using assms ch by (auto simp: hexToOklab_def Let_def intro!: w cbrt_wsum_small)
  have "sqrt (a\<^sup>2 + b\<^sup>2) \<le> \<bar>a\<bar> + \<bar>b\<bar>" by (rule sqrt_sum_squares_le_sum_abs)
  then have q: "sqrt (a\<^sup>2 + b\<^sup>2) \<le> 200" using ab by linarith
  moreover have "0 \<le> sqrt (a\<^sup>2 + b\<^sup>2)" by simp
  ultimately have "\<bar>f_hypot m a b - sqrt (a\<^sup>2 + b\<^sup>2)\<bar> \<le> 1 / 2 ^ 40" by (intro near_le hypot_near) simp
  then have "f_hypot m a b \<le> sqrt (a\<^sup>2 + b\<^sup>2) + 1 / 2 ^ 40" by linarith
  also have "\<dots> \<le> 200 + 100" using q by (intro add_mono) simp_all
  finally have h: "f_hypot m a b \<le> 300" by simp
  have p: "f_pow m 10 (of_nat 3) = 10 ^ 3" by (rule pow_ten) simp
  have "fmul m (f_hypot m a b) (10 ^ 3) \<le> of_int 300000"
    unfolding fmul_def using h by (intro rnd_le_of_int) simp_all
  then have "go_round (fmul m (f_hypot m a b) (10 ^ 3)) \<le> 300000" using go_round_mono go_round_of_int by metis
  then have "of_int (go_round (fmul m (f_hypot m a b) (10 ^ 3))) / 10 ^ 3 \<le> (of_int 300 :: real)" by simp
  then have "f_rnd m (of_int (go_round (fmul m (f_hypot m a b) (10 ^ 3))) / 10 ^ 3) \<le> of_int 300"
    by (intro rnd_le_of_int) simp_all
  then show ?thesis unfolding roundTo_def okChromaDecimals_def Let_def p fdiv_def by simp
qed

lemma roundTo_reads_back:
  "\<bar>roundTo m v d\<bar> \<le> 4096 \<Longrightarrow> d \<le> 3 \<Longrightarrow> reads_back m (roundTo m v d) d"
  using quotient_reads_back by (simp add: roundTo_def Let_def pow_ten)

lemma contrastOf_reads_back:
  "\<bar>Ratio (contrastOf m r)\<bar> \<le> 4096 \<Longrightarrow> reads_back m (Ratio (contrastOf m r)) contrastRatioDecimals"
  using quotient_reads_back[of _ 2] pow_ten[of 2] by (simp add: contrastOf_def Let_def contrastRatioDecimals_def)

lemma info_decimals:
  assumes "length h = HexLen" "Describe m h = i"
  shows "reads_back m (ok_Lightness (info_OkLCh i)) okLightnessDecimals"
    "reads_back m (ok_Chroma (info_OkLCh i)) okChromaDecimals"
    "reads_back m (Ratio (AgainstWhite i)) contrastRatioDecimals"
    "reads_back m (Ratio (AgainstBlack i)) contrastRatioDecimals"
proof -
  obtain lightness a b where lab: "hexToOklab m h = (lightness, a, b)" using prod_cases3 by blast
  obtain white black where bw: "contrastsOfBW m h = (white, black)" by fastforce
  have i: "ok_Lightness (info_OkLCh i) = roundTo m (fmul m lightness 100) okLightnessDecimals"
    "ok_Chroma (info_OkLCh i) = roundTo m (f_hypot m a b) okChromaDecimals"
    "AgainstWhite i = white" "AgainstBlack i = black"
    using assms by (auto simp: Describe_def lab bw Let_def split: prod.splits)
  have d: "okLightnessDecimals \<le> 3" "okChromaDecimals \<le> 3" by (simp_all add: okLightnessDecimals_def okChromaDecimals_def)
  show "reads_back m (ok_Lightness (info_OkLCh i)) okLightnessDecimals"
    unfolding i using oklch_lightness_range[OF lab] by (intro roundTo_reads_back d) simp
  show "reads_back m (ok_Chroma (info_OkLCh i)) okChromaDecimals"
    unfolding i using oklch_chroma_le[OF lab] oklch_chroma_nonneg[of a b] by (intro roundTo_reads_back d) simp
  have "\<bar>Ratio white\<bar> \<le> 4096" "\<bar>Ratio black\<bar> \<le> 4096" using contrasts_readable(1)[OF bw] by auto
  then show "reads_back m (Ratio (AgainstWhite i)) contrastRatioDecimals"
    "reads_back m (Ratio (AgainstBlack i)) contrastRatioDecimals"
    unfolding i using bw contrastOf_reads_back by (auto simp: contrastsOfBW_def Let_def)
qed

end

end
