(* ===== verification/Wire.thy ===== *)
theory Wire
  imports Public_Handlers Float_Text
begin

text \<open>
  The JSON documents of the replies: what \<^verbatim>\<open>encoding/json\<close> writes for each response struct of
  \<^verbatim>\<open>internal/handlers\<close>, by its field tags, with times as \<^verbatim>\<open>time.Time\<close> marshals itself and numbers as
  \<^verbatim>\<open>strconv\<close> formats them.  An error document is written by \<^verbatim>\<open>httputils\<close> and has none.
\<close>

section \<open>Numbers and times\<close>

text \<open>\<^verbatim>\<open>time.Time.MarshalJSON\<close> refuses what RFC 3339 cannot write.\<close>

definition MarshalsTime :: "gotime \<Rightarrow> bool" where
  "MarshalsTime t \<longleftrightarrow> \<bar>zone_min t\<bar> < 24 * 60 \<and>
     (let y = yearOf ((unix_nano t div 1000000000 + zone_min t * 60) div 86400 + epochDays) in 0 \<le> y \<and> y \<le> 9999)"

lemma ascii_utf8: "list_all (\<lambda>c. ord c < 128) s \<Longrightarrow> utf8 s"
  by (induction s) simp_all

lemma Format_utf8: "utf8 (Format t)"
proof -
  have d: "list_all isDigit s \<Longrightarrow> list_all (\<lambda>c. ord c < 128) s" for s by (auto simp: list_all_iff isDigit_def)
  have f: "list_all (\<lambda>c. ord c < 128) (fixed w n)" "list_all (\<lambda>c. ord c < 128) (decimal n)" for w n
    using fixed_digits decimal_digits d by blast+
  have "list_all (\<lambda>c. ord c < 128) (rev (dropWhile p (rev (fixed w n))))" for p w n
    using f(1)[of w n] by (auto simp: list_all_iff dest: set_dropWhileD)
  then show ?thesis
    by (intro ascii_utf8) (auto simp: Format_def appendInt_def fraction_def zoneText_def Let_def f split: prod.splits)
qed

lemma MarshalsTime_inject: "MarshalsTime t \<Longrightarrow> MarshalsTime u \<Longrightarrow> Format t = Format u \<longleftrightarrow> t = u"
proof -
  have "MarshalsTime t \<Longrightarrow> printable t" for t by (simp add: MarshalsTime_def printable_def Let_def)
  then show "MarshalsTime t \<Longrightarrow> MarshalsTime u \<Longrightarrow> Format t = Format u \<longleftrightarrow> t = u"
    using ParseTime_Format by (metis option.inject)
qed

definition time_json :: "gotime \<Rightarrow> json" where "time_json t = JString (Format t)"
definition int_json :: "int \<Rightarrow> json" where "int_json n = JNumber (Itoa n)"
definition float_json :: "fenv \<Rightarrow> real \<Rightarrow> json" where "float_json m x = JNumber (FormatFloat m x)"

text \<open>A string field with \<^verbatim>\<open>omitempty\<close>.\<close>

definition omitempty :: "string \<Rightarrow> string \<Rightarrow> (string \<times> json) list" where
  "omitempty name s = (if s = [] then [] else [(name, JString s)])"

section \<open>The response structs\<close>

definition VersionResp_json :: "string \<Rightarrow> json" where
  "VersionResp_json v = JObject [(''version'', JString v)]"

definition HealthResp_json :: "health_resp \<Rightarrow> json" where
  "HealthResp_json r = JObject ((''status'', JString (hr_Status r)) # omitempty ''dependency'' (hr_Dependency r))"

definition UserResp_json :: "user_resp \<Rightarrow> json" where
  "UserResp_json u = JObject [(''nickname'', JString (ur_Nickname u)), (''created_at'', time_json (ur_CreatedAt u))]"

text \<open>Signing up and \<^verbatim>\<open>/me\<close> answer with two structs of one shape.\<close>

definition CreateUserResp_json :: "user_resp \<Rightarrow> json" where
  "CreateUserResp_json u = JObject [(''user'', UserResp_json u)]"

definition CreateTokenResp_json :: "create_token_resp \<Rightarrow> json" where
  "CreateTokenResp_json t = JObject [(''token'', JString (ctr_Token t)), (''expiry'', time_json (ctr_Expiry t))]"

definition CollectionResp_fields :: "collection_resp \<Rightarrow> (string \<times> json) list" where
  "CollectionResp_fields c =
     [(''id'', JString (cr_ID c)), (''name'', JString (cr_Name c)), (''icon'', JString (cr_Icon c)),
      (''accent'', JString (cr_Accent c)), (''is_default'', JBool (cr_IsDefault c)),
      (''created_at'', time_json (cr_CreatedAt c))]"

definition OneCollectionResp_json :: "collection_resp \<Rightarrow> json" where
  "OneCollectionResp_json c = JObject [(''collection'', JObject (CollectionResp_fields c))]"

definition ListCollectionsResp_json :: "collection_resp list \<Rightarrow> json" where
  "ListCollectionsResp_json cs =
     JObject [(''collections'', JArray (map (\<lambda>c. JObject (CollectionResp_fields c)) cs))]"

definition AddColorResp_json :: "string \<Rightarrow> json" where
  "AddColorResp_json h = JObject [(''hex'', JString h)]"

definition SavedColorResp_json :: "saved_color_resp \<Rightarrow> json" where
  "SavedColorResp_json r = JObject [(''hex'', JString (scr_Hex r)), (''created_at'', time_json (scr_CreatedAt r))]"

definition cursorMeta_json :: "cursor_meta \<Rightarrow> json" where
  "cursorMeta_json c = JObject ((''limit'', int_json (cm_Limit c)) # omitempty ''next_cursor'' (cm_NextCursor c))"

definition ListColorsResp_json :: "list_colors_resp \<Rightarrow> json" where
  "ListColorsResp_json r = JObject [(''colors'', JArray (map SavedColorResp_json (lcr_Colors r))),
     (''metadata'', cursorMeta_json (lcr_Metadata r))]"

text \<open>The fields of the embedded struct come first.\<close>

definition ExportCollectionResp_json :: "export_collection_resp \<Rightarrow> json" where
  "ExportCollectionResp_json r = JObject (CollectionResp_fields (ecr_Collection r)
     @ [(''colors'', JArray (map SavedColorResp_json (ecr_Colors r)))])"

definition ExportResp_json :: "export_resp \<Rightarrow> json" where
  "ExportResp_json r = JObject [(''format'', int_json (er_Format r)), (''exported_at'', time_json (er_ExportedAt r)),
     (''user'', UserResp_json (er_User r)),
     (''collections'', JArray (map ExportCollectionResp_json (er_Collections r)))]"

definition CommonColorResp_json :: "common_color_resp \<Rightarrow> json" where
  "CommonColorResp_json c = JObject [(''hex'', JString (ccr_HexCode c)), (''name'', JString (ccr_CommonName c))]"

definition ListCommonColorsResp_json :: "common_color_resp list \<Rightarrow> json" where
  "ListCommonColorsResp_json cs = JObject [(''colors'', JArray (map CommonColorResp_json cs))]"

definition ShadeFamilyResp_json :: "shade_family_resp \<Rightarrow> json" where
  "ShadeFamilyResp_json f = JObject [(''name'', JString (sfr_Name f)),
     (''colors'', JArray (map CommonColorResp_json (sfr_Colors f)))]"

definition ListShadesResp_json :: "shade_family_resp list \<Rightarrow> json" where
  "ListShadesResp_json fs = JObject [(''families'', JArray (map ShadeFamilyResp_json fs))]"

definition HarmonyResp_json :: "harmony_resp \<Rightarrow> json" where
  "HarmonyResp_json r = JObject [(''hex'', JString (hr_Hex r)), (''harmony'', JString (hr_Harmony r)),
     (''space'', JString (hr_Space r)), (''colors'', JArray (map JString (hr_Colors r)))]"

definition RGBResp_json :: "int \<times> int \<times> int \<Rightarrow> json" where
  "RGBResp_json = (\<lambda>(r, g, b). JObject [(''r'', int_json r), (''g'', int_json g), (''b'', int_json b)])"

definition HSLResp_json :: "int \<times> int \<times> int \<Rightarrow> json" where
  "HSLResp_json = (\<lambda>(h, s, l). JObject [(''h'', int_json h), (''s'', int_json s), (''l'', int_json l)])"

definition HSVResp_json :: "int \<times> int \<times> int \<Rightarrow> json" where
  "HSVResp_json = (\<lambda>(h, s, v). JObject [(''h'', int_json h), (''s'', int_json s), (''v'', int_json v)])"

definition OkLChResp_json :: "fenv \<Rightarrow> real \<times> real \<times> int \<Rightarrow> json" where
  "OkLChResp_json m = (\<lambda>(l, c, h). JObject [(''l'', float_json m l), (''c'', float_json m c), (''h'', int_json h)])"

definition ContrastResp_json :: "fenv \<Rightarrow> contrast_resp \<Rightarrow> json" where
  "ContrastResp_json m c = JObject [(''ratio'', float_json m (cr_Ratio c)), (''level'', JString (cr_Level c))]"

definition ColorInfoResp_json :: "fenv \<Rightarrow> color_info_resp \<Rightarrow> json" where
  "ColorInfoResp_json m i = JObject [(''hex'', JString (cir_Hex i)), (''rgb'', RGBResp_json (cir_RGB i)),
     (''hsl'', HSLResp_json (cir_HSL i)), (''hsv'', HSVResp_json (cir_HSV i)),
     (''oklch'', OkLChResp_json m (cir_OkLCh i)),
     (''contrast'', JObject [(''white'', ContrastResp_json m (cir_White i)),
        (''black'', ContrastResp_json m (cir_Black i))])]"

section \<open>The document of a reply\<close>

fun json_of :: "fenv \<Rightarrow> body \<Rightarrow> json option" where
  "json_of m (VersionBody v) = Some (VersionResp_json v)"
| "json_of m (HealthBody r) = Some (HealthResp_json r)"
| "json_of m (UserBody u) = Some (CreateUserResp_json u)"
| "json_of m (TokenBody t) = Some (CreateTokenResp_json t)"
| "json_of m (CollectionBody c) = Some (OneCollectionResp_json c)"
| "json_of m (CollectionsBody cs) = Some (ListCollectionsResp_json cs)"
| "json_of m (AddColorBody h) = Some (AddColorResp_json h)"
| "json_of m (ColorsBody r) = Some (ListColorsResp_json r)"
| "json_of m (ExportBody r) = Some (ExportResp_json r)"
| "json_of m (CommonColorsBody cs) = Some (ListCommonColorsResp_json cs)"
| "json_of m (ShadesBody fs) = Some (ListShadesResp_json fs)"
| "json_of m (HarmonyBody r) = Some (HarmonyResp_json r)"
| "json_of m (InfoBody i) = Some (ColorInfoResp_json m i)"
| "json_of m _ = None"

text \<open>The times and the floats in it.\<close>

fun body_times :: "body \<Rightarrow> gotime list" where
  "body_times (UserBody u) = [ur_CreatedAt u]"
| "body_times (TokenBody t) = [ctr_Expiry t]"
| "body_times (CollectionBody c) = [cr_CreatedAt c]"
| "body_times (CollectionsBody cs) = map cr_CreatedAt cs"
| "body_times (ColorsBody r) = map scr_CreatedAt (lcr_Colors r)"
| "body_times (ExportBody r) = er_ExportedAt r # ur_CreatedAt (er_User r)
     # concat (map (\<lambda>c. cr_CreatedAt (ecr_Collection c) # map scr_CreatedAt (ecr_Colors c)) (er_Collections r))"
| "body_times _ = []"

fun body_floats :: "body \<Rightarrow> real list" where
  "body_floats (InfoBody i) = [fst (cir_OkLCh i), fst (snd (cir_OkLCh i)), cr_Ratio (cir_White i), cr_Ratio (cir_Black i)]"
| "body_floats _ = []"

definition Marshal :: "fenv \<Rightarrow> body \<Rightarrow> string option" where
  "Marshal m b = (case json_of m b of None \<Rightarrow> None
     | Some v \<Rightarrow> if list_all MarshalsTime (body_times b) then Some (json_text v) else None)"


section \<open>What a client reads\<close>

fun json_strings :: "json \<Rightarrow> string list" where
  "json_strings (JString s) = [s]"
| "json_strings (JArray vs) = concat (map json_strings vs)"
| "json_strings (JObject ms) = concat (map (\<lambda>m. fst m # json_strings (snd m)) ms)"
| "json_strings _ = []"

fun json_numbers :: "json \<Rightarrow> string list" where
  "json_numbers (JNumber s) = [s]"
| "json_numbers (JArray vs) = concat (map json_numbers vs)"
| "json_numbers (JObject ms) = concat (map (\<lambda>m. json_numbers (snd m)) ms)"
| "json_numbers _ = []"

lemma json_ok_iff: "json_ok v \<longleftrightarrow> list_all utf8 (json_strings v) \<and> list_all json_number (json_numbers v)"
  by (induction v) (auto simp: list_all_iff)

lemmas json_resp_defs = VersionResp_json_def HealthResp_json_def UserResp_json_def CreateUserResp_json_def
  CreateTokenResp_json_def CollectionResp_fields_def OneCollectionResp_json_def ListCollectionsResp_json_def
  AddColorResp_json_def SavedColorResp_json_def cursorMeta_json_def ListColorsResp_json_def
  ExportCollectionResp_json_def ExportResp_json_def CommonColorResp_json_def ListCommonColorsResp_json_def
  ShadeFamilyResp_json_def ListShadesResp_json_def HarmonyResp_json_def RGBResp_json_def HSLResp_json_def
  HSVResp_json_def OkLChResp_json_def ContrastResp_json_def ColorInfoResp_json_def
  time_json_def int_json_def float_json_def omitempty_def

lemma json_of_numbers: "json_of m b = Some v \<Longrightarrow> list_all json_number (json_numbers v)"
  by (cases b) (auto simp: json_resp_defs list_all_iff Itoa_number FormatFloat_number split: prod.splits if_splits)

text \<open>Each document determines its struct.\<close>

lemma FormatFloat_inject: "shown m x \<Longrightarrow> shown m y \<Longrightarrow> FormatFloat m x = FormatFloat m y \<longleftrightarrow> x = y"
  by (metis ParseFloat_FormatFloat)

lemma map_inject: "map f xs = map f ys \<Longrightarrow> (\<And>x y. x \<in> set xs \<Longrightarrow> y \<in> set ys \<Longrightarrow> f x = f y \<Longrightarrow> x = y) \<Longrightarrow> xs = ys"
  by (induction xs arbitrary: ys) (auto simp: Cons_eq_map_conv)

lemma UserResp_inject:
  "MarshalsTime (ur_CreatedAt u) \<Longrightarrow> MarshalsTime (ur_CreatedAt u') \<Longrightarrow> UserResp_json u = UserResp_json u' \<Longrightarrow> u = u'"
  by (intro user_resp.equality) (auto simp: UserResp_json_def time_json_def MarshalsTime_inject)

lemma CollectionResp_inject:
  "MarshalsTime (cr_CreatedAt c) \<Longrightarrow> MarshalsTime (cr_CreatedAt c') \<Longrightarrow>
   CollectionResp_fields c = CollectionResp_fields c' \<Longrightarrow> c = c'"
  by (intro collection_resp.equality) (auto simp: CollectionResp_fields_def time_json_def MarshalsTime_inject)

lemma SavedColorResp_inject:
  "MarshalsTime (scr_CreatedAt r) \<Longrightarrow> MarshalsTime (scr_CreatedAt r') \<Longrightarrow>
   SavedColorResp_json r = SavedColorResp_json r' \<Longrightarrow> r = r'"
  by (intro saved_color_resp.equality) (auto simp: SavedColorResp_json_def time_json_def MarshalsTime_inject)

lemma SavedColors_inject:
  assumes "list_all (\<lambda>r. MarshalsTime (scr_CreatedAt r)) rs" "list_all (\<lambda>r. MarshalsTime (scr_CreatedAt r)) rs'"
    and "map SavedColorResp_json rs = map SavedColorResp_json rs'"
  shows "rs = rs'"
  using assms(1,2) by (intro map_inject[OF assms(3)] SavedColorResp_inject) (auto simp: list_all_iff)

lemma Collections_inject:
  assumes "list_all (\<lambda>c. MarshalsTime (cr_CreatedAt c)) cs" "list_all (\<lambda>c. MarshalsTime (cr_CreatedAt c)) cs'"
    and "map (\<lambda>c. JObject (CollectionResp_fields c)) cs = map (\<lambda>c. JObject (CollectionResp_fields c)) cs'"
  shows "cs = cs'"
  using assms(1,2) by (intro map_inject[OF assms(3)] CollectionResp_inject) (auto simp: list_all_iff)

lemma CommonColors_inject: "map CommonColorResp_json cs = map CommonColorResp_json cs' \<Longrightarrow> cs = cs'"
  by (erule map_inject) (intro common_color_resp.equality; simp add: CommonColorResp_json_def)

lemma ExportCollectionResp_inject:
  assumes "MarshalsTime (cr_CreatedAt (ecr_Collection r))" "MarshalsTime (cr_CreatedAt (ecr_Collection r'))"
    and "list_all (\<lambda>x. MarshalsTime (scr_CreatedAt x)) (ecr_Colors r)"
      "list_all (\<lambda>x. MarshalsTime (scr_CreatedAt x)) (ecr_Colors r')"
    and "ExportCollectionResp_json r = ExportCollectionResp_json r'"
  shows "r = r'"
proof -
  have "ecr_Collection r = ecr_Collection r'"
    using assms(5) by (intro CollectionResp_inject[OF assms(1,2)]) (simp add: ExportCollectionResp_json_def)
  moreover have "ecr_Colors r = ecr_Colors r'"
    using assms(5) by (intro SavedColors_inject[OF assms(3,4)]) (simp add: ExportCollectionResp_json_def)
  ultimately show ?thesis by simp
qed


lemma ExportCollections_inject:
  assumes "\<forall>r \<in> set rs. MarshalsTime (cr_CreatedAt (ecr_Collection r)) \<and> (\<forall>x \<in> set (ecr_Colors r). MarshalsTime (scr_CreatedAt x))"
    and "\<forall>r \<in> set rs'. MarshalsTime (cr_CreatedAt (ecr_Collection r)) \<and> (\<forall>x \<in> set (ecr_Colors r). MarshalsTime (scr_CreatedAt x))"
    and "map ExportCollectionResp_json rs = map ExportCollectionResp_json rs'"
  shows "rs = rs'"
  using assms(1,2) by (intro map_inject[OF assms(3)] ExportCollectionResp_inject) (auto simp: list_all_iff)

lemmas document_defs = VersionResp_json_def HealthResp_json_def CreateUserResp_json_def CreateTokenResp_json_def
  OneCollectionResp_json_def ListCollectionsResp_json_def AddColorResp_json_def ListColorsResp_json_def
  ExportResp_json_def ListCommonColorsResp_json_def ListShadesResp_json_def HarmonyResp_json_def ColorInfoResp_json_def

definition faithful :: "fenv \<Rightarrow> body \<Rightarrow> bool" where
  "faithful m b \<longleftrightarrow> list_all MarshalsTime (body_times b) \<and> list_all (shown m) (body_floats b)"

lemma json_of_inject:
  assumes "faithful m b" "faithful m b'" "json_of m b = Some v" "json_of m b' = Some v"
  shows "b = b'"
proof (cases b)
  case (VersionBody x)
  then show ?thesis using assms(3,4) by (cases b') (auto simp: document_defs)
next
  case (HealthBody x)
  then show ?thesis using assms(3,4)
    by (cases b') (auto simp: document_defs omitempty_def intro!: health_resp.equality split: if_splits)
next
  case (UserBody x)
  then show ?thesis using assms by (cases b') (auto simp: document_defs faithful_def intro: UserResp_inject)
next
  case (TokenBody x)
  then show ?thesis using assms
    by (cases b') (auto simp: document_defs faithful_def time_json_def MarshalsTime_inject intro!: create_token_resp.equality)
next
  case (CollectionBody x)
  then show ?thesis using assms by (cases b') (auto simp: document_defs faithful_def intro: CollectionResp_inject)
next
  case (CollectionsBody x)
  then show ?thesis using assms
    by (cases b') (auto simp: document_defs faithful_def list_all_iff intro: Collections_inject[symmetric])
next
  case (AddColorBody x)
  then show ?thesis using assms(3,4) by (cases b') (auto simp: document_defs)
next
  case (ColorsBody x)
  then show ?thesis using assms
    by (cases b') (auto simp: document_defs faithful_def list_all_iff cursorMeta_json_def int_json_def omitempty_def
        intro!: list_colors_resp.equality cursor_meta.equality SavedColors_inject split: if_splits)
next
  case (ExportBody x)
  then show ?thesis using assms
    by (cases b') (auto simp: document_defs faithful_def list_all_iff int_json_def time_json_def MarshalsTime_inject
        intro!: export_resp.equality UserResp_inject ExportCollections_inject[symmetric])
next
  case (CommonColorsBody x)
  then show ?thesis using assms(3,4) by (cases b') (auto simp: document_defs intro: CommonColors_inject)
next
  case (ShadesBody x)
  have "ShadeFamilyResp_json f = ShadeFamilyResp_json f' \<Longrightarrow> f = f'" for f f'
    by (intro shade_family_resp.equality) (auto simp: ShadeFamilyResp_json_def intro: CommonColors_inject)
  then show ?thesis using ShadesBody assms(3,4) by (cases b') (auto simp: document_defs intro: map_inject[symmetric])
next
  case (HarmonyBody x)
  have "map JString xs = map JString ys \<longleftrightarrow> xs = ys" for xs ys by (rule inj_map_eq_map) (simp add: inj_def)
  then show ?thesis using HarmonyBody assms(3,4)
    by (cases b') (auto simp: document_defs intro!: harmony_resp.equality)
next
  case (InfoBody x)
  have "ContrastResp_json m c = ContrastResp_json m c' \<Longrightarrow> shown m (cr_Ratio c) \<Longrightarrow> shown m (cr_Ratio c') \<Longrightarrow> c = c'" for c c'
    by (intro contrast_resp.equality) (auto simp: ContrastResp_json_def float_json_def FormatFloat_inject)
  then show ?thesis using InfoBody assms
    by (cases b') (auto simp: document_defs faithful_def RGBResp_json_def HSLResp_json_def HSVResp_json_def OkLChResp_json_def
        int_json_def float_json_def FormatFloat_inject intro!: color_info_resp.equality split: prod.splits)
qed (use assms(3) in simp_all)


text \<open>The floats of a description are written with few decimals, and faithfully.\<close>

lemma info_faithful:
  assumes "go_math m" "length h = HexLen"
  shows "faithful m (InfoBody (colorInfoResp (Describe m h)))"
proof -
  note d = go_math.info_decimals[OF assms refl, unfolded okLightnessDecimals_def okChromaDecimals_def contrastRatioDecimals_def]
  have "reads_back m x k \<Longrightarrow> k \<in> {1, 2, 3} \<Longrightarrow> shown m x" for x k
    unfolding shown_def by (rule exI[of _ k]) auto
  then show ?thesis using d by (simp add: faithful_def colorInfoResp_def contrastResp_def)
qed

text \<open>
  C24. The bytes of a reply say all that the handler answered.  The document that \<^verbatim>\<open>json.Marshal\<close> makes
  of a body, with its escapes, its omitted fields and its numbers, is a JSON text that a reader of
  RFC 8259 takes back to the object of the struct's fields, whatever the stored names contain; and no
  other body has the same bytes.  In particular an absent \<^verbatim>\<open>next_cursor\<close> means an empty one, and the
  shortest decimals that are printed determine the floats of a colour's description.
\<close>

theorem replies_lossless:
  assumes "Marshal m b = Some s" "json_of m b = Some v" "list_all utf8 (json_strings v)" "list_all (shown m) (body_floats b)"
  shows "json_parse s = Some v
    \<and> (\<forall>b' v'. Marshal m b' = Some s \<and> json_of m b' = Some v' \<and> list_all utf8 (json_strings v')
         \<and> list_all (shown m) (body_floats b') \<longrightarrow> b' = b)"
proof -
  have doc: "s = json_text v" "json_parse s = Some v" "faithful m b"
    if "Marshal m b = Some s" "json_of m b = Some v" "list_all utf8 (json_strings v)" "list_all (shown m) (body_floats b)" for b v
  proof -
    show s: "s = json_text v" and "faithful m b" using that by (auto simp: Marshal_def faithful_def split: if_splits)
    show "json_parse s = Some v" unfolding s using that json_of_numbers by (intro json_parse_text) (simp add: json_ok_iff)
  qed
  show ?thesis
  proof (intro conjI allI impI)
    show p: "json_parse s = Some v" using doc[OF assms] by blast
    fix b' v'
    assume b': "Marshal m b' = Some s \<and> json_of m b' = Some v' \<and> list_all utf8 (json_strings v')
         \<and> list_all (shown m) (body_floats b')"
    then have "json_parse s = Some v'" "faithful m b'" using doc by blast+
    then show "b' = b" using p b' assms(2) doc(3)[OF assms] json_of_inject[of m b' b v] by simp
  qed
qed

text \<open>A collection with a name that has to be escaped.\<close>

definition cafe :: collection_resp where
  "cafe = \<lparr>cr_ID = ''1'', cr_Name = ''Caf'' @ [CHR 0xC3, CHR 0xA9] @ '' <3'', cr_Icon = ''tag'', cr_Accent = [CHR 0x22],
     cr_IsDefault = True, cr_CreatedAt = Time 0 0\<rparr>"

theorem replies_lossless_witness:
  "json_parse (json_text (OneCollectionResp_json cafe)) = Some (OneCollectionResp_json cafe)"
proof -
  have "list_all utf8 (json_strings (OneCollectionResp_json cafe))"
    by (simp add: OneCollectionResp_json_def CollectionResp_fields_def cafe_def time_json_def Format_utf8 rune_size_def rune2_def
        between_def)
  moreover have "Marshal binary64_env (CollectionBody cafe) = Some (json_text (OneCollectionResp_json cafe))"
    by (simp add: Marshal_def cafe_def MarshalsTime_def yearOf_def yearDays_def epochDays_def)
  ultimately show ?thesis using replies_lossless[of binary64_env "CollectionBody cafe"] by simp
qed

end
