(* ===== verification/Middleware.thy ===== *)
theory Middleware
  imports Api_Contracts
begin

text \<open>
  \<^verbatim>\<open>internal/server/middleware.go\<close>, \<^verbatim>\<open>internal/requestid\<close> and the chain of \<^verbatim>\<open>NewHandler\<close>: the recorder
  around the response writer, the correlation id, the request log and the recovery from panics.

  A handler is seen here by what it does to the writer, header by header and write by write, and by
  how it ends; what it does to the database passes through.  Durations are not modelled.
\<close>

section \<open>The writer\<close>

text \<open>
  \<^verbatim>\<open>net/http\<close>'s writer keeps the header map until a status commits it; a second status is ignored, and
  so is an informational one here, since it commits nothing.  \<^verbatim>\<open>statusRecorder\<close> wraps a writer.
\<close>

datatype writer =
    NetHTTP "(string \<times> string) list" "(nat \<times> (string \<times> string) list) option" nat
  | StatusRecorder writer nat nat bool

fun SetHeader :: "string \<Rightarrow> string \<Rightarrow> writer \<Rightarrow> writer" where
  "SetHeader k v (NetHTTP hs com n) = NetHTTP ((k, v) # filter (\<lambda>h. fst h \<noteq> k) hs) com n"
| "SetHeader k v (StatusRecorder inner status bytes wrote) = StatusRecorder (SetHeader k v inner) status bytes wrote"

definition informational :: "nat \<Rightarrow> bool" where
  "informational code \<longleftrightarrow> 100 \<le> code \<and> code < 200 \<and> code \<noteq> 101"

fun WriteHeader :: "nat \<Rightarrow> writer \<Rightarrow> writer" where
  "WriteHeader code (NetHTTP hs com n) =
     NetHTTP hs (if com = None \<and> \<not> informational code then Some (code, hs) else com) n"
| "WriteHeader code (StatusRecorder inner status bytes wrote) =
     StatusRecorder (WriteHeader code inner) (if wrote then status else code) bytes True"

text \<open>\<^verbatim>\<open>Write\<close>: \<^verbatim>\<open>n\<close> is the count that the writer below reports.\<close>

lemma size_WriteHeader [simp]: "size (WriteHeader code w) = size w"
  by (induction code w rule: WriteHeader.induct) simp_all

function Write :: "nat \<Rightarrow> writer \<Rightarrow> writer" where
  "Write n (NetHTTP hs com k) =
     (case com of
        Some _ \<Rightarrow> NetHTTP hs com (k + n)
      | None \<Rightarrow> NetHTTP hs (Some (200, hs)) (k + n))"
| "Write n (StatusRecorder inner status bytes wrote) =
     (if wrote then StatusRecorder (Write n inner) status (bytes + n) True
      else StatusRecorder (Write n (WriteHeader 200 inner)) 200 (bytes + n) True)"
  by pat_completeness auto
termination
  by (relation "measure (\<lambda>(n, w). size w)") auto

fun Unwrap :: "writer \<Rightarrow> writer" where
  "Unwrap (StatusRecorder inner status bytes wrote) = inner"
| "Unwrap w = w"

text \<open>What the connection sends: the committed status and header, and the size of the body.\<close>

fun sent :: "writer \<Rightarrow> (nat \<times> (string \<times> string) list) option \<times> nat" where
  "sent (NetHTTP hs com n) = (com, n)"
| "sent (StatusRecorder inner _ _ _) = sent inner"

fun wroteHeader :: "writer \<Rightarrow> bool" where
  "wroteHeader (StatusRecorder _ _ _ wrote) = wrote"
| "wroteHeader (NetHTTP _ _ _) = False"

fun isRecorder :: "writer \<Rightarrow> bool" where
  "isRecorder (StatusRecorder _ _ _ _) = True"
| "isRecorder _ = False"

section \<open>Handlers\<close>

datatype panic = ErrAbortHandler | PanicValue string
datatype ending = Returned | Panicked panic

datatype log_level = LevelInfo | LevelWarn | LevelError

record request_log =
  rl_level :: log_level
  rl_method :: string
  rl_path :: string
  rl_remote_addr :: string
  rl_status :: nat
  rl_bytes :: nat
  rl_forwarded_for :: "string option"
  rl_aborted :: "string option"

text \<open>A record with the attributes that \<^verbatim>\<open>LogAttrs\<close> takes from the context.\<close>

datatype log_entry =
    RequestLog "(string \<times> string) list" request_log
  | PanicLog "(string \<times> string) list" string

type_synonym middle = "writer \<Rightarrow> request \<Rightarrow> writer \<times> ending \<times> log_entry list"

section \<open>requestid\<close>

definition requestid_Header :: string where "requestid_Header = ''X-Request-Id''"

definition NewContext :: "request \<Rightarrow> string \<Rightarrow> request" where
  "NewContext req i = req\<lparr>rq_id := Some i\<rparr>"

definition FromContext :: "request \<Rightarrow> string" where
  "FromContext req = (case rq_id req of None \<Rightarrow> [] | Some i \<Rightarrow> i)"

definition LogAttrs :: "request \<Rightarrow> (string \<times> string) list" where
  "LogAttrs req = (let i = FromContext req in if i \<noteq> [] then [(''request_id'', i)] else [])"

text \<open>The next id, a UUID of version 7, is the argument \<^verbatim>\<open>new\<close>.\<close>

definition requestIDMiddleware :: "string \<Rightarrow> middle \<Rightarrow> middle" where
  "requestIDMiddleware new nxt w req = nxt (SetHeader requestid_Header new w) (NewContext req new)"

section \<open>Addresses\<close>

text \<open>\<^verbatim>\<open>strings.LastIndex\<close> of one character and what surrounds it.\<close>

fun LastCut :: "char \<Rightarrow> string \<Rightarrow> (string \<times> string) option" where
  "LastCut c [] = None"
| "LastCut c (x # s) =
     (case LastCut c s of
        Some (a, b) \<Rightarrow> Some (x # a, b)
      | None \<Rightarrow> if x = c then Some ([], s) else None)"

fun FirstCut :: "char \<Rightarrow> string \<Rightarrow> (string \<times> string) option" where
  "FirstCut c [] = None"
| "FirstCut c (x # s) =
     (if x = c then Some ([], s) else case FirstCut c s of Some (a, b) \<Rightarrow> Some (x # a, b) | None \<Rightarrow> None)"

text \<open>\<^verbatim>\<open>net.SplitHostPort\<close>.\<close>

definition SplitHostPort :: "string \<Rightarrow> (string \<times> string) option" where
  "SplitHostPort s =
     (case LastCut (CHR '':'') s of
        None \<Rightarrow> None
      | Some (pre, port) \<Rightarrow>
          if s \<noteq> [] \<and> hd s = CHR ''['' then
            (case FirstCut (CHR '']'') s of
               None \<Rightarrow> None
             | Some (inside, after) \<Rightarrow>
                 if after \<noteq> CHR '':'' # port then None
                 else if CHR ''['' \<in> set (drop 1 s) \<or> CHR '']'' \<in> set after then None
                 else Some (drop 1 inside, port))
          else if CHR '':'' \<in> set pre then None
          else if CHR ''['' \<in> set s \<or> CHR '']'' \<in> set s then None
          else Some (pre, port))"

definition remoteHost :: "request \<Rightarrow> string" where
  "remoteHost req = (case SplitHostPort (rq_RemoteAddr req) of None \<Rightarrow> rq_RemoteAddr req | Some (host, _) \<Rightarrow> host)"

text \<open>\<^verbatim>\<open>strings.TrimSpace\<close>: the UTF-8 encodings of the characters with the property White Space.\<close>

definition spaces :: "string list" where
  "spaces =
    [[CHR 0x09], [CHR 0x0A], [CHR 0x0B], [CHR 0x0C], [CHR 0x0D], [CHR 0x20], [CHR 0xC2, CHR 0x85], [CHR 0xC2, CHR 0xA0], [CHR 0xE1, CHR 0x9A, CHR 0x80],
     [CHR 0xE2, CHR 0x80, CHR 0x80], [CHR 0xE2, CHR 0x80, CHR 0x81], [CHR 0xE2, CHR 0x80, CHR 0x82], [CHR 0xE2, CHR 0x80, CHR 0x83],
     [CHR 0xE2, CHR 0x80, CHR 0x84], [CHR 0xE2, CHR 0x80, CHR 0x85], [CHR 0xE2, CHR 0x80, CHR 0x86], [CHR 0xE2, CHR 0x80, CHR 0x87],
     [CHR 0xE2, CHR 0x80, CHR 0x88], [CHR 0xE2, CHR 0x80, CHR 0x89], [CHR 0xE2, CHR 0x80, CHR 0x8A],
     [CHR 0xE2, CHR 0x80, CHR 0xA8], [CHR 0xE2, CHR 0x80, CHR 0xA9], [CHR 0xE2, CHR 0x80, CHR 0xAF],
     [CHR 0xE2, CHR 0x81, CHR 0x9F], [CHR 0xE3, CHR 0x80, CHR 0x80]]"

function trimPrefixes :: "string list \<Rightarrow> string \<Rightarrow> string" where
  "trimPrefixes ps s =
     (case find (\<lambda>p. p \<noteq> [] \<and> take (length p) s = p) ps of
        None \<Rightarrow> s | Some p \<Rightarrow> trimPrefixes ps (drop (length p) s))"
  by pat_completeness auto
termination
proof (relation "measure (\<lambda>(ps, s). length s)")
  fix ps :: "string list" and s p
  assume "find (\<lambda>p. p \<noteq> [] \<and> take (length p) s = p) ps = Some p"
  then have "p \<noteq> []" "take (length p) s = p" by (auto simp: find_Some_iff)
  then have "0 < length p" "s \<noteq> []" by auto
  then show "((ps, drop (length p) s), (ps, s)) \<in> measure (\<lambda>(ps, s). length s)" by simp
qed simp

declare trimPrefixes.simps [simp del]

definition TrimSpace :: "string \<Rightarrow> string" where
  "TrimSpace s = rev (trimPrefixes (map rev spaces) (rev (trimPrefixes spaces s)))"

definition forwardedFor :: "request \<Rightarrow> string" where
  "forwardedFor req =
     (let lines = rq_Header req ''X-Forwarded-For'' in
      if lines = [] then []
      else TrimSpace (case LastCut (CHR '','') (last lines) of None \<Rightarrow> last lines | Some (_, r) \<Rightarrow> r))"

section \<open>Logging and recovery\<close>

definition level_of :: "nat \<Rightarrow> log_level" where
  "level_of status = (if status \<ge> 500 then LevelError else if status \<ge> 400 then LevelWarn else LevelInfo)"

text \<open>The path is logged decoded.\<close>

definition log_of :: "request \<Rightarrow> nat \<Rightarrow> nat \<Rightarrow> request_log" where
  "log_of req status bytes =
     \<lparr>rl_level = level_of status, rl_method = rq_method req,
      rl_path = (case unescape (rq_path req) of None \<Rightarrow> rq_path req | Some p \<Rightarrow> p),
      rl_remote_addr = remoteHost req, rl_status = status, rl_bytes = bytes,
      rl_forwarded_for = (let fwd = forwardedFor req in if fwd \<noteq> [] then Some fwd else None),
      rl_aborted = rq_Err req\<rparr>"

definition loggingMiddleware :: "middle \<Rightarrow> middle" where
  "loggingMiddleware nxt w req =
     (case nxt (StatusRecorder w 200 0 False) req of
        (w', Panicked p, logs) \<Rightarrow> (Unwrap w', Panicked p, logs)
      | (StatusRecorder w' status bytes wrote, Returned, logs) \<Rightarrow>
          (w', Returned, logs @ [RequestLog (LogAttrs req) (log_of req status bytes)])
      | (w', Returned, logs) \<Rightarrow> (w', Returned, logs))"

definition recoveryMiddleware :: "middle \<Rightarrow> middle" where
  "recoveryMiddleware nxt w req =
     (case nxt w req of
        (w', Returned, logs) \<Rightarrow> (w', Returned, logs)
      | (w', Panicked ErrAbortHandler, logs) \<Rightarrow> (w', Panicked ErrAbortHandler, logs)
      | (w', Panicked (PanicValue v), logs) \<Rightarrow>
          (if \<not> isRecorder w' \<or> \<not> wroteHeader w'
           then WriteHeader 500 (SetHeader ''Connection'' ''close'' w') else w',
           Returned, logs @ [PanicLog (LogAttrs req) v]))"

text \<open>The handler below the chain: what it does to the writer, one action after the other, and its end.\<close>

datatype action = ASetHeader string string | AWriteHeader nat | AWrite nat

fun act :: "action \<Rightarrow> writer \<Rightarrow> writer" where
  "act (ASetHeader k v) w = SetHeader k v w"
| "act (AWriteHeader code) w = WriteHeader code w"
| "act (AWrite n) w = Write n w"

definition play :: "action list \<Rightarrow> ending \<Rightarrow> middle" where
  "play acts e w req = (fold act acts w, e, [])"

text \<open>A reply of a handler: its headers, its status, its body as \<^verbatim>\<open>encode\<close> renders it.\<close>

definition actions_of :: "(body \<Rightarrow> string) \<Rightarrow> reply \<Rightarrow> action list" where
  "actions_of encode r =
     map (\<lambda>(k, v). ASetHeader k v) (rp_headers r) @ [AWriteHeader (rp_status r)]
     @ (if rp_body r = NoBody then [] else [AWrite (length (encode (rp_body r)))])"

definition chain :: "string \<Rightarrow> middle \<Rightarrow> middle" where
  "chain new h = requestIDMiddleware new (loggingMiddleware (recoveryMiddleware h))"

definition NewHandler ::
    "(body \<Rightarrow> string) \<Rightarrow> string \<Rightarrow> handler_config \<Rightarrow> admission \<Rightarrow> server_env \<Rightarrow> writer \<Rightarrow> request \<Rightarrow> world
      \<Rightarrow> (writer \<times> ending \<times> log_entry list) \<times> world" where
  "NewHandler encode new cfg adm s wr req w =
     (case newMux cfg adm s (NewContext req new) w of
        (r, w') \<Rightarrow> (chain new (play (actions_of encode r) Returned) wr req, w'))"

section \<open>The recorder tells the truth\<close>

text \<open>Over \<^verbatim>\<open>net/http\<close>'s writer: the recorded status and size are what is sent.\<close>

fun faithful :: "writer \<Rightarrow> bool" where
  "faithful (StatusRecorder (NetHTTP hs com n) status bytes wrote) \<longleftrightarrow>
     bytes = n \<and> (case com of None \<Rightarrow> \<not> wrote \<and> status = 200 \<and> n = 0 | Some (code, _) \<Rightarrow> wrote \<and> status = code)"
| "faithful _ \<longleftrightarrow> False"

definition final_status :: "action \<Rightarrow> bool" where
  "final_status a \<longleftrightarrow> (case a of AWriteHeader code \<Rightarrow> \<not> informational code | _ \<Rightarrow> True)"

lemma act_faithful:
  assumes "faithful w" "final_status a"
  shows "faithful (act a w)"
proof -
  obtain hs com n status bytes wrote where w: "w = StatusRecorder (NetHTTP hs com n) status bytes wrote"
    using assms(1) by (cases w rule: faithful.cases) auto
  show ?thesis
    using assms unfolding w
    by (cases a; cases com) (auto simp: final_status_def informational_def split: prod.splits)
qed

lemma play_faithful:
  "faithful w \<Longrightarrow> list_all final_status acts \<Longrightarrow> faithful (fold act acts w)"
  by (induction acts arbitrary: w) (auto simp: act_faithful)

lemma act_inner:
  "faithful (StatusRecorder (NetHTTP hs com n) st b wr) \<Longrightarrow>
   \<exists>st' b' wr'. act a (StatusRecorder (NetHTTP hs com n) st b wr) = StatusRecorder (act a (NetHTTP hs com n)) st' b' wr'"
  by (cases a; cases com) (auto simp: informational_def)

lemma act_NetHTTP: "\<exists>hs' com' n'. act a (NetHTTP hs com n) = NetHTTP hs' com' n'"
  by (cases a) (auto split: option.split)

lemma play_inner:
  assumes "faithful (StatusRecorder (NetHTTP hs com n) st b wr)" "list_all final_status acts"
  shows "\<exists>st' b' wr'. fold act acts (StatusRecorder (NetHTTP hs com n) st b wr)
    = StatusRecorder (fold act acts (NetHTTP hs com n)) st' b' wr'"
  using assms
proof (induction acts arbitrary: hs com n st b wr)
  case Nil
  then show ?case by simp
next
  case (Cons a acts)
  obtain hs' com' n' where i: "act a (NetHTTP hs com n) = NetHTTP hs' com' n'" using act_NetHTTP by metis
  obtain st' b' wr' where o: "act a (StatusRecorder (NetHTTP hs com n) st b wr) = StatusRecorder (NetHTTP hs' com' n') st' b' wr'"
    using act_inner[OF Cons.prems(1), of a] i by auto
  have "faithful (StatusRecorder (NetHTTP hs' com' n') st' b' wr')"
    using act_faithful[OF Cons.prems(1), of a] Cons.prems(2) o by simp
  then show ?case using Cons.IH[of hs' com' n' st' b' wr'] Cons.prems(2) i o by simp
qed

lemma requestid_first: "SetHeader requestid_Header new (NetHTTP [] None 0) = NetHTTP [(requestid_Header, new)] None 0"
  by simp

text \<open>
  C26. Every request is accounted for as it was answered.  Whatever a handler writes, with final
  statuses, and however it ends: the client gets what the handler sent, with the correlation id among
  the headers; a panic before anything was sent becomes a 500 that closes the connection, a later one
  leaves what was sent; and the request is logged once, last, under that id, with the status and the
  size that were sent (200 when nothing was).  Only the abort of \<^verbatim>\<open>net/http\<close> goes through unlogged.
\<close>

theorem request_accounting:
  assumes "list_all final_status acts"
  shows "case chain new (play acts e) (NetHTTP [] None 0) req of (w', e', logs) \<Rightarrow>
    let direct = fold act acts (NetHTTP [(requestid_Header, new)] None 0);
        req' = NewContext req new in
    if e = Panicked ErrAbortHandler then e' = e \<and> sent w' = sent direct \<and> logs = []
    else e' = Returned
      \<and> sent w' = (if e \<noteq> Returned \<and> fst (sent direct) = None
           then sent (WriteHeader 500 (SetHeader ''Connection'' ''close'' direct)) else sent direct)
      \<and> logs = (case e of Panicked (PanicValue v) \<Rightarrow> [PanicLog (LogAttrs req') v] | _ \<Rightarrow> [])
          @ [RequestLog (LogAttrs req') (log_of req'
              (case fst (sent w') of None \<Rightarrow> 200 | Some (code, _) \<Rightarrow> code) (snd (sent w')))]"
proof -
  let ?n = "NetHTTP [(requestid_Header, new)] None 0"
  let ?r = "StatusRecorder ?n 200 0 False"
  have start: "faithful ?r" by simp
  obtain hs com n st b wr where d: "fold act acts ?n = NetHTTP hs com n"
    and r: "fold act acts ?r = StatusRecorder (NetHTTP hs com n) st b wr"
  proof -
    have "\<exists>hs com n. fold act acts (NetHTTP hs0 com0 n0) = NetHTTP hs com n" for hs0 com0 n0
      by (induction acts arbitrary: hs0 com0 n0) (use act_NetHTTP in \<open>auto, metis\<close>)
    then obtain hs com n where "fold act acts ?n = NetHTTP hs com n" by blast
    then show thesis using that play_inner[OF start assms] by auto
  qed
  have f: "faithful (StatusRecorder (NetHTTP hs com n) st b wr)"
    using play_faithful[OF start assms] r by simp
  show ?thesis
  proof (cases e)
    case Returned
    then show ?thesis
      using d r f
      by (auto simp: chain_def requestIDMiddleware_def loggingMiddleware_def recoveryMiddleware_def play_def
          split: option.splits)
  next
    case (Panicked p)
    then show ?thesis
      using d r f
      by (cases p) (auto simp: chain_def requestIDMiddleware_def loggingMiddleware_def recoveryMiddleware_def play_def
          informational_def split: option.splits)
  qed
qed

theorem request_accounting_witness:
  "case chain ''id-1'' (play [ASetHeader ''Vary'' ''Authorization''] (Panicked (PanicValue ''nil map'')))
      (NetHTTP [] None 0) (sample_request ''GET'' ''/livez'' []) of (w', e', logs) \<Rightarrow>
     e' = Returned \<and> fst (sent w') = Some (500, [(''Connection'', ''close''), (''Vary'', ''Authorization''), (''X-Request-Id'', ''id-1'')])
     \<and> length logs = 2"
  using request_accounting[where acts = "[ASetHeader ''Vary'' ''Authorization'']" and new = "''id-1''" and
      e = "Panicked (PanicValue ''nil map'')" and req = "sample_request ''GET'' ''/livez'' []"]
  by (auto simp: final_status_def informational_def requestid_Header_def Let_def split: prod.splits)

section \<open>Where a request came from\<close>

lemma trimPrefixes_drop:
  assumes "[c] \<in> set ps" "list_all (\<lambda>q. q \<noteq> [] \<and> (hd q = c \<longrightarrow> q = [c])) ps"
  shows "trimPrefixes ps (c # s) = trimPrefixes ps s"
proof -
  have u: "q = [c]" if "q \<in> set ps" "take (length q) (c # s) = q" for q
    using assms(2) that by (cases q) (auto simp: list_all_iff)
  have "find (\<lambda>q. q \<noteq> [] \<and> take (length q) (c # s) = q) ps = Some [c]"
  proof (cases "find (\<lambda>q. q \<noteq> [] \<and> take (length q) (c # s) = q) ps")
    case None
    then show ?thesis using assms(1) by (auto simp: find_None_iff)
  next
    case (Some q)
    then have "q \<in> set ps" "take (length q) (c # s) = q" by (auto simp: find_Some_iff)
    then show ?thesis using u Some by metis
  qed
  then show ?thesis by (subst trimPrefixes.simps) simp
qed

lemma trimPrefixes_stop:
  assumes "list_all (\<lambda>q. q = [] \<or> hd q \<noteq> c) ps"
  shows "trimPrefixes ps (c # s) = c # s"
proof -
  have "find (\<lambda>q. q \<noteq> [] \<and> take (length q) (c # s) = q) ps = None"
    using assms by (auto simp: find_None_iff list_all_iff) (metis list.sel(1) take_eq_Nil2 take_Cons' length_0_conv)
  then show ?thesis by (subst trimPrefixes.simps) simp
qed

lemma trimPrefixes_replicate:
  "[c] \<in> set ps \<Longrightarrow> list_all (\<lambda>q. q \<noteq> [] \<and> (hd q = c \<longrightarrow> q = [c])) ps \<Longrightarrow>
   trimPrefixes ps (replicate k c @ s) = trimPrefixes ps s"
  by (induction k) (simp_all add: trimPrefixes_drop)

text \<open>No space begins, or ends, with a visible character.\<close>

definition visible :: "char \<Rightarrow> bool" where
  "visible c \<longleftrightarrow> 33 \<le> (of_char c :: nat) \<and> (of_char c :: nat) \<le> 126"

lemma space_tables:
  "list_all (\<lambda>q. q \<noteq> [] \<and> (hd q = CHR '' '' \<longrightarrow> q = '' '')) spaces" "'' '' \<in> set spaces"
  "list_all (\<lambda>q. q \<noteq> [] \<and> (hd q = CHR '' '' \<longrightarrow> q = '' '')) (map rev spaces)" "'' '' \<in> set (map rev spaces)"
  "list_all (\<lambda>q. q = [] \<or> \<not> visible (hd q)) spaces" "list_all (\<lambda>q. q = [] \<or> \<not> visible (hd q)) (map rev spaces)"
  by (simp_all add: spaces_def visible_def)

lemma TrimSpace_padded:
  assumes "s \<noteq> []" "visible (hd s)" "visible (last s)"
  shows "TrimSpace (replicate j (CHR '' '') @ s @ replicate k (CHR '' '')) = s"
proof -
  have stop: "trimPrefixes ps t = t" if "list_all (\<lambda>q. q = [] \<or> \<not> visible (hd q)) ps" "t \<noteq> []" "visible (hd t)" for ps t
    using that by (cases t) (auto simp: list_all_iff intro!: trimPrefixes_stop)
  have "trimPrefixes spaces (replicate j (CHR '' '') @ s @ replicate k (CHR '' '')) = s @ replicate k (CHR '' '')"
    using assms by (simp add: trimPrefixes_replicate[OF space_tables(2,1)] stop[OF space_tables(5)])
  then show ?thesis
    using assms
    by (simp add: TrimSpace_def trimPrefixes_replicate[OF space_tables(4,3)] stop[OF space_tables(6)] hd_rev)
qed

lemma LastCut_None: "c \<notin> set b \<Longrightarrow> LastCut c b = None"
  by (induction b) auto

lemma LastCut_append: "c \<notin> set b \<Longrightarrow> LastCut c (a @ c # b) = Some (a, b)"
  by (induction a) (simp_all add: LastCut_None)

text \<open>
  C27. The logged origin is the nearest proxy's.  Whatever a client puts into \<^verbatim>\<open>X-Forwarded-For\<close>, in
  however many lines, the logged address is the one the nearest proxy appended: after the last comma
  of the last line, or that whole line, without the spaces around it.
\<close>

theorem forwardedFor_nearest:
  assumes "addr \<noteq> []" "list_all visible addr" "CHR '','' \<notin> set addr"
    and "rq_Header req ''X-Forwarded-For'' =
      earlier @ [front @ replicate j (CHR '' '') @ addr @ replicate k (CHR '' '')]"
    and "front = [] \<or> (\<exists>sent. front = sent @ '','')"
  shows "forwardedFor req = addr"
proof -
  let ?t = "replicate j (CHR '' '') @ addr @ replicate k (CHR '' '')"
  have c: "CHR '','' \<notin> set ?t" using assms(3) by auto
  have "TrimSpace ?t = addr" using assms(1,2) by (intro TrimSpace_padded) (auto simp: list_all_iff)
  moreover have "(case LastCut (CHR '','') (front @ ?t) of None \<Rightarrow> front @ ?t | Some (_, r) \<Rightarrow> r) = ?t"
    using assms(5)
  proof
    assume "front = []"
    then show ?thesis using LastCut_None[OF c] by simp
  next
    assume "\<exists>sent. front = sent @ '',''"
    then obtain sent where "front = sent @ '',''" by blast
    then show ?thesis using LastCut_append[OF c, of sent] by simp
  qed
  moreover have "last (rq_Header req ''X-Forwarded-For'') = front @ ?t" using assms(4) by simp
  ultimately show ?thesis using assms(4) by (simp only: forwardedFor_def Let_def) simp
qed

theorem forwardedFor_nearest_witness:
  "forwardedFor ((sample_request ''GET'' ''/'' [])\<lparr>rq_Header :=
     \<lambda>name. if name = ''X-Forwarded-For'' then [''10.0.0.1'', ''6.6.6.6, 203.0.113.7 ''] else []\<rparr>) = ''203.0.113.7''"
proof (rule forwardedFor_nearest)
  show "list_all visible ''203.0.113.7''" by code_simp
  show "''6.6.6.6,'' = [] \<or> (\<exists>sent. ''6.6.6.6,'' = sent @ '','')" by (rule disjI2, rule exI[of _ "''6.6.6.6''"]) simp
  show "rq_Header ((sample_request ''GET'' ''/'' [])\<lparr>rq_Header :=
     \<lambda>name. if name = ''X-Forwarded-For'' then [''10.0.0.1'', ''6.6.6.6, 203.0.113.7 ''] else []\<rparr>) ''X-Forwarded-For''
     = [''10.0.0.1''] @ [''6.6.6.6,'' @ replicate 1 (CHR '' '') @ ''203.0.113.7'' @ replicate 1 (CHR '' '')]"
    by simp
qed simp_all

end
