(* ===== verification/Concurrency.thy ===== *)
theory Concurrency
  imports Routes
begin

text \<open>
  The semaphore of \<^verbatim>\<open>internal/server/limit.go\<close> under any interleaving of requests: the buffered
  channel as the number of tokens in it, a request as the point it has reached, and one step for each
  thing that can happen next.  When a wait ends and a slot is free at the same moment, \<^verbatim>\<open>select\<close> may
  take either branch, and so may a step.  A limit of 0 or less disables the cap: there is no channel, and
  every request goes straight to \<^verbatim>\<open>next\<close>.
\<close>

section \<open>The limiter\<close>

text \<open>
  Before the first \<^verbatim>\<open>select\<close>, blocked in the second one, in \<^verbatim>\<open>next\<close>, or done, with what the
  semaphore decided.
\<close>

datatype phase = Arrived | Waiting | Running | Done admission

record limiter =
  lm_sem :: nat
  lm_requests :: "phase list"

text \<open>\<^verbatim>\<open>sem <- struct{}{}\<close> when the channel, of capacity \<^verbatim>\<open>limit\<close>, has room.\<close>

definition has_room :: "int \<Rightarrow> limiter \<Rightarrow> bool" where
  "has_room limit s \<longleftrightarrow> int (lm_sem s) < limit"

definition move :: "nat \<Rightarrow> phase \<Rightarrow> nat \<Rightarrow> limiter \<Rightarrow> limiter" where
  "move i p sem s = s\<lparr>lm_sem := sem, lm_requests := (lm_requests s)[i := p]\<rparr>"

text \<open>Request \<^verbatim>\<open>i\<close> is at point \<^verbatim>\<open>p\<close>.\<close>

definition at_point :: "limiter \<Rightarrow> nat \<Rightarrow> phase \<Rightarrow> bool" where
  "at_point s i p \<longleftrightarrow> i < length (lm_requests s) \<and> lm_requests s ! i = p"

inductive limiter_step :: "int \<Rightarrow> limiter \<Rightarrow> limiter \<Rightarrow> bool" for limit where
  no_cap: "limit \<le> 0 \<Longrightarrow> at_point s i Arrived \<Longrightarrow> limiter_step limit s (move i Running (lm_sem s) s)"
| no_cap_returned: "limit \<le> 0 \<Longrightarrow> at_point s i Running \<Longrightarrow> limiter_step limit s (move i (Done Slot) (lm_sem s) s)"
| at_once: "0 < limit \<Longrightarrow> at_point s i Arrived \<Longrightarrow> has_room limit s
    \<Longrightarrow> limiter_step limit s (move i Running (Suc (lm_sem s)) s)"
| must_wait: "0 < limit \<Longrightarrow> at_point s i Arrived \<Longrightarrow> \<not> has_room limit s
    \<Longrightarrow> limiter_step limit s (move i Waiting (lm_sem s) s)"
| slot_freed: "0 < limit \<Longrightarrow> at_point s i Waiting \<Longrightarrow> has_room limit s
    \<Longrightarrow> limiter_step limit s (move i Running (Suc (lm_sem s)) s)"
| wait_over: "0 < limit \<Longrightarrow> at_point s i Waiting \<Longrightarrow> limiter_step limit s (move i (Done NoSlot) (lm_sem s) s)"
| hung_up: "0 < limit \<Longrightarrow> at_point s i Waiting \<Longrightarrow> limiter_step limit s (move i (Done HungUp) (lm_sem s) s)"
| returned: "0 < limit \<Longrightarrow> at_point s i Running \<Longrightarrow> limiter_step limit s (move i (Done Slot) (lm_sem s - 1) s)"

inductive_cases limiter_stepE: "limiter_step limit s s'"

text \<open>The states a server reaches: steps, and new requests at any time.\<close>

inductive limiter_reachable :: "int \<Rightarrow> limiter \<Rightarrow> bool" for limit where
  idle: "limiter_reachable limit \<lparr>lm_sem = 0, lm_requests = []\<rparr>"
| arrive: "limiter_reachable limit s \<Longrightarrow> limiter_reachable limit (s\<lparr>lm_requests := lm_requests s @ [Arrived]\<rparr>)"
| step: "limiter_reachable limit s \<Longrightarrow> limiter_step limit s s' \<Longrightarrow> limiter_reachable limit s'"

section \<open>What the semaphore keeps\<close>

definition running :: "limiter \<Rightarrow> nat" where
  "running s = length (filter (\<lambda>p. p = Running) (lm_requests s))"

lemma move_simps [simp]:
  "lm_sem (move i p n s) = n" "lm_requests (move i p n s) = (lm_requests s)[i := p]"
  by (simp_all add: move_def)

lemma count_update:
  "i < length xs \<Longrightarrow> length (filter P (xs[i := p])) + (if P (xs ! i) then 1 else 0)
    = length (filter P xs) + (if P p then 1 else 0)"
proof (induction xs arbitrary: i)
  case (Cons x xs)
  then show ?case by (cases i) auto
qed simp

lemma running_move:
  "i < length (lm_requests s) \<Longrightarrow> running (move i p n s) + (if lm_requests s ! i = Running then 1 else 0)
    = running s + (if p = Running then 1 else 0)"
  using count_update[of i "lm_requests s" "\<lambda>p. p = Running" p] by (simp add: running_def)

text \<open>Nobody is parked or turned away.\<close>

definition let_in :: "phase \<Rightarrow> bool" where
  "let_in p \<longleftrightarrow> p \<in> {Arrived, Running, Done Slot}"

definition limiter_ok :: "int \<Rightarrow> limiter \<Rightarrow> bool" where
  "limiter_ok limit s \<longleftrightarrow> (if limit \<le> 0 then lm_sem s = 0 \<and> list_all let_in (lm_requests s)
     else lm_sem s = running s \<and> int (running s) \<le> limit)"

lemma limiter_ok_move:
  "0 < limit \<Longrightarrow> i < length (lm_requests s) \<Longrightarrow> limiter_ok limit (move i p n s) \<longleftrightarrow>
     n + (if lm_requests s ! i = Running then 1 else 0) = running s + (if p = Running then 1 else 0) \<and> int n \<le> limit"
  using running_move[of i s p n] by (auto simp: limiter_ok_def)

lemma some_running: "at_point s i Running \<Longrightarrow> 0 < running s"
  by (fastforce simp: at_point_def running_def filter_empty_conv in_set_conv_nth)

lemma list_all_update: "list_all P xs \<Longrightarrow> P x \<Longrightarrow> list_all P (xs[i := x])"
  by (auto simp: list_all_iff dest: subsetD[OF set_update_subset_insert])

lemma step_ok:
  assumes "limiter_step limit s s'" "limiter_ok limit s"
  shows "limiter_ok limit s'"
proof (cases "limit \<le> 0")
  case True
  then have "lm_sem s = 0" "list_all let_in (lm_requests s)" using assms(2) by (simp_all add: limiter_ok_def)
  with assms(1) True show ?thesis
    by (elim limiter_stepE) (simp_all add: limiter_ok_def list_all_update let_in_def)
next
  case False
  then have "lm_sem s = running s" "int (running s) \<le> limit" using assms(2) by (simp_all add: limiter_ok_def)
  with assms(1) False show ?thesis
    by (elim limiter_stepE) (auto simp: limiter_ok_move at_point_def has_room_def dest: some_running[unfolded at_point_def, OF conjI])
qed

lemma reachable_limiter_ok: "limiter_reachable limit s \<Longrightarrow> limiter_ok limit s"
proof (induction rule: limiter_reachable.induct)
  case idle
  then show ?case by (simp add: limiter_ok_def running_def)
next
  case (arrive s)
  then show ?case by (simp add: limiter_ok_def running_def let_in_def split: if_splits)
next
  case (step s s')
  then show ?case by (simp add: step_ok)
qed

text \<open>A request is parked only when there is no room.\<close>

lemma only_waits_when_full:
  assumes "limiter_step limit s s'" "at_point s i Arrived" "lm_requests s' ! i = Waiting"
  shows "0 < limit \<and> \<not> has_room limit s"
  using assms by (elim limiter_stepE) (auto simp: at_point_def nth_list_update split: if_splits)

text \<open>
  C28. The cap holds.  However requests arrive, wait, hang up and return: with a positive limit, at most
  \<^verbatim>\<open>limit\<close> of them are in the limited handler at once, the semaphore holds one token for each of them
  and none besides, and a request that finds a free slot is admitted without waiting.  With a limit of 0
  or less there is no cap: every request that arrives can enter at once, however many run, and none ever
  waits or is turned away.
\<close>

theorem limiter_caps:
  assumes "limiter_reachable limit s"
  shows "if limit \<le> 0
    then list_all (\<lambda>p. p \<in> {Arrived, Running, Done Slot}) (lm_requests s)
      \<and> (\<forall>i. at_point s i Arrived \<longrightarrow> limiter_step limit s (move i Running (lm_sem s) s))
    else int (running s) \<le> limit \<and> lm_sem s = running s
      \<and> (int (running s) < limit \<longrightarrow> (\<forall>i. at_point s i Arrived \<longrightarrow>
          limiter_step limit s (move i Running (Suc (lm_sem s)) s)
          \<and> \<not> limiter_step limit s (move i Waiting (lm_sem s) s)))"
proof (cases "limit \<le> 0")
  case True
  then show ?thesis
    using reachable_limiter_ok[OF assms] limiter_step.no_cap[of limit s]
    by (auto simp: limiter_ok_def let_in_def[abs_def])
next
  case False
  then have ok: "lm_sem s = running s" "int (running s) \<le> limit"
    using reachable_limiter_ok[OF assms] by (simp_all add: limiter_ok_def)
  have "\<not> limiter_step limit s (move i Waiting (lm_sem s) s)"
    if "int (running s) < limit" "at_point s i Arrived" for i
    using only_waits_when_full[of limit s "move i Waiting (lm_sem s) s" i] that ok
    by (auto simp: has_room_def at_point_def)
  moreover have "limiter_step limit s (move i Running (Suc (lm_sem s)) s)"
    if "int (running s) < limit" "at_point s i Arrived" for i
    using that ok False by (intro limiter_step.at_once) (simp_all add: has_room_def)
  ultimately show ?thesis using ok False by simp
qed

theorem limiter_caps_witness:
  "running \<lparr>lm_sem = 1, lm_requests = [Running, Waiting]\<rparr> \<le> 1"
proof -
  let ?s = "\<lparr>lm_sem = 0, lm_requests = [Arrived]\<rparr>" and ?t = "\<lparr>lm_sem = 1, lm_requests = [Running, Arrived]\<rparr>"
  have "limiter_reachable 1 ?s" using limiter_reachable.arrive[OF limiter_reachable.idle] by simp
  then have "limiter_reachable 1 \<lparr>lm_sem = 1, lm_requests = [Running]\<rparr>"
    using limiter_reachable.step limiter_step.at_once[of 1 ?s 0] by (fastforce simp: has_room_def move_def at_point_def)
  then have "limiter_reachable 1 ?t" using limiter_reachable.arrive by fastforce
  then have "limiter_reachable 1 \<lparr>lm_sem = 1, lm_requests = [Running, Waiting]\<rparr>"
    using limiter_reachable.step limiter_step.must_wait[of 1 ?t 1] by (fastforce simp: has_room_def move_def at_point_def)
  then show ?thesis using limiter_caps[of 1] by simp
qed

section \<open>Every request is decided\<close>

fun steps_left :: "phase \<Rightarrow> nat" where
  "steps_left Arrived = 3"
| "steps_left Waiting = 2"
| "steps_left Running = 1"
| "steps_left (Done _) = 0"

definition work :: "limiter \<Rightarrow> nat" where
  "work s = sum_list (map steps_left (lm_requests s))"

lemma sum_update:
  "i < length xs \<Longrightarrow> sum_list (map f (xs[i := p])) + f (xs ! i) = sum_list (map f xs) + (f p :: nat)"
proof (induction xs arbitrary: i)
  case (Cons x xs)
  then show ?case by (cases i) auto
qed simp

lemma work_move_less:
  "i < length (lm_requests s) \<Longrightarrow> steps_left p < steps_left (lm_requests s ! i) \<Longrightarrow> work (move i p n s) < work s"
  using sum_update[of i "lm_requests s" steps_left p] by (simp add: work_def)

lemma step_work: "limiter_step limit s s' \<Longrightarrow> work s' < work s"
  by (elim limiter_stepE) (simp_all add: at_point_def work_move_less)

definition decided :: "phase \<Rightarrow> bool" where
  "decided p \<longleftrightarrow> (case p of Done _ \<Rightarrow> True | _ \<Rightarrow> False)"

lemma waiting_capped: "limiter_ok limit s \<Longrightarrow> at_point s i Waiting \<Longrightarrow> 0 < limit"
  by (auto simp: limiter_ok_def at_point_def list_all_length let_in_def split: if_splits)

lemma step_enabled:
  assumes "limiter_ok limit s" "\<not> list_all decided (lm_requests s)"
  shows "\<exists>s'. limiter_step limit s s'"
proof -
  obtain i where i: "i < length (lm_requests s)" "\<not> decided (lm_requests s ! i)"
    using assms(2) by (auto simp: list_all_length)
  show ?thesis
  proof (cases "lm_requests s ! i")
    case Arrived
    then have "at_point s i Arrived" using i by (simp add: at_point_def)
    then show ?thesis using limiter_step.no_cap limiter_step.at_once limiter_step.must_wait by (metis not_le)
  next
    case Waiting
    then have "0 < limit" "at_point s i Waiting"
      using waiting_capped[OF assms(1)] i by (auto simp: at_point_def)
    then show ?thesis using limiter_step.wait_over by blast
  next
    case Running
    then have "at_point s i Running" using i by (simp add: at_point_def)
    then show ?thesis using limiter_step.no_cap_returned limiter_step.returned by (metis not_le)
  next
    case (Done a)
    then show ?thesis using i by (simp add: decided_def)
  qed
qed

lemma runs_bounded: "(limiter_step limit ^^ n) s s' \<Longrightarrow> n + work s' \<le> work s"
proof (induction n arbitrary: s')
  case (Suc n)
  then obtain t where "(limiter_step limit ^^ n) s t" "limiter_step limit t s'" by auto
  then show ?case using Suc.IH[of t] step_work[of limit t s'] by simp
qed simp

text \<open>
  C29. Nobody waits for ever and no slot leaks.  From any reachable state, as long as nobody new
  arrives, every run is at most three steps per request long, and a run that cannot go on has decided
  every request, admitted, refused or given up, with the semaphore empty again.
\<close>

theorem limiter_terminates:
  assumes "limiter_reachable limit s" "(limiter_step limit ^^ n) s s'"
  shows "n \<le> 3 * length (lm_requests s)
    \<and> ((\<forall>t. \<not> limiter_step limit s' t) \<longrightarrow> list_all decided (lm_requests s') \<and> lm_sem s' = 0)"
proof (intro conjI impI)
  have "steps_left p \<le> 3" for p by (cases p) simp_all
  then have "work s \<le> 3 * length (lm_requests s)"
    using sum_list_mono[of "lm_requests s" steps_left "\<lambda>_. 3"] by (simp add: work_def sum_list_triv)
  then show "n \<le> 3 * length (lm_requests s)" using runs_bounded[OF assms(2)] by simp
  assume "\<forall>t. \<not> limiter_step limit s' t"
  have "limiter_reachable limit s'"
    using assms(2,1) by (induction n arbitrary: s') (auto intro: limiter_reachable.step)
  then have ok: "limiter_ok limit s'" by (rule reachable_limiter_ok)
  then have d: "list_all decided (lm_requests s')" using step_enabled \<open>\<forall>t. \<not> limiter_step limit s' t\<close> by blast
  moreover have "running s' = 0"
    using d by (auto simp: running_def filter_empty_conv list_all_iff decided_def)
  ultimately show "list_all decided (lm_requests s')" "lm_sem s' = 0"
    using ok by (simp_all add: limiter_ok_def split: if_splits)
qed

theorem limiter_terminates_witness:
  "\<exists>n s. (limiter_step 1 ^^ n) \<lparr>lm_sem = 0, lm_requests = [Arrived]\<rparr> s \<and> n \<le> 3
     \<and> list_all decided (lm_requests s) \<and> lm_sem s = 0"
proof -
  let ?s = "\<lparr>lm_sem = 0, lm_requests = [Arrived]\<rparr>" and ?t = "\<lparr>lm_sem = 1, lm_requests = [Running]\<rparr>"
    and ?u = "\<lparr>lm_sem = 0, lm_requests = [Done Slot]\<rparr>"
  have first: "limiter_reachable 1 ?s" using limiter_reachable.arrive[OF limiter_reachable.idle] by simp
  have "limiter_step 1 ?s ?t" using limiter_step.at_once[of 1 ?s 0] by (simp add: has_room_def move_def at_point_def)
  moreover have "limiter_step 1 ?t ?u" using limiter_step.returned[of 1 ?t 0] by (simp add: move_def at_point_def)
  ultimately have run: "(limiter_step 1 ^^ 2) ?s ?u" by (auto simp: numeral_2_eq_2)
  have "\<not> limiter_step 1 ?u v" for v by (auto elim!: limiter_stepE simp: at_point_def)
  then show ?thesis using limiter_terminates[OF first run] run by (intro exI[of _ 2] exI[of _ ?u]) simp
qed

end
