(* ===== verification/Quota_Interleaving.thy ===== *)
theory Quota_Interleaving
  imports Service_Contracts
begin

text \<open>
  Concurrent requests against one database.  The transactions that insert a row some quota counts,
  \<^verbatim>\<open>colorsvc.AddColor\<close>, \<^verbatim>\<open>collectionsvc.CreateCollection\<close> and \<^verbatim>\<open>usersvc.CreateUser\<close> with its default
  collection, run statement by statement, interleaved with each other and with the writing statements
  of all other operations.  A statement sees what is committed; \<^verbatim>\<open>FOR UPDATE\<close> takes the lock of its
  row, or waits for it, and the lock is held until the transaction ends; a statement that would delete
  or update a locked row waits.  An insert into the unique index on \<^verbatim>\<open>nickname\<close> waits while another
  transaction has an uncommitted row with that key.  What a transaction wrote is visible when it commits.
\<close>

section \<open>Transactions in progress\<close>

datatype job =
    AddColorJob user_id clt_id hex | CreateCollectionJob user_id create_params | SignUpJob string bytes

text \<open>One transaction: what it is to do, when it starts, and the UUID that \<^verbatim>\<open>uuidv7()\<close> gives it.\<close>

record client =
  cl_job :: job
  cl_start :: timestamptz
  cl_uuid :: uuid

datatype row_lock = CollectionRow clt_id | UserRow user_id | NicknameKey string

datatype pending =
    NoRow | PendingColor color_row | PendingCollection collection_row | PendingAccount user_row collection_row

datatype answer = Created | AlreadySaved | Refused sentinel | Failed

text \<open>
  After \<^verbatim>\<open>BEGIN\<close>; after the lock; after the count; or, signing up, with an id drawn from the sequence
  and then with the account inserted; after the last statement; at the end.
\<close>

datatype tx = Start | Begun | Held | Counted int | Drawn user_id | Inserted user_row | Written pending answer | Over answer

record shop =
  sh_world :: world
  sh_locks :: "row_lock \<Rightarrow> nat option"
  sh_tx :: "nat \<Rightarrow> tx"

fun lock_of :: "job \<Rightarrow> row_lock" where
  "lock_of (AddColorJob i c h) = CollectionRow c"
| "lock_of (CreateCollectionJob i p) = UserRow i"
| "lock_of (SignUpJob nick hash) = NicknameKey (citext_key nick)"

text \<open>The services that lock a row and count against a quota before they insert.\<close>

fun counts :: "job \<Rightarrow> bool" where
  "counts (SignUpJob nick hash) = False"
| "counts _ = True"

text \<open>\<^verbatim>\<open>SELECT \<dots> FOR UPDATE\<close> finds its row; signing up has no such statement.\<close>

fun lock_finds :: "job \<Rightarrow> world \<Rightarrow> bool" where
  "lock_finds (AddColorJob i c h) w = (case fst (sql_collection c i w) of Inl _ \<Rightarrow> False | Inr _ \<Rightarrow> True)"
| "lock_finds (CreateCollectionJob i p) w = (case fst (sql_lock_user i w) of Inl _ \<Rightarrow> False | Inr _ \<Rightarrow> True)"
| "lock_finds (SignUpJob nick hash) w = False"

fun missing :: "job \<Rightarrow> sentinel" where
  "missing (AddColorJob i c h) = ErrNotFound"
| "missing (CreateCollectionJob i p) = ErrUserNotFound"
| "missing (SignUpJob nick hash) = ErrDuplicateNickname"

fun count_of :: "job \<Rightarrow> world \<Rightarrow> int" where
  "count_of (AddColorJob i c h) w = (case fst (sql_count_colors c w) of Inl _ \<Rightarrow> 0 | Inr n \<Rightarrow> n)"
| "count_of (CreateCollectionJob i p) w = (case fst (sql_count_collections i w) of Inl _ \<Rightarrow> 0 | Inr n \<Rightarrow> n)"
| "count_of (SignUpJob nick hash) w = 0"

text \<open>What follows the count: the quota, then the insert.\<close>

fun write_of :: "fenv \<Rightarrow> int \<Rightarrow> int \<Rightarrow> client \<Rightarrow> job \<Rightarrow> int \<Rightarrow> world \<Rightarrow> pending \<times> answer" where
  "write_of m qc qk cl (AddColorJob i c h) n w =
     (if n \<ge> qc then
        (case fst (sql_has_color c h w) of
           Inr True \<Rightarrow> (NoRow, AlreadySaved) | _ \<Rightarrow> (NoRow, Refused ColorErrQuotaFull))
      else
        (case fst (sql_insert_color c h (Feel m h) (cl_start cl) w) of
           Inl _ \<Rightarrow> (NoRow, Failed)
         | Inr k \<Rightarrow>
             if k = 1 then (PendingColor \<lparr>xr_collection_id = c, xr_hex = h, xr_created_at = cl_start cl,
               xr_color_key = Feel m h\<rparr>, Created)
             else (NoRow, AlreadySaved)))"
| "write_of m qc qk cl (CreateCollectionJob i p) n w =
     (if n \<ge> qk then (NoRow, Refused CollectionErrQuotaFull)
      else
        (case fst (sql_insert_collection (cl_uuid cl) (cl_start cl) i (p\<lparr>cp_IsDefault := False\<rparr>) w) of
           Inl _ \<Rightarrow> (NoRow, Failed)
         | Inr row \<Rightarrow> (PendingCollection row, Created)))"
| "write_of m qc qk cl (SignUpJob nick hash) n w = (NoRow, Failed)"

text \<open>The two inserts of signing up: the second one runs on top of the first one's row.\<close>

definition sign_up_user :: "client \<Rightarrow> string \<Rightarrow> bytes \<Rightarrow> user_id \<Rightarrow> world \<Rightarrow> user_row option" where
  "sign_up_user cl nick hash i w =
     (case fst (sql_insert_user (cl_start cl) nick hash (w\<lparr>w_next_user_id := i\<rparr>)) of
        Inl _ \<Rightarrow> None
      | Inr (j, ts) \<Rightarrow> Some \<lparr>ur_id = j, ur_nickname = nick, ur_password_hash = hash, ur_created_at = ts\<rparr>)"

definition default_collection :: create_params where
  "default_collection = \<lparr>cp_Name = DefCollectionName, cp_Icon = DefIconSlug, cp_Accent = DefIconAccent,
     cp_IsDefault = True\<rparr>"

definition with_user :: "user_row \<Rightarrow> world \<Rightarrow> world" where
  "with_user r w = w\<lparr>w_tables := (w_tables w)\<lparr>t_users := t_users (w_tables w) @ [r]\<rparr>\<rparr>"

definition sign_up_default :: "client \<Rightarrow> user_row \<Rightarrow> world \<Rightarrow> pending \<times> answer" where
  "sign_up_default cl r w =
     (case fst (sql_insert_collection (cl_uuid cl) (cl_start cl) (ur_id r) default_collection (with_user r w)) of
        Inl _ \<Rightarrow> (NoRow, Failed)
      | Inr row \<Rightarrow> (PendingAccount r row, Created))"

fun commit_row :: "pending \<Rightarrow> tables \<Rightarrow> tables" where
  "commit_row NoRow t = t"
| "commit_row (PendingColor r) t = t\<lparr>t_colors := t_colors t @ [r]\<rparr>"
| "commit_row (PendingCollection r) t = t\<lparr>t_collections := t_collections t @ [r]\<rparr>"
| "commit_row (PendingAccount u r) t = t\<lparr>t_users := t_users t @ [u], t_collections := t_collections t @ [r]\<rparr>"

definition goto :: "nat \<Rightarrow> tx \<Rightarrow> shop \<Rightarrow> shop" where
  "goto k p s = s\<lparr>sh_tx := (sh_tx s)(k := p)\<rparr>"

definition set_lock :: "row_lock \<Rightarrow> nat option \<Rightarrow> shop \<Rightarrow> shop" where
  "set_lock l v s = s\<lparr>sh_locks := (sh_locks s)(l := v)\<rparr>"

definition draw_id :: "shop \<Rightarrow> shop" where
  "draw_id s = s\<lparr>sh_world := (sh_world s)\<lparr>w_next_user_id := w_next_user_id (sh_world s) + 1\<rparr>\<rparr>"

text \<open>The transaction of \<^verbatim>\<open>k\<close> ends and what it wrote becomes visible.\<close>

definition commit_tx :: "(nat \<Rightarrow> client) \<Rightarrow> nat \<Rightarrow> pending \<Rightarrow> answer \<Rightarrow> shop \<Rightarrow> shop" where
  "commit_tx cls k p a s = set_lock (lock_of (cl_job (cls k))) None (goto k (Over a)
     (s\<lparr>sh_world := (sh_world s)\<lparr>w_tables := commit_row p (w_tables (sh_world s))\<rparr>\<rparr>))"

fun inside :: "tx \<Rightarrow> bool" where
  "inside Held = True"
| "inside (Counted _) = True"
| "inside (Inserted _) = True"
| "inside (Written _ _) = True"
| "inside _ = False"

text \<open>
  The other statements that write, each with the rows it must be able to lock.  Deleting a user
  takes the user's collections along.
\<close>

datatype other =
    DeleteUserStmt user_id | DeleteCollectionStmt clt_id user_id | UpdateCollectionStmt clt_id user_id update_params
  | DeleteColorStmt clt_id hex | DeleteAllColorsStmt clt_id
  | InsertTokenStmt bytes user_id timestamptz | DeleteTokenStmt bytes

fun run_other :: "other \<Rightarrow> world \<Rightarrow> world" where
  "run_other (DeleteUserStmt i) w = snd (sql_delete_user i w)"
| "run_other (DeleteCollectionStmt c i) w = snd (sql_delete_collection c i w)"
| "run_other (UpdateCollectionStmt c i p) w = snd (sql_update_collection c i p w)"
| "run_other (DeleteColorStmt c h) w = snd (sql_delete_color c h w)"
| "run_other (DeleteAllColorsStmt c) w = snd (sql_delete_all_colors c w)"
| "run_other (InsertTokenStmt h i ex) w = snd (sql_insert_token h i ex w)"
| "run_other (DeleteTokenStmt h) w = snd (sql_delete_token h w)"

fun touches :: "other \<Rightarrow> tables \<Rightarrow> row_lock \<Rightarrow> bool" where
  "touches (DeleteUserStmt i) t l =
     ((\<exists>r \<in> set (t_users t). ur_id r = i \<and> l = UserRow i)
      \<or> (\<exists>r \<in> set (t_collections t). cr_user_id r = i \<and> l = CollectionRow (cr_id r)))"
| "touches (DeleteCollectionStmt c i) t l =
     (\<exists>r \<in> set (t_collections t). cr_id r = c \<and> cr_user_id r = i \<and> l = CollectionRow c)"
| "touches (UpdateCollectionStmt c i p) t l =
     (\<exists>r \<in> set (t_collections t). cr_id r = c \<and> cr_user_id r = i \<and> l = CollectionRow c)"
| "touches _ t l = False"

text \<open>The next statement of transaction \<^verbatim>\<open>k\<close>, with the connection up.\<close>

inductive advance :: "(nat \<Rightarrow> client) \<Rightarrow> fenv \<Rightarrow> int \<Rightarrow> int \<Rightarrow> nat \<Rightarrow> shop \<Rightarrow> shop \<Rightarrow> bool" for cls m qc qk k where
  begin_tx: "sh_tx s k = Start \<Longrightarrow> advance cls m qc qk k s (goto k Begun s)"
| lock_row: "sh_tx s k = Begun \<Longrightarrow> counts (cl_job (cls k)) \<Longrightarrow> lock_finds (cl_job (cls k)) (sh_world s)
    \<Longrightarrow> sh_locks s (lock_of (cl_job (cls k))) = None
    \<Longrightarrow> advance cls m qc qk k s (set_lock (lock_of (cl_job (cls k))) (Some k) (goto k Held s))"
| no_row: "sh_tx s k = Begun \<Longrightarrow> counts (cl_job (cls k)) \<Longrightarrow> \<not> lock_finds (cl_job (cls k)) (sh_world s)
    \<Longrightarrow> advance cls m qc qk k s (goto k (Over (Refused (missing (cl_job (cls k))))) s)"
| count: "sh_tx s k = Held \<Longrightarrow> advance cls m qc qk k s (goto k (Counted (count_of (cl_job (cls k)) (sh_world s))) s)"
| insert_row: "sh_tx s k = Counted n \<Longrightarrow> write_of m qc qk (cls k) (cl_job (cls k)) n (sh_world s) = (p, a)
    \<Longrightarrow> advance cls m qc qk k s (goto k (Written p a) s)"
| next_id: "sh_tx s k = Begun \<Longrightarrow> \<not> counts (cl_job (cls k))
    \<Longrightarrow> advance cls m qc qk k s (goto k (Drawn (w_next_user_id (sh_world s))) (draw_id s))"
| nickname_taken: "sh_tx s k = Drawn i \<Longrightarrow> cl_job (cls k) = SignUpJob nick hash
    \<Longrightarrow> sign_up_user (cls k) nick hash i (sh_world s) = None
    \<Longrightarrow> advance cls m qc qk k s (goto k (Over (Refused ErrDuplicateNickname)) s)"
| insert_user: "sh_tx s k = Drawn i \<Longrightarrow> cl_job (cls k) = SignUpJob nick hash
    \<Longrightarrow> sign_up_user (cls k) nick hash i (sh_world s) = Some r \<Longrightarrow> sh_locks s (lock_of (cl_job (cls k))) = None
    \<Longrightarrow> advance cls m qc qk k s (set_lock (lock_of (cl_job (cls k))) (Some k) (goto k (Inserted r) s))"
| insert_default: "sh_tx s k = Inserted r \<Longrightarrow> sign_up_default (cls k) r (sh_world s) = (p, a)
    \<Longrightarrow> advance cls m qc qk k s (goto k (Written p a) s)"
| commit: "sh_tx s k = Written p a \<Longrightarrow> advance cls m qc qk k s (commit_tx cls k p a s)"

text \<open>
  What can happen next: a transaction advances, is cut off and rolled back, or commits without its
  client hearing of it; or some other statement runs.
\<close>

inductive tx_step :: "(nat \<Rightarrow> client) \<Rightarrow> fenv \<Rightarrow> int \<Rightarrow> int \<Rightarrow> shop \<Rightarrow> shop \<Rightarrow> bool" for cls m qc qk where
  advances: "advance cls m qc qk k s s' \<Longrightarrow> tx_step cls m qc qk s s'"
| roll_back: "inside (sh_tx s k)
    \<Longrightarrow> tx_step cls m qc qk s (set_lock (lock_of (cl_job (cls k))) None (goto k (Over Failed) s))"
| unheard: "sh_tx s k = Written p a \<Longrightarrow> tx_step cls m qc qk s (commit_tx cls k p Failed s)"
| other: "\<forall>l. touches st (w_tables (sh_world s)) l \<longrightarrow> sh_locks s l = None
    \<Longrightarrow> tx_step cls m qc qk s (s\<lparr>sh_world := run_other st (sh_world s)\<rparr>)"

text \<open>Nobody has begun.\<close>

definition nobody_yet :: "world \<Rightarrow> shop" where
  "nobody_yet w = \<lparr>sh_world = w, sh_locks = (\<lambda>_. None), sh_tx = (\<lambda>_. Start)\<rparr>"

inductive interleaved :: "(nat \<Rightarrow> client) \<Rightarrow> fenv \<Rightarrow> int \<Rightarrow> int \<Rightarrow> world \<Rightarrow> shop \<Rightarrow> bool" for cls m qc qk w where
  start: "interleaved cls m qc qk w (nobody_yet w)"
| step: "interleaved cls m qc qk w s \<Longrightarrow> tx_step cls m qc qk s s' \<Longrightarrow> interleaved cls m qc qk w s'"

section \<open>The invariant\<close>

lemma shop_simps [simp]:
  "sh_world (goto k p s) = sh_world s" "sh_locks (goto k p s) = sh_locks s" "sh_tx (goto k p s) = (sh_tx s)(k := p)"
  "sh_world (set_lock l v s) = sh_world s" "sh_tx (set_lock l v s) = sh_tx s"
  "sh_locks (set_lock l v s) = (sh_locks s)(l := v)"
  "sh_locks (draw_id s) = sh_locks s" "sh_tx (draw_id s) = sh_tx s"
  "w_tables (sh_world (draw_id s)) = w_tables (sh_world s)"
  "w_next_user_id (sh_world (draw_id s)) = w_next_user_id (sh_world s) + 1"
  "sh_locks (commit_tx cls k r a s) = (sh_locks s)(lock_of (cl_job (cls k)) := None)"
  "sh_tx (commit_tx cls k r a s) = (sh_tx s)(k := Over a)"
  "w_next_user_id (sh_world (commit_tx cls k r a s)) = w_next_user_id (sh_world s)"
  "w_tables (sh_world (commit_tx cls k r a s)) = commit_row r (w_tables (sh_world s))"
  "sh_world (nobody_yet w) = w" "sh_locks (nobody_yet w) l = None" "sh_tx (nobody_yet w) k = Start"
  by (simp_all add: goto_def set_lock_def draw_id_def commit_tx_def nobody_yet_def)

subsection \<open>Locks\<close>

definition locks_ok :: "(nat \<Rightarrow> client) \<Rightarrow> shop \<Rightarrow> bool" where
  "locks_ok cls s \<longleftrightarrow> (\<forall>k. inside (sh_tx s k) \<longrightarrow> sh_locks s (lock_of (cl_job (cls k))) = Some k)"

lemma one_holder:
  assumes "locks_ok cls s" "inside (sh_tx s k)" "inside (sh_tx s k')"
    and "lock_of (cl_job (cls k)) = lock_of (cl_job (cls k'))"
  shows "k = k'"
proof -
  have "sh_locks s (lock_of (cl_job (cls k))) = Some k" "sh_locks s (lock_of (cl_job (cls k'))) = Some k'"
    using assms(1-3) by (simp_all add: locks_ok_def)
  then have "Some k = Some k'" unfolding assms(4) by (rule trans[OF sym])
  then show ?thesis by (rule option.inject[THEN iffD1])
qed

text \<open>The transaction of \<^verbatim>\<open>k\<close> ends and its lock is free.\<close>

lemma locks_ok_release:
  assumes "locks_ok cls s" "inside (sh_tx s k)" "\<not> inside p"
    and "sh_tx s' = (sh_tx s)(k := p)" "sh_locks s' = (sh_locks s)(lock_of (cl_job (cls k)) := None)"
  shows "locks_ok cls s'"
proof -
  have "lock_of (cl_job (cls k')) \<noteq> lock_of (cl_job (cls k))" if "k' \<noteq> k" "inside (sh_tx s k')" for k'
    using one_holder[OF assms(1) that(2) assms(2)] that(1) by blast
  then show ?thesis using assms by (auto simp: locks_ok_def)
qed

lemma advance_locks: "advance cls m qc qk k s s' \<Longrightarrow> locks_ok cls s \<Longrightarrow> locks_ok cls s'"
proof (induction rule: advance.induct)
  case (commit s p a)
  then show ?case by (intro locks_ok_release[OF commit.prems, of k "Over a"]) simp_all
qed (auto simp: locks_ok_def)

lemma tx_step_locks: "tx_step cls m qc qk s s' \<Longrightarrow> locks_ok cls s \<Longrightarrow> locks_ok cls s'"
proof (induction rule: tx_step.induct)
  case (advances k s s')
  then show ?case using advance_locks by blast
next
  case (roll_back s k)
  then show ?case by (intro locks_ok_release[OF roll_back.prems, of k "Over Failed"]) simp_all
next
  case (unheard s k p a)
  then show ?case by (intro locks_ok_release[OF unheard.prems, of k "Over Failed"]) simp_all
next
  case (other st s)
  then show ?case by (simp add: locks_ok_def)
qed

subsection \<open>Accounts\<close>

text \<open>The id that a sign-up in progress has drawn, and the account that it has inserted.\<close>

fun new_account :: "tx \<Rightarrow> user_id option" where
  "new_account (Inserted r) = Some (ur_id r)"
| "new_account (Written (PendingAccount r c) a) = Some (ur_id r)"
| "new_account _ = None"

fun drawn :: "tx \<Rightarrow> user_id option" where
  "drawn (Drawn i) = Some i"
| "drawn p = new_account p"

definition accounts :: "shop \<Rightarrow> user_id set" where
  "accounts s = ur_id ` set (t_users (w_tables (sh_world s)))"

definition ids_ok :: "shop \<Rightarrow> bool" where
  "ids_ok s \<longleftrightarrow> (\<forall>k i. drawn (sh_tx s k) = Some i \<longrightarrow> i < w_next_user_id (sh_world s))
     \<and> (\<forall>k k' i. drawn (sh_tx s k) = Some i \<and> drawn (sh_tx s k') = Some i \<longrightarrow> k = k')
     \<and> (\<forall>k i. new_account (sh_tx s k) = Some i \<longrightarrow> i \<notin> accounts s)"

lemma new_account_drawn: "new_account p = Some i \<Longrightarrow> drawn p = Some i"
  by (cases p) simp_all

lemma ids_ok_keep:
  assumes "ids_ok s" "sh_tx s' = (sh_tx s)(k := p)" "accounts s' \<subseteq> accounts s"
    and "w_next_user_id (sh_world s') = w_next_user_id (sh_world s)"
    and "drawn p = None \<or> drawn p = drawn (sh_tx s k)" "\<And>i. new_account p = Some i \<Longrightarrow> i \<notin> accounts s"
  shows "ids_ok s'"
proof -
  have "drawn (sh_tx s' k') = None \<or> drawn (sh_tx s' k') = drawn (sh_tx s k')" for k'
    using assms(2,5) by auto
  moreover have "i \<notin> accounts s'" if "new_account (sh_tx s' k') = Some i" for k' i
    using assms(1-3,6) that unfolding ids_ok_def by (auto split: if_splits)
  ultimately show ?thesis using assms(1,4) unfolding ids_ok_def by (metis option.distinct(1))
qed

lemma ids_ok_commit:
  assumes "ids_ok s" "sh_tx s k = Written p b"
  shows "ids_ok (commit_tx cls k p a s)"
proof -
  have "accounts (commit_tx cls k p a s) = accounts s \<union> set_option (new_account (Written p b))"
    by (cases p) (auto simp: accounts_def)
  moreover have "\<And>k' i. new_account (sh_tx s k') = Some i \<Longrightarrow> new_account (Written p b) = Some i \<Longrightarrow> k' = k"
    using assms new_account_drawn unfolding ids_ok_def by metis
  ultimately show ?thesis using assms(1) unfolding ids_ok_def by (auto split: if_splits)
qed

lemma sign_up_user_id:
  "sign_up_user cl nick hash i w = Some r \<Longrightarrow> ur_id r = i \<and> i \<notin> ur_id ` set (t_users (w_tables w))"
  by (auto simp: sign_up_user_def sql_insert_user_def Let_def split: if_splits)

lemma sign_up_default_row:
  "sign_up_default cl r w = (p, a) \<Longrightarrow> p = NoRow \<or> (\<exists>c. p = PendingAccount r c \<and> cr_user_id c = ur_id r)"
  by (auto simp: sign_up_default_def sql_insert_collection_def Let_def split: if_splits)

lemma write_no_account: "write_of m qc qk cl j n w = (p, a) \<Longrightarrow> new_account (Written p a) = None"
  by (cases j) (auto split: if_splits sum.splits bool.splits)

lemma advance_ids: "advance cls m qc qk k s s' \<Longrightarrow> ids_ok s \<Longrightarrow> ids_ok s'"
proof (induction rule: advance.induct)
  case (insert_row s n p a)
  then show ?case
    using write_no_account[OF insert_row.hyps(2)] by (intro ids_ok_keep[OF insert_row.prems]) (auto simp: accounts_def)
next
  case (next_id s)
  then show ?case unfolding ids_ok_def by (force simp: accounts_def split: if_splits)
next
  case (insert_user s i nick hash r)
  then show ?case
    using sign_up_user_id[OF insert_user.hyps(3)] by (intro ids_ok_keep[OF insert_user.prems]) (auto simp: accounts_def)
next
  case (insert_default s r p a)
  have "ur_id r \<notin> accounts s" using insert_default unfolding ids_ok_def by (metis new_account.simps(1))
  then show ?case
    using sign_up_default_row[OF insert_default.hyps(2)] insert_default.hyps(1)
    by (intro ids_ok_keep[OF insert_default.prems]) (auto simp: accounts_def)
next
  case (commit s p a)
  then show ?case by (intro ids_ok_commit)
qed (auto intro: ids_ok_keep simp: accounts_def)

lemma run_other_next [simp]: "w_next_user_id (run_other st w) = w_next_user_id w"
  by (cases st) (simp_all add: sql_delete_user_def sql_insert_token_def sql_delete_token_def
      sql_update_collection_def sql_delete_collection_def sql_delete_color_def sql_delete_all_colors_def
      Let_def split: option.split)

lemma run_other_users:
  "set (t_users (w_tables (run_other st w))) \<subseteq> set (t_users (w_tables w))"
  by (cases st) (auto simp: sql_delete_user_def cascade_user_def sql_insert_token_def sql_delete_token_def
      sql_update_collection_def sql_delete_collection_def sql_delete_color_def sql_delete_all_colors_def
      Let_def split: option.split)

lemma tx_step_ids: "tx_step cls m qc qk s s' \<Longrightarrow> ids_ok s \<Longrightarrow> ids_ok s'"
proof (induction rule: tx_step.induct)
  case (advances k s s')
  then show ?case using advance_ids by blast
next
  case (roll_back s k)
  then show ?case by (intro ids_ok_keep[OF roll_back.prems]) (auto simp: accounts_def)
next
  case (unheard s k p a)
  then show ?case by (intro ids_ok_commit)
next
  case (other st s)
  have "new_account (sh_tx s 0) = Some i \<Longrightarrow> i \<notin> accounts s" for i using other.prems unfolding ids_ok_def by blast
  then show ?case
    using run_other_users[of st "sh_world s"]
    by (intro ids_ok_keep[OF other.prems, of _ 0 "sh_tx s 0"]) (auto simp: accounts_def)
qed

subsection \<open>Owners\<close>

text \<open>
  Every collection has its account, also the collection that a transaction is about to add: the
  account's row is locked, so it cannot be deleted meanwhile.
\<close>

fun owner :: "job \<Rightarrow> user_id option" where
  "owner (CreateCollectionJob i p) = Some i"
| "owner _ = None"

definition owners_ok :: "(nat \<Rightarrow> client) \<Rightarrow> shop \<Rightarrow> bool" where
  "owners_ok cls s \<longleftrightarrow> cr_user_id ` set (t_collections (w_tables (sh_world s))) \<subseteq> accounts s
     \<and> (\<forall>k i. inside (sh_tx s k) \<and> owner (cl_job (cls k)) = Some i \<longrightarrow> i \<in> accounts s)"

text \<open>What each transaction may write.\<close>

fun own_row :: "job \<Rightarrow> pending \<Rightarrow> bool" where
  "own_row j NoRow = True"
| "own_row (AddColorJob i c h) (PendingColor r) = (xr_collection_id r = c)"
| "own_row (CreateCollectionJob i p) (PendingCollection r) = (cr_user_id r = i)"
| "own_row (SignUpJob nick hash) (PendingAccount u r) = (cr_user_id r = ur_id u)"
| "own_row _ _ = False"

fun phase_of :: "job \<Rightarrow> tx \<Rightarrow> bool" where
  "phase_of j Held = counts j"
| "phase_of j (Counted n) = counts j"
| "phase_of j (Drawn i) = (\<not> counts j)"
| "phase_of j (Inserted r) = (\<not> counts j)"
| "phase_of j (Written p a) = own_row j p"
| "phase_of j p = True"

definition phases_ok :: "(nat \<Rightarrow> client) \<Rightarrow> shop \<Rightarrow> bool" where
  "phases_ok cls s \<longleftrightarrow> (\<forall>k. phase_of (cl_job (cls k)) (sh_tx s k))"

lemma write_own_row: "write_of m qc qk cl j n w = (p, a) \<Longrightarrow> own_row j p"
  by (cases j) (auto simp: sql_insert_collection_def Let_def split: if_splits sum.splits bool.splits)

lemma default_own_row:
  "sign_up_default cl r w = (p, a) \<Longrightarrow> \<not> counts j \<Longrightarrow> own_row j p"
  using sign_up_default_row[of cl r w p a] by (cases j) auto

lemma advance_phases: "advance cls m qc qk k s s' \<Longrightarrow> phases_ok cls s \<Longrightarrow> phases_ok cls s'"
proof (induction rule: advance.induct)
  case (count s)
  then have "counts (cl_job (cls k))" unfolding phases_ok_def by (metis phase_of.simps(1))
  then show ?case using count by (auto simp: phases_ok_def)
next
  case (insert_default s r p a)
  then have "\<not> counts (cl_job (cls k))" unfolding phases_ok_def by (metis phase_of.simps(4))
  then show ?case using insert_default default_own_row by (auto simp: phases_ok_def)
qed (auto simp: phases_ok_def write_own_row)

lemma tx_step_phases: "tx_step cls m qc qk s s' \<Longrightarrow> phases_ok cls s \<Longrightarrow> phases_ok cls s'"
  by (induction rule: tx_step.induct) (auto simp: advance_phases, auto simp: phases_ok_def)

lemma owners_ok_keep:
  assumes "owners_ok cls s" "w_tables (sh_world s') = w_tables (sh_world s)" "sh_tx s' = (sh_tx s)(k := p)"
    and "inside p \<longrightarrow> inside (sh_tx s k) \<or> owner (cl_job (cls k)) = None"
  shows "owners_ok cls s'"
  using assms unfolding owners_ok_def accounts_def by (auto split: if_splits)

lemma owners_ok_commit:
  assumes "owners_ok cls s" "sh_tx s k = Written p b" "own_row (cl_job (cls k)) p"
  shows "owners_ok cls (commit_tx cls k p a s)"
proof -
  have "inside (sh_tx s k)" using assms(2) by simp
  then have "cr_user_id r \<in> accounts s" if "p = PendingCollection r" for r
    using assms(1,3) that unfolding owners_ok_def by (cases "cl_job (cls k)") fastforce+
  moreover have "cr_user_id r = ur_id u" if "p = PendingAccount u r" for u r
    using assms(3) that by (cases "cl_job (cls k)") auto
  ultimately show ?thesis
    using assms(1) unfolding owners_ok_def accounts_def by (cases p) (auto split: if_splits)
qed

lemma advance_owners:
  assumes "advance cls m qc qk k s s'" "owners_ok cls s" "phases_ok cls s"
  shows "owners_ok cls s'"
  using assms
proof (induction rule: advance.induct)
  case (lock_row s)
  have "owner (cl_job (cls k)) = Some i \<Longrightarrow> i \<in> accounts s" for i
    using lock_row.hyps(3) by (cases "cl_job (cls k)") (auto simp: accounts_def sql_lock_user_def split: if_splits)
  then show ?case using lock_row.prems unfolding owners_ok_def accounts_def by (auto split: if_splits)
next
  case (insert_user s i nick hash r)
  then show ?case by (intro owners_ok_keep[OF insert_user.prems(1), of _ k "Inserted r"]) simp_all
next
  case (commit s p a)
  have "own_row (cl_job (cls k)) p" using commit unfolding phases_ok_def by (metis phase_of.simps(5))
  then show ?case using owners_ok_commit[OF commit.prems(1) commit.hyps] by simp
qed (auto intro: owners_ok_keep)

lemma run_other_owners:
  assumes "cr_user_id ` set (t_collections (w_tables w)) \<subseteq> ur_id ` set (t_users (w_tables w))"
  shows "cr_user_id ` set (t_collections (w_tables (run_other st w))) \<subseteq> ur_id ` set (t_users (w_tables (run_other st w)))"
  using assms
  by (cases st) (auto simp: sql_delete_user_def cascade_user_def sql_insert_token_def sql_delete_token_def
      sql_update_collection_def sql_delete_collection_def sql_delete_color_def sql_delete_all_colors_def
      update_rows_def Let_def split: option.split)

lemma run_other_keeps_user:
  assumes "i \<in> ur_id ` set (t_users (w_tables w))" "\<not> touches st (w_tables w) (UserRow i)"
  shows "i \<in> ur_id ` set (t_users (w_tables (run_other st w)))"
  using assms
  by (cases st) (auto simp: sql_delete_user_def cascade_user_def sql_insert_token_def sql_delete_token_def
      sql_update_collection_def sql_delete_collection_def sql_delete_color_def sql_delete_all_colors_def
      Let_def split: option.split)

lemma lock_of_owner: "owner j = Some i \<Longrightarrow> lock_of j = UserRow i"
  by (cases j) simp_all

lemma tx_step_owners:
  assumes "tx_step cls m qc qk s s'" "owners_ok cls s" "phases_ok cls s" "locks_ok cls s"
  shows "owners_ok cls s'"
  using assms
proof (induction rule: tx_step.induct)
  case (advances k s s')
  then show ?case using advance_owners by blast
next
  case (roll_back s k)
  then show ?case by (intro owners_ok_keep[OF roll_back.prems(1), of _ k "Over Failed"]) simp_all
next
  case (unheard s k p a)
  have "own_row (cl_job (cls k)) p" using unheard unfolding phases_ok_def by (metis phase_of.simps(5))
  then show ?case using owners_ok_commit[OF unheard.prems(1) unheard.hyps] by simp
next
  case (other st s)
  have "i \<in> ur_id ` set (t_users (w_tables (run_other st (sh_world s))))"
    if "inside (sh_tx s k)" "owner (cl_job (cls k)) = Some i" for k i
  proof (rule run_other_keeps_user)
    show "i \<in> ur_id ` set (t_users (w_tables (sh_world s)))"
      using other.prems(1) that unfolding owners_ok_def accounts_def by blast
    have "sh_locks s (UserRow i) = Some k"
      using other.prems(3) that lock_of_owner[OF that(2)] unfolding locks_ok_def by metis
    then show "\<not> touches st (w_tables (sh_world s)) (UserRow i)" using other.hyps by (metis option.distinct(1))
  qed
  then show ?case
    using other.prems(1) run_other_owners[of "sh_world s" st] unfolding owners_ok_def accounts_def by auto
qed

subsection \<open>Counts\<close>

text \<open>How many rows a quota counts; at most the limit, and less when one more is on its way.\<close>

fun room :: "int \<Rightarrow> int \<Rightarrow> job \<Rightarrow> int" where
  "room qc qk (AddColorJob i c h) = qc"
| "room qc qk (CreateCollectionJob i p) = qk"
| "room qc qk (SignUpJob nick hash) = 1"

definition tx_ok :: "int \<Rightarrow> int \<Rightarrow> job \<Rightarrow> world \<Rightarrow> tx \<Rightarrow> bool" where
  "tx_ok qc qk j w p = (case p of
       Counted n \<Rightarrow> count_of j w \<le> n
     | Written r _ \<Rightarrow> r \<noteq> NoRow \<longrightarrow> count_of j w < room qc qk j
     | _ \<Rightarrow> True)"

definition counts_ok :: "(nat \<Rightarrow> client) \<Rightarrow> int \<Rightarrow> int \<Rightarrow> shop \<Rightarrow> bool" where
  "counts_ok cls qc qk s \<longleftrightarrow> quota_ok qc qk (w_tables (sh_world s))
     \<and> (\<forall>k. tx_ok qc qk (cl_job (cls k)) (sh_world s) (sh_tx s k))"

lemma count_of_eq:
  "count_of (AddColorJob i c h) w = int (length (colors_of c (w_tables w)))"
  "count_of (CreateCollectionJob i p) w = int (length (collections_of i (w_tables w)))"
  "count_of (SignUpJob nick hash) w = 0"
  by (simp_all add: sql_count_colors_def sql_count_collections_def collections_of_def)

text \<open>No other statement adds a counted row.\<close>

lemma run_other_shrinks:
  "length (colors_of c (w_tables (run_other st w))) \<le> length (colors_of c (w_tables w))"
  "length (collections_of i (w_tables (run_other st w))) \<le> length (collections_of i (w_tables w))"
  by (cases st; simp add: sql_delete_user_def cascade_user_def sql_insert_token_def sql_delete_token_def
      sql_update_collection_def sql_delete_collection_def sql_delete_color_def sql_delete_all_colors_def
      colors_of_def collections_of_def length_filter_and length_filter_update_rows Let_def
      del: filter_filter split: option.split)+

lemma run_other_counts: "count_of j (run_other st w) \<le> count_of j w"
  using run_other_shrinks by (cases j) (simp_all add: count_of_eq del: count_of.simps(1,2))

lemma run_other_quota: "quota_ok qc qk (w_tables w) \<Longrightarrow> quota_ok qc qk (w_tables (run_other st w))"
  unfolding quota_ok_def using run_other_shrinks by (meson of_nat_mono order_trans)

lemma tx_ok_shrinks: "tx_ok qc qk j w p \<Longrightarrow> count_of j w' \<le> count_of j w \<Longrightarrow> tx_ok qc qk j w' p"
  by (auto simp: tx_ok_def simp del: count_of.simps(1,2) split: tx.split)

lemma count_of_tables: "w_tables w' = w_tables w \<Longrightarrow> count_of j w' = count_of j w"
  by (cases j) (simp_all add: count_of_eq del: count_of.simps(1,2))

text \<open>
  A committed row counts for the transactions with its lock only, and there is one of those; the
  default collection of a new account counts for nobody, since nobody holds that account's row.
\<close>

lemma commit_counts:
  assumes "own_row j p" "lock_of j' \<noteq> lock_of j"
    and "\<And>u r. p = PendingAccount u r \<Longrightarrow> owner j' \<noteq> Some (ur_id u)"
  shows "count_of j' (w\<lparr>w_tables := commit_row p (w_tables w)\<rparr>) = count_of j' w"
  using assms
  by (cases p; cases j; cases j') (auto simp: sql_count_colors_def sql_count_collections_def colors_of_def)

lemma commit_quota:
  assumes "quota_ok qc qk (w_tables w)" "own_row j p" "p \<noteq> NoRow \<longrightarrow> count_of j w < room qc qk j" "1 \<le> qk"
    and "\<And>u r. p = PendingAccount u r \<Longrightarrow> ur_id u \<notin> cr_user_id ` set (t_collections (w_tables w))"
  shows "quota_ok qc qk (commit_row p (w_tables w))"
proof (cases p)
  case (PendingAccount u r)
  then have "collections_of (ur_id u) (w_tables w) = []"
    using assms(5) by (force simp: collections_of_def filter_empty_conv)
  moreover have "cr_user_id r = ur_id u" using assms(2) PendingAccount by (cases j) auto
  ultimately show ?thesis
    using assms(1,4) PendingAccount by (auto simp: quota_ok_def colors_of_def collections_of_def)
qed (use assms(1-3) in \<open>cases j; force simp: quota_ok_def count_of_eq colors_of_def collections_of_def
  simp del: count_of.simps(1,2)\<close>)+

lemma write_room: "write_of m qc qk cl j n w = (p, a) \<Longrightarrow> p \<noteq> NoRow \<Longrightarrow> n < room qc qk j"
  by (cases j) (auto split: if_splits sum.splits bool.splits)

lemma counts_ok_keep:
  assumes "counts_ok cls qc qk s" "w_tables (sh_world s') = w_tables (sh_world s)" "sh_tx s' = (sh_tx s)(k := p)"
    and "tx_ok qc qk (cl_job (cls k)) (sh_world s) p"
  shows "counts_ok cls qc qk s'"
  using assms tx_ok_shrinks[of qc qk _ "sh_world s" _ "sh_world s'"] count_of_tables[OF assms(2)]
  by (simp add: counts_ok_def)

definition shop_ok :: "(nat \<Rightarrow> client) \<Rightarrow> int \<Rightarrow> int \<Rightarrow> shop \<Rightarrow> bool" where
  "shop_ok cls qc qk s \<longleftrightarrow> locks_ok cls s \<and> ids_ok s \<and> phases_ok cls s \<and> owners_ok cls s \<and> counts_ok cls qc qk s"

lemma counts_ok_commit:
  assumes "shop_ok cls qc qk s" "sh_tx s k = Written p b" "1 \<le> qk"
  shows "counts_ok cls qc qk (commit_tx cls k p a s)"
proof -
  let ?w = "(sh_world s)\<lparr>w_tables := commit_row p (w_tables (sh_world s))\<rparr>"
  let ?j = "\<lambda>k. cl_job (cls k)"
  note ok = assms(1)[unfolded shop_ok_def]
  have "phase_of (?j k) (sh_tx s k)" "tx_ok qc qk (?j k) (sh_world s) (sh_tx s k)"
    using ok by (simp_all add: phases_ok_def counts_ok_def)
  then have p: "own_row (?j k) p" "p \<noteq> NoRow \<longrightarrow> count_of (?j k) (sh_world s) < room qc qk (?j k)"
    using assms(2) by (simp_all add: tx_ok_def del: count_of.simps(1,2))
  have new: "ur_id u \<notin> accounts s" if "p = PendingAccount u r" for u r
    using ok assms(2) that unfolding ids_ok_def by (metis new_account.simps(2))
  have "tx_ok qc qk (?j k') ?w (sh_tx s k')" if "k' \<noteq> k" for k'
  proof (cases "inside (sh_tx s k')")
    case True
    then have "lock_of (?j k') \<noteq> lock_of (?j k)" using one_holder[of cls s k' k] ok assms(2) that by auto
    moreover have "owner (?j k') \<noteq> Some (ur_id u)" if "p = PendingAccount u r" for u r
      using ok True new[OF that] unfolding owners_ok_def by blast
    ultimately have "count_of (?j k') ?w = count_of (?j k') (sh_world s)" by (intro commit_counts[OF p(1)])
    then show ?thesis using ok tx_ok_shrinks[of qc qk "?j k'" "sh_world s"] by (simp add: counts_ok_def)
  next
    case False
    then show ?thesis by (cases "sh_tx s k'") (simp_all add: tx_ok_def)
  qed
  moreover have "quota_ok qc qk (w_tables ?w)"
    using commit_quota[OF _ p assms(3)] ok new by (fastforce simp: counts_ok_def owners_ok_def)
  ultimately show ?thesis by (auto simp: counts_ok_def tx_ok_def commit_tx_def)
qed

lemma advance_counts:
  assumes "advance cls m qc qk k s s'" "shop_ok cls qc qk s" "1 \<le> qk"
  shows "counts_ok cls qc qk s'"
  using assms
proof (induction rule: advance.induct)
  case (insert_row s n p a)
  have "tx_ok qc qk (cl_job (cls k)) (sh_world s) (sh_tx s k)" "counts_ok cls qc qk s"
    using insert_row.prems by (simp_all add: shop_ok_def counts_ok_def)
  moreover have "count_of (cl_job (cls k)) (sh_world s) \<le> n"
    using calculation(1) insert_row.hyps(1) by (simp add: tx_ok_def del: count_of.simps)
  then have "tx_ok qc qk (cl_job (cls k)) (sh_world s) (Written p a)"
    using write_room[OF insert_row.hyps(2)] unfolding tx_ok_def tx.case by (meson le_less_trans)
  ultimately show ?case by - (rule counts_ok_keep[of cls qc qk s _ k "Written p a"], simp_all)
next
  case (insert_default s r p a)
  have "phase_of (cl_job (cls k)) (sh_tx s k)" "counts_ok cls qc qk s"
    using insert_default.prems by (simp_all add: shop_ok_def phases_ok_def)
  moreover from this have "tx_ok qc qk (cl_job (cls k)) (sh_world s) (Written p a)"
    using insert_default.hyps(1) by (cases "cl_job (cls k)") (simp_all add: tx_ok_def)
  ultimately show ?case by - (rule counts_ok_keep[of cls qc qk s _ k "Written p a"], simp_all)
next
  case (commit s p a)
  then show ?case by (intro counts_ok_commit)
next
  case (begin_tx s)
  then show ?case by - (rule counts_ok_keep[of cls qc qk s _ k Begun], simp_all add: shop_ok_def tx_ok_def)
next
  case (lock_row s)
  then show ?case by - (rule counts_ok_keep[of cls qc qk s _ k Held], simp_all add: shop_ok_def tx_ok_def)
next
  case (no_row s)
  then show ?case by - (rule counts_ok_keep[of cls qc qk s _ k "Over (Refused (missing (cl_job (cls k))))"], simp_all add: shop_ok_def tx_ok_def)
next
  case (count s)
  then show ?case by - (rule counts_ok_keep[of cls qc qk s _ k "Counted (count_of (cl_job (cls k)) (sh_world s))"], simp_all add: shop_ok_def tx_ok_def)
next
  case (next_id s)
  then show ?case by - (rule counts_ok_keep[of cls qc qk s _ k "Drawn (w_next_user_id (sh_world s))"], simp_all add: shop_ok_def tx_ok_def)
next
  case (nickname_taken s i nick hash)
  then show ?case by - (rule counts_ok_keep[of cls qc qk s _ k "Over (Refused ErrDuplicateNickname)"], simp_all add: shop_ok_def tx_ok_def)
next
  case (insert_user s i nick hash r)
  then show ?case by - (rule counts_ok_keep[of cls qc qk s _ k "Inserted r"], simp_all add: shop_ok_def tx_ok_def)
qed

lemma tx_step_counts:
  assumes "tx_step cls m qc qk s s'" "shop_ok cls qc qk s" "1 \<le> qk"
  shows "counts_ok cls qc qk s'"
  using assms
proof (induction rule: tx_step.induct)
  case (advances k s s')
  then show ?case using advance_counts by blast
next
  case (roll_back s k)
  then show ?case by - (rule counts_ok_keep[of cls qc qk s _ k "Over Failed"], simp_all add: shop_ok_def tx_ok_def)
next
  case (unheard s k p a)
  then show ?case by (intro counts_ok_commit)
next
  case (other st s)
  then show ?case
    using run_other_quota[of qc qk "sh_world s" st] tx_ok_shrinks[OF _ run_other_counts]
    by (simp add: shop_ok_def counts_ok_def)
qed

lemma tx_step_ok: "tx_step cls m qc qk s s' \<Longrightarrow> shop_ok cls qc qk s \<Longrightarrow> 1 \<le> qk \<Longrightarrow> shop_ok cls qc qk s'"
  using tx_step_locks tx_step_ids tx_step_phases tx_step_owners tx_step_counts by (auto simp: shop_ok_def)

lemma nobody_yet_ok:
  assumes "quota_ok qc qk (w_tables w)" "schema_ok (w_tables w)"
  shows "shop_ok cls qc qk (nobody_yet w)"
  using assms by (simp add: shop_ok_def locks_ok_def ids_ok_def phases_ok_def owners_ok_def counts_ok_def
      tx_ok_def accounts_def schema_ok_def collections_ok_def)

text \<open>
  C30. Quotas hold under concurrency.  However many transactions add colours and collections and sign
  accounts up at the same time, interleaved statement by statement with each other and with
  deletions, updates and sessions, and whichever of them are cut off or commit unheard: when a quota
  leaves room for the default collection, no collection ever exceeds the colour quota and no account
  the collection quota.  Two transactions that count the same rows are never both between their
  lock and their end, and neither are two that sign up the same nickname.
\<close>

theorem quotas_hold_interleaved:
  assumes "interleaved cls m qc qk w s" "quota_ok qc qk (w_tables w)" "schema_ok (w_tables w)" "1 \<le> qk"
  shows "quota_ok qc qk (w_tables (sh_world s))
    \<and> (\<forall>k k'. inside (sh_tx s k) \<and> inside (sh_tx s k')
        \<and> lock_of (cl_job (cls k)) = lock_of (cl_job (cls k')) \<longrightarrow> k = k')"
proof -
  have "shop_ok cls qc qk s"
    using assms(1)
  proof (induction rule: interleaved.induct)
    case start
    then show ?case using nobody_yet_ok assms(2,3) by blast
  next
    case (step s s')
    then show ?case using tx_step_ok assms(4) by blast
  qed
  then show ?thesis using one_holder by (auto simp: shop_ok_def counts_ok_def)
qed

section \<open>The steps are the services' transactions\<close>

text \<open>A run of the steps of one transaction, with nothing in between, ends in one way only.\<close>

lemma advance_deterministic: "advance cls m qc qk k s s' \<Longrightarrow> advance cls m qc qk k s s'' \<Longrightarrow> s' = s''"
  by (elim advance.cases) auto

lemma advance_over: "sh_tx s k = Over a \<Longrightarrow> \<not> advance cls m qc qk k s s'"
  by (auto elim: advance.cases)

lemma advance_end_unique:
  assumes "(advance cls m qc qk k)\<^sup>*\<^sup>* s t" "sh_tx t k = Over a"
    and "(advance cls m qc qk k)\<^sup>*\<^sup>* s t'" "sh_tx t' k = Over b"
  shows "t = t'"
  using assms(1,3)
proof (induction rule: converse_rtranclp_induct)
  case base
  then show ?case using assms(2) advance_over by (metis converse_rtranclpE)
next
  case (step s u)
  have "s \<noteq> t'" using step.hyps(1) assms(4) advance_over by blast
  then have "(advance cls m qc qk k)\<^sup>*\<^sup>* u t'"
    using step.hyps(1) step.prems advance_deterministic by (metis converse_rtranclpE)
  then show ?case by (rule step.IH)
qed

text \<open>The transaction \<^verbatim>\<open>cl\<close> alone on the database: what it answers, and the tables it leaves.\<close>

definition uninterrupted :: "client \<Rightarrow> fenv \<Rightarrow> int \<Rightarrow> int \<Rightarrow> world \<Rightarrow> answer \<Rightarrow> tables \<Rightarrow> bool" where
  "uninterrupted cl m qc qk w a t \<longleftrightarrow> (\<exists>s. (advance (\<lambda>_. cl) m qc qk 0)\<^sup>*\<^sup>* (nobody_yet w) s
     \<and> sh_tx s 0 = Over a \<and> w_tables (sh_world s) = t)"

lemma uninterrupted_unique:
  assumes "uninterrupted cl m qc qk w a t"
  shows "uninterrupted cl m qc qk w b t' \<longleftrightarrow> b = a \<and> t' = t"
  using assms advance_end_unique unfolding uninterrupted_def by (metis tx.inject(5))

text \<open>The same computation in one go.\<close>

definition alone_counting :: "client \<Rightarrow> fenv \<Rightarrow> int \<Rightarrow> int \<Rightarrow> world \<Rightarrow> answer \<times> tables" where
  "alone_counting cl m qc qk w =
     (if \<not> lock_finds (cl_job cl) w then (Refused (missing (cl_job cl)), w_tables w)
      else case write_of m qc qk cl (cl_job cl) (count_of (cl_job cl) w) w of
        (p, a) \<Rightarrow> (a, commit_row p (w_tables w)))"

definition alone_sign_up :: "client \<Rightarrow> string \<Rightarrow> bytes \<Rightarrow> world \<Rightarrow> answer \<times> tables" where
  "alone_sign_up cl nick hash w =
     (let w1 = w\<lparr>w_next_user_id := w_next_user_id w + 1\<rparr> in
      case sign_up_user cl nick hash (w_next_user_id w) w1 of
        None \<Rightarrow> (Refused ErrDuplicateNickname, w_tables w)
      | Some r \<Rightarrow> (case sign_up_default cl r w1 of (p, a) \<Rightarrow> (a, commit_row p (w_tables w))))"

lemma advance_two:
  "advance cls m qc qk k s s' \<Longrightarrow> (advance cls m qc qk k)\<^sup>*\<^sup>* s' s'' \<Longrightarrow> (advance cls m qc qk k)\<^sup>*\<^sup>* s s''"
  by (rule converse_rtranclp_into_rtranclp)

lemma alone_counting_run:
  assumes "counts (cl_job cl)" "alone_counting cl m qc qk w = (a, t)"
  shows "uninterrupted cl m qc qk w a t"
proof -
  let ?j = "cl_job cl" and ?R = "advance (\<lambda>_. cl) m qc qk 0"
  let ?s1 = "goto 0 Begun (nobody_yet w)"
  have s1: "?R (nobody_yet w) ?s1" by (rule advance.begin_tx) simp
  show ?thesis
  proof (cases "lock_finds ?j w")
    case False
    let ?s = "goto 0 (Over (Refused (missing ?j))) ?s1"
    have "?R ?s1 ?s" using False assms(1) advance.no_row[of ?s1 0 "\<lambda>_. cl"] by simp
    then have "?R\<^sup>*\<^sup>* (nobody_yet w) ?s" using s1 advance_two by blast
    moreover have "sh_tx ?s 0 = Over a" "w_tables (sh_world ?s) = t"
      using False assms by (simp_all add: alone_counting_def)
    ultimately show ?thesis unfolding uninterrupted_def by blast
  next
    case True
    obtain p where p: "write_of m qc qk cl ?j (count_of ?j w) w = (p, a)" "t = commit_row p (w_tables w)"
      using assms True by (auto simp: alone_counting_def split: prod.splits)
    let ?s2 = "set_lock (lock_of ?j) (Some 0) (goto 0 Held ?s1)"
    let ?s3 = "goto 0 (Counted (count_of ?j w)) ?s2"
    let ?s4 = "goto 0 (Written p a) ?s3"
    let ?s = "commit_tx (\<lambda>_. cl) 0 p a ?s4"
    have "?R ?s1 ?s2" using True assms(1) advance.lock_row[of ?s1 0 "\<lambda>_. cl"] by simp
    moreover have "?R ?s2 ?s3" using advance.count[of ?s2 0 "\<lambda>_. cl"] by simp
    moreover have "?R ?s3 ?s4" using advance.insert_row[of ?s3 0 _ m qc qk "\<lambda>_. cl" p a] p(1) by simp
    moreover have "?R ?s4 ?s" by (rule advance.commit) simp
    ultimately have "?R\<^sup>*\<^sup>* (nobody_yet w) ?s" using s1 advance_two by (metis r_into_rtranclp)
    moreover have "sh_tx ?s 0 = Over a" "w_tables (sh_world ?s) = t" by (simp_all add: p(2))
    ultimately show ?thesis unfolding uninterrupted_def by blast
  qed
qed

lemma alone_sign_up_run:
  assumes "cl_job cl = SignUpJob nick hash" "alone_sign_up cl nick hash w = (a, t)"
  shows "uninterrupted cl m qc qk w a t"
proof -
  let ?R = "advance (\<lambda>_. cl) m qc qk 0" and ?i = "w_next_user_id w"
  let ?s1 = "goto 0 Begun (nobody_yet w)"
  let ?s2 = "goto 0 (Drawn ?i) (draw_id ?s1)"
  let ?w1 = "w\<lparr>w_next_user_id := ?i + 1\<rparr>"
  have w1: "sh_world ?s2 = ?w1" by (simp add: draw_id_def)
  have s1: "?R (nobody_yet w) ?s1" by (rule advance.begin_tx) simp
  have s2: "?R ?s1 ?s2" using assms(1) advance.next_id[of ?s1 0 "\<lambda>_. cl"] by simp
  show ?thesis
  proof (cases "sign_up_user cl nick hash ?i ?w1")
    case None
    let ?s = "goto 0 (Over (Refused ErrDuplicateNickname)) ?s2"
    have "?R ?s2 ?s" using None assms(1) w1 by (intro advance.nickname_taken) simp_all
    then have "?R\<^sup>*\<^sup>* (nobody_yet w) ?s" using s1 s2 advance_two by (metis r_into_rtranclp)
    moreover have "sh_tx ?s 0 = Over a" "w_tables (sh_world ?s) = t"
      using None assms(2) by (simp_all add: alone_sign_up_def Let_def)
    ultimately show ?thesis unfolding uninterrupted_def by blast
  next
    case (Some r)
    obtain p where p: "sign_up_default cl r ?w1 = (p, a)" "t = commit_row p (w_tables w)"
      using assms(2) Some by (auto simp: alone_sign_up_def Let_def split: prod.splits)
    let ?s3 = "set_lock (NicknameKey (citext_key nick)) (Some 0) (goto 0 (Inserted r) ?s2)"
    let ?s4 = "goto 0 (Written p a) ?s3"
    let ?s = "commit_tx (\<lambda>_. cl) 0 p a ?s4"
    have "?R ?s2 ?s3" using Some assms(1) w1 advance.insert_user[of ?s2 0 ?i "\<lambda>_. cl" nick hash r] by simp
    moreover have "?R ?s3 ?s4" using p(1) w1 by (intro advance.insert_default[of _ _ r]) simp_all
    moreover have "?R ?s4 ?s" by (rule advance.commit) simp
    ultimately have "?R\<^sup>*\<^sup>* (nobody_yet w) ?s" using s1 s2 advance_two by (metis r_into_rtranclp)
    moreover have "sh_tx ?s 0 = Over a" "w_tables (sh_world ?s) = t" by (simp_all add: p(2))
    ultimately show ?thesis unfolding uninterrupted_def by blast
  qed
qed

definition answer_of_color :: "(go_error, bool) result \<Rightarrow> answer" where
  "answer_of_color r = (case r of
     Inr created \<Rightarrow> if created then Created else AlreadySaved
   | Inl (Sentinel e) \<Rightarrow> Refused e | Inl _ \<Rightarrow> Failed)"

definition answer_of :: "(go_error, 'a) result \<Rightarrow> answer" where
  "answer_of r = (case r of Inr _ \<Rightarrow> Created | Inl (Sentinel e) \<Rightarrow> Refused e | Inl _ \<Rightarrow> Failed)"

lemma AddColor_alone:
  assumes "delivered e" "cl_job cl = AddColorJob i c h" "cl_start cl = pe_clock e (w_round w)"
  shows "alone_counting cl (pe_math e) qc qk w =
    (answer_of_color (fst (colorsvc_AddColor qc i c h e w)), w_tables (snd (colorsvc_AddColor qc i c h e w)))"
proof -
  have f: "\<exists>r \<in> set (t_collections (w_tables w)). cr_id r = c" if "owns (w_tables w) i c"
    using that by (auto simp: owns_def)
  have l: "lock_finds (AddColorJob i c h) w = owns (w_tables w) i c"
    by (auto simp: sql_collection_def owns_def find_None_iff find_Some_iff split: option.split)
  note tx = InTx_delivered[OF assms(1), of "add_color_tx qc i c h" w, folded colorsvc_AddColor_def]
  note ops = add_color_tx_def LockCollection_def resolve_delivered[OF assms(1)] CountColors_def sql_count_colors_def
    HasColor_def sql_has_color_def Storage.AddColor_def sql_insert_color_def send_ok[OF assms(1)] now_def Let_def
    answer_of_color_def checkViolation_def foreignKeyViolation_def alone_counting_def l assms(2,3)
  show ?thesis
  proof (cases "owns (w_tables w) i c")
    case False
    then show ?thesis by (simp add: tx ops del: lock_finds.simps)
  next
    case True
    note own = True f[OF True]
    show ?thesis
    proof (cases "\<exists>r \<in> set (t_colors (w_tables w)). xr_collection_id r = c \<and> xr_hex r = h")
      case has: True
      then have "\<exists>r \<in> set (colors_of c (w_tables w)). xr_hex r = h" by (auto simp: colors_of_def)
      then show ?thesis using has own by (simp add: tx ops del: lock_finds.simps)
    next
      case new: False
      then have "\<not> (\<exists>r \<in> set (colors_of c (w_tables w)). xr_hex r = h)" by (auto simp: colors_of_def)
      then show ?thesis using new own by (auto simp: tx ops simp del: lock_finds.simps)
    qed
  qed
qed

lemma CreateCollection_alone:
  assumes "delivered e" "cl_job cl = CreateCollectionJob i p" "cl_start cl = pe_clock e (w_round w)"
    and "cl_uuid cl = pe_uuid e (w_round w + 3)"
  shows "alone_counting cl (pe_math e) qc qk w =
    (answer_of (fst (collectionsvc_CreateCollection qk i p e w)),
      w_tables (snd (collectionsvc_CreateCollection qk i p e w)))"
  using assms InTx_delivered[OF assms(1), of "create_collection_tx qk i (p\<lparr>cp_IsDefault := False\<rparr>)" w]
  by (auto simp: alone_counting_def collectionsvc_CreateCollection_def create_collection_tx_def LockUser_def
      sql_lock_user_def CountCollections_def sql_count_collections_def CreateCollection_def row_error_def
      sql_insert_collection_def send_ok now_def Let_def answer_of_def numeral_3_eq_3
      uniqueViolation_def foreignKeyViolation_def split: prod.split)

lemma CreateUser_alone:
  assumes "delivered e" "cl_start cl = pe_clock e (w_round w)" "cl_uuid cl = pe_uuid e (w_round w + 2)"
  shows "alone_sign_up cl (user_Nickname u) (user_PasswordHash u) w =
    (answer_of (fst (usersvc_CreateUser u e w)), w_tables (snd (usersvc_CreateUser u e w)))"
  using assms InTx_delivered[OF assms(1), of "create_user_tx u" w]
  by (auto simp: alone_sign_up_def usersvc_CreateUser_def create_user_tx_def CreateUser_def sql_insert_user_def
      CreateCollection_def sql_insert_collection_def sign_up_user_def sign_up_default_def default_collection_def
      with_user_def send_ok now_def Let_def answer_of_def uniqueViolation_def foreignKeyViolation_def
      numeral_2_eq_2 split: prod.split)

text \<open>
  C31. The interleaved transactions are the services' own.  Alone on the database, the steps of a
  transaction come to one answer and leave one set of tables, and these are the answer and the tables
  of \<^verbatim>\<open>AddColor\<close>, of \<^verbatim>\<open>CreateCollection\<close> and of \<^verbatim>\<open>CreateUser\<close> with the connection up, on every branch.
\<close>

theorem steps_are_the_services:
  assumes "delivered e"
  shows "(uninterrupted \<lparr>cl_job = AddColorJob i c h, cl_start = pe_clock e (w_round w), cl_uuid = v\<rparr>
        (pe_math e) qc qk w a t
      \<longleftrightarrow> a = answer_of_color (fst (colorsvc_AddColor qc i c h e w))
        \<and> t = w_tables (snd (colorsvc_AddColor qc i c h e w)))
    \<and> (uninterrupted \<lparr>cl_job = CreateCollectionJob i p, cl_start = pe_clock e (w_round w),
          cl_uuid = pe_uuid e (w_round w + 3)\<rparr> (pe_math e) qc qk w a t
      \<longleftrightarrow> a = answer_of (fst (collectionsvc_CreateCollection qk i p e w))
        \<and> t = w_tables (snd (collectionsvc_CreateCollection qk i p e w)))
    \<and> (uninterrupted \<lparr>cl_job = SignUpJob (user_Nickname u) (user_PasswordHash u),
          cl_start = pe_clock e (w_round w), cl_uuid = pe_uuid e (w_round w + 2)\<rparr> (pe_math e) qc qk w a t
      \<longleftrightarrow> a = answer_of (fst (usersvc_CreateUser u e w)) \<and> t = w_tables (snd (usersvc_CreateUser u e w)))"
  by (intro conjI uninterrupted_unique alone_counting_run[OF _ AddColor_alone[OF assms]]
      alone_counting_run[OF _ CreateCollection_alone[OF assms]] alone_sign_up_run[OF _ CreateUser_alone[OF assms]])
    simp_all

theorem steps_are_the_services_witness:
  "uninterrupted \<lparr>cl_job = AddColorJob 7 2 ''#00ff7f'', cl_start = pe_clock sample_env (w_round signed_up),
     cl_uuid = 0\<rparr> binary64_env 5 2 signed_up (Refused ErrNotFound) (w_tables signed_up)"
proof -
  have r: "colorsvc_AddColor 5 7 2 ''#00ff7f'' sample_env signed_up = (Inl (Sentinel ErrNotFound), signed_up\<lparr>w_round := 7\<rparr>)"
    by (simp add: colorsvc_AddColor_def InTx_def BeginFunc_def add_color_tx_def LockCollection_def
        resolve_delivered[OF sample_delivered] send_ok[OF sample_delivered] sql_unit_def owns_def signed_up_eval)
  have "pe_math sample_env = binary64_env" by (simp add: sample_env_def)
  then show ?thesis
    using steps_are_the_services[OF sample_delivered, of 7 2 "''#00ff7f''" signed_up 0 5 2] r
    by (simp add: answer_of_color_def)
qed

theorem quotas_hold_interleaved_witness:
  "\<exists>s. interleaved (\<lambda>_. \<lparr>cl_job = AddColorJob 1 2 ''#00ff7f'', cl_start = 4, cl_uuid = 0\<rparr>) binary64_env 5 2 signed_up s
     \<and> inside (sh_tx s 3) \<and> quota_ok 5 2 (w_tables (sh_world s))"
proof -
  let ?cls = "\<lambda>_::nat. \<lparr>cl_job = AddColorJob 1 2 ''#00ff7f'', cl_start = 4, cl_uuid = 0\<rparr>"
  let ?s1 = "goto 3 Begun (nobody_yet signed_up)"
  let ?s2 = "set_lock (CollectionRow 2) (Some 3) (goto 3 Held ?s1)"
  have "advance ?cls binary64_env 5 2 3 (nobody_yet signed_up) ?s1" by (rule advance.begin_tx) simp
  then have "interleaved ?cls binary64_env 5 2 signed_up ?s1"
    by (rule interleaved.step[OF interleaved.start tx_step.advances])
  moreover have "advance ?cls binary64_env 5 2 3 ?s1 ?s2"
    using advance.lock_row[of ?s1 3 ?cls] by (simp add: sql_collection_def signed_up_eval)
  ultimately have s2: "interleaved ?cls binary64_env 5 2 signed_up ?s2"
    using interleaved.step tx_step.advances by blast
  have "quota_ok 5 2 (w_tables signed_up)"
    by (auto simp: quota_ok_def signed_up_eval colors_of_def collections_of_def)
  then have "quota_ok 5 2 (w_tables (sh_world ?s2))"
    using quotas_hold_interleaved[OF s2] signed_up_schema by simp
  then show ?thesis using s2 by (intro exI[of _ ?s2]) simp
qed

end
