(* ===== verification/Dsn.thy ===== *)
theory Dsn
  imports Middleware Go_Env
begin

text \<open>
  \<^verbatim>\<open>internal/dbconfig/dsn.go\<close>: the connection string of the database, and what of \<^verbatim>\<open>net/url\<close> and
  \<^verbatim>\<open>net\<close> it is built with.  The credentials may be any bytes; the theorem reads them back with the
  steps of \<^verbatim>\<open>url.Parse\<close>.
\<close>

section \<open>Escaping\<close>

datatype encoding = encodePath | encodeUserPassword | encodeHost | encodeQueryComponent

definition alnum :: "char \<Rightarrow> bool" where
  "alnum c \<longleftrightarrow> isDigit c \<or> (65 \<le> (of_char c :: nat) \<and> (of_char c :: nat) \<le> 90)
     \<or> (97 \<le> (of_char c :: nat) \<and> (of_char c :: nat) \<le> 122)"

definition shouldEscape :: "char \<Rightarrow> encoding \<Rightarrow> bool" where
  "shouldEscape c mode =
     (if alnum c then False
      else if mode = encodeHost \<and> c \<in> set (''!$&()*+,;=:[]<>'' @ [CHR 0x27, CHR 0x22]) then False
      else if c \<in> set ''-_.~'' then False
      else if c \<in> set ''$&+,/:;=?@'' then
        (case mode of
           encodePath \<Rightarrow> c = CHR ''?''
         | encodeUserPassword \<Rightarrow> c \<in> set ''@/?:''
         | encodeQueryComponent \<Rightarrow> True
         | encodeHost \<Rightarrow> True)
      else True)"

definition upperhex :: "nat \<Rightarrow> char" where
  "upperhex n = ''0123456789ABCDEF'' ! n"

definition escapeChar :: "encoding \<Rightarrow> char \<Rightarrow> string" where
  "escapeChar mode c =
     (if shouldEscape c mode then
        if c = CHR '' '' \<and> mode = encodeQueryComponent then ''+''
        else [CHR ''%'', upperhex (of_char c div 16), upperhex (of_char c mod 16)]
      else [c])"

definition escape :: "encoding \<Rightarrow> string \<Rightarrow> string" where
  "escape mode s = concat (map (escapeChar mode) s)"

section \<open>dsn.go\<close>

definition defaultHost :: string where "defaultHost = ''localhost''"
definition defaultPort :: string where "defaultPort = ''5433''"
definition defaultName :: string where "defaultName = ''wavelen''"
definition defaultSSLMode :: string where "defaultSSLMode = ''disable''"

definition MigrateScheme :: string where "MigrateScheme = ''pgx5''"

definition JoinHostPort :: "string \<Rightarrow> string \<Rightarrow> string" where
  "JoinHostPort host port =
     (if CHR '':'' \<in> set host then ''['' @ host @ '']:'' @ port else host @ '':'' @ port)"

text \<open>\<^verbatim>\<open>url.URL.String\<close> of a URL with a scheme, a user, a host, an absolute path and a query.\<close>

definition url_String :: "string \<Rightarrow> string \<Rightarrow> string \<Rightarrow> string \<Rightarrow> string \<Rightarrow> string \<Rightarrow> string" where
  "url_String scheme user password host path rawQuery =
     scheme @ ''://'' @ escape encodeUserPassword user @ '':'' @ escape encodeUserPassword password @ ''@''
     @ escape encodeHost host @ escape encodePath path @ ''?'' @ rawQuery"

definition DSN :: "getenv \<Rightarrow> string \<Rightarrow> (go_error, string) result" where
  "DSN env scheme =
     (let user = env ''POSTGRES_USER''; password = env ''POSTGRES_PASSWORD'' in
      if user = [] \<or> password = [] then Inl (Sentinel ErrMissingCreds)
      else Inr (url_String scheme user password
             (JoinHostPort (stringFromEnv env ''POSTGRES_HOST'' defaultHost) (stringFromEnv env ''POSTGRES_PORT'' defaultPort))
             (''/'' @ stringFromEnv env ''POSTGRES_DB'' defaultName)
             (escape encodeQueryComponent ''sslmode'' @ ''='' @
              escape encodeQueryComponent (stringFromEnv env ''POSTGRES_SSLMODE'' defaultSSLMode))))"

section \<open>Reading it back\<close>

text \<open>
  The steps of \<^verbatim>\<open>url.Parse\<close>: the scheme ends at the first colon, the query starts at the first
  question mark, the authority ends at the next slash, the user information at its last \<^verbatim>\<open>@\<close> and the
  user name at the first colon of that.  A plus sign in a query stands for a space.
\<close>

record url_parts =
  url_Scheme :: string
  url_User :: string
  url_Password :: string
  url_Host :: string
  url_Path :: string
  url_Query :: "string \<times> string"

definition unescapeQuery :: "string \<Rightarrow> string option" where
  "unescapeQuery s = unescape (map (\<lambda>c. if c = CHR ''+'' then CHR '' '' else c) s)"

definition url_Parse :: "string \<Rightarrow> url_parts option" where
  "url_Parse s =
     Option.bind (FirstCut (CHR '':'') s) (\<lambda>(scheme, rest).
     Option.bind (FirstCut (CHR ''?'') rest) (\<lambda>(hier, query).
     if take 2 hier \<noteq> ''//'' then None else
     Option.bind (FirstCut (CHR ''/'') (drop 2 hier)) (\<lambda>(authority, path).
     Option.bind (LastCut (CHR ''@'') authority) (\<lambda>(userinfo, host).
     Option.bind (FirstCut (CHR '':'') userinfo) (\<lambda>(user, password).
     Option.bind (FirstCut (CHR ''='') query) (\<lambda>(key, val).
     Option.bind (unescape user) (\<lambda>user'.
     Option.bind (unescape password) (\<lambda>password'.
     Option.bind (unescape host) (\<lambda>host'.
     Option.bind (unescape (CHR ''/'' # path)) (\<lambda>path'.
     Option.bind (unescapeQuery key) (\<lambda>key'.
     Option.bind (unescapeQuery val) (\<lambda>val'.
       Some \<lparr>url_Scheme = scheme, url_User = user', url_Password = password', url_Host = host',
         url_Path = path', url_Query = (key', val')\<rparr>))))))))))))"

lemma FirstCut_append: "c \<notin> set s \<Longrightarrow> FirstCut c (s @ c # r) = Some (s, r)"
  by (induction s) auto

lemma hex_digits_back:
  "\<forall>n \<in> set [0..<16]. unhex (upperhex n) = Some n \<and> upperhex n \<notin> set ''%+'' \<and> alnum (upperhex n)"
  by code_simp

lemma upperhex_back:
  "n < 16 \<Longrightarrow> unhex (upperhex n) = Some n" "n < 16 \<Longrightarrow> upperhex n \<noteq> CHR ''+''" "n < 16 \<Longrightarrow> alnum (upperhex n)"
  using hex_digits_back by auto

lemma of_char_halves: "of_char c div 16 < (16 :: nat)" "of_char c mod 16 < (16 :: nat)"
  "char_of (16 * (of_char c div 16) + of_char c mod 16 :: nat) = c"
proof -
  have "of_char c < (256 :: nat)" using of_char_of[of "of_char c :: nat"] by (metis mod_less_divisor of_char_mod_256 zero_less_numeral)
  then show "of_char c div 16 < (16 :: nat)" by (simp add: div_less_iff_less_mult)
qed simp_all

lemma unescape_escaped:
  "unescape (CHR ''%'' # upperhex (of_char c div 16) # upperhex (of_char c mod 16) # r) = map_option ((#) c) (unescape r)"
  by (simp add: upperhex_back of_char_halves split: option.split)

lemma percent_escaped: "shouldEscape (CHR ''%'') mode" "shouldEscape (CHR ''+'') encodeQueryComponent"
  by (simp_all add: shouldEscape_def alnum_def isDigit_def)

lemma unescape_escape:
  assumes "mode \<noteq> encodeQueryComponent"
  shows "unescape (escape mode s @ r) = map_option ((@) s) (unescape r)"
proof (induction s)
  case Nil
  have "(@) [] = (\<lambda>x. x :: string)" by auto
  then show ?case by (simp add: escape_def option.map_ident)
next
  case (Cons c s)
  have e: "escape mode (c # s) = escapeChar mode c @ escape mode s" by (simp add: escape_def)
  have u: "unescape (escapeChar mode c @ t) = map_option ((#) c) (unescape t)" for t
  proof (cases "shouldEscape c mode")
    case True
    then show ?thesis using assms unescape_escaped[of c t] by (simp add: escapeChar_def del: unescape.simps)
  next
    case False
    then have "c \<noteq> CHR ''%''" using percent_escaped(1) by metis
    then show ?thesis using False by (simp add: escapeChar_def)
  qed
  have "(#) c \<circ> (@) s = (@) (c # s)" by auto
  then show ?case by (simp only: e append_assoc u Cons option.map_comp)
qed

lemma unescape_escape_all: "mode \<noteq> encodeQueryComponent \<Longrightarrow> unescape (escape mode s) = Some s"
  using unescape_escape[of mode s "[]"] by simp

lemma unescapeQuery_escape: "unescapeQuery (escape encodeQueryComponent s) = Some s"
proof (induction s)
  case Nil
  then show ?case by (simp add: escape_def unescapeQuery_def)
next
  case (Cons c s)
  let ?m = encodeQueryComponent
  let ?f = "map (\<lambda>c. if c = CHR ''+'' then CHR '' '' else c)"
  have e: "escape ?m (c # s) = escapeChar ?m c @ escape ?m s" by (simp add: escape_def)
  have u: "unescape (?f (escapeChar ?m c) @ t) = map_option ((#) c) (unescape t)" for t
  proof (cases "shouldEscape c ?m")
    case True
    then show ?thesis using unescape_escaped[of c t] upperhex_back(2) of_char_halves(1,2)[of c]
      by (cases "c = CHR '' ''") (simp_all add: escapeChar_def del: unescape.simps, simp)
  next
    case False
    then have "c \<noteq> CHR ''%''" "c \<noteq> CHR ''+''" using percent_escaped by metis+
    then show ?thesis using False by (simp add: escapeChar_def)
  qed
  show ?case using Cons u by (simp add: e unescapeQuery_def del: unescape.simps)
qed

text \<open>What an escaped part cannot contain.\<close>

lemma escape_free:
  assumes "shouldEscape c mode" "c \<noteq> CHR ''%''" "c \<noteq> CHR ''+''"
  shows "c \<notin> set (escape mode s)"
proof -
  have "\<not> alnum c" using assms(1) by (auto simp: shouldEscape_def)
  then have "c \<notin> set (escapeChar mode d)" for d
    using assms upperhex_back(3) of_char_halves(1,2) by (auto simp: escapeChar_def)
  then show ?thesis by (auto simp: escape_def)
qed

definition host_char :: "char \<Rightarrow> bool" where
  "host_char c \<longleftrightarrow> \<not> shouldEscape c encodeHost \<and> c \<noteq> CHR ''['' \<and> c \<noteq> CHR '']''"

lemma escape_host: "list_all (\<lambda>c. \<not> shouldEscape c encodeHost) s \<Longrightarrow> escape encodeHost s = s"
  by (induction s) (auto simp: escape_def escapeChar_def)

lemma LastCut_colon: "CHR '':'' \<notin> set port \<Longrightarrow> LastCut (CHR '':'') (host @ CHR '':'' # port) = Some (host, port)"
  by (rule LastCut_append)

lemma SplitHostPort_JoinHostPort:
  assumes "list_all host_char host" "list_all host_char port" "CHR '':'' \<notin> set port" "host \<noteq> []"
  shows "SplitHostPort (JoinHostPort host port) = Some (host, port)"
proof -
  have b: "CHR ''['' \<notin> set host" "CHR '']'' \<notin> set host" "CHR ''['' \<notin> set port" "CHR '']'' \<notin> set port"
    using assms(1,2) by (auto simp: list_all_iff host_char_def)
  show ?thesis
  proof (cases "CHR '':'' \<in> set host")
    case True
    have "LastCut (CHR '':'') (''['' @ host @ '']:'' @ port) = Some (''['' @ host @ '']'', port)"
      using LastCut_colon[OF assms(3), of "''['' @ host @ '']''"] by simp
    moreover have "FirstCut (CHR '']'') (''['' @ host @ '']:'' @ port) = Some (''['' @ host, CHR '':'' # port)"
      using FirstCut_append[of "CHR '']''" "''['' @ host" "CHR '':'' # port"] b by simp
    ultimately show ?thesis using True b by (simp add: SplitHostPort_def JoinHostPort_def)
  next
    case False
    have "hd host \<noteq> CHR ''[''" using b assms(4) by (cases host) auto
    then show ?thesis using False b assms(4) LastCut_colon[OF assms(3), of host]
      by (simp add: SplitHostPort_def JoinHostPort_def)
  qed
qed

lemma host_port_plain:
  assumes "list_all host_char host" "list_all host_char port"
  shows "list_all (\<lambda>c. \<not> shouldEscape c encodeHost) (JoinHostPort host port)"
proof -
  have "\<not> shouldEscape (CHR ''['') encodeHost" "\<not> shouldEscape (CHR '']'') encodeHost" "\<not> shouldEscape (CHR '':'') encodeHost"
    by (simp_all add: shouldEscape_def)
  then show ?thesis using assms by (auto simp: JoinHostPort_def list_all_iff host_char_def)
qed

lemma reserved_escaped:
  "shouldEscape (CHR ''/'') encodeHost" "shouldEscape (CHR ''@'') encodeHost" "shouldEscape (CHR ''?'') encodeHost"
  "shouldEscape (CHR ''/'') encodeUserPassword" "shouldEscape (CHR ''@'') encodeUserPassword"
  "shouldEscape (CHR ''?'') encodeUserPassword" "shouldEscape (CHR '':'') encodeUserPassword"
  "shouldEscape (CHR ''?'') encodePath" "shouldEscape (CHR ''='') encodeQueryComponent"
  by (simp_all add: shouldEscape_def alnum_def isDigit_def)

lemma url_Parse_String:
  assumes "CHR '':'' \<notin> set scheme" "list_all (\<lambda>c. \<not> shouldEscape c encodeHost) host"
    and "CHR ''='' \<notin> set key"
  shows "url_Parse (url_String scheme user password host (CHR ''/'' # path)
      (escape encodeQueryComponent key @ ''='' @ escape encodeQueryComponent val))
    = Some \<lparr>url_Scheme = scheme, url_User = user, url_Password = password, url_Host = host,
        url_Path = CHR ''/'' # path, url_Query = (key, val)\<rparr>"
proof -
  let ?u = "escape encodeUserPassword user" and ?p = "escape encodeUserPassword password"
  let ?q = "escape encodeQueryComponent key @ ''='' @ escape encodeQueryComponent val"
  let ?path = "escape encodePath (CHR ''/'' # path)"
  have h: "escape encodeHost host = host" using assms(2) by (rule escape_host)
  have hf: "CHR ''/'' \<notin> set host" "CHR ''@'' \<notin> set host" "CHR ''?'' \<notin> set host" "CHR ''%'' \<notin> set host"
    using assms(2) reserved_escaped(1-3) percent_escaped(1) by (auto simp: list_all_iff)
  have f: "c \<notin> set ?u" "c \<notin> set ?p" if "c \<in> set ''/@?:''" for c
  proof -
    have "shouldEscape c encodeUserPassword" "c \<noteq> CHR ''%''" "c \<noteq> CHR ''+''"
      using that reserved_escaped(4-7) by auto
    then show "c \<notin> set ?u" "c \<notin> set ?p" by (simp_all add: escape_free)
  qed
  have pf: "CHR ''?'' \<notin> set ?path" "CHR ''='' \<notin> set (escape encodeQueryComponent key)"
    using reserved_escaped(8,9) by (simp_all add: escape_free)
  have slash: "?path = CHR ''/'' # escape encodePath path"
    by (simp add: escape_def escapeChar_def shouldEscape_def alnum_def isDigit_def)
  let ?auth = "?u @ '':'' @ ?p @ ''@'' @ host"
  have c1: "FirstCut (CHR '':'') (scheme @ ''://'' @ ?auth @ ?path @ ''?'' @ ?q)
      = Some (scheme, ''//'' @ ?auth @ ?path @ ''?'' @ ?q)"
    using FirstCut_append[OF assms(1), of "''//'' @ ?auth @ ?path @ ''?'' @ ?q"] by simp
  have c2: "FirstCut (CHR ''?'') (''//'' @ ?auth @ ?path @ ''?'' @ ?q) = Some (''//'' @ ?auth @ ?path, ?q)"
    using FirstCut_append[of "CHR ''?''" "''//'' @ ?auth @ ?path" ?q] f[of "CHR ''?''"] hf pf by simp
  have c3: "FirstCut (CHR ''/'') (?auth @ ?path) = Some (?auth, escape encodePath path)"
    using FirstCut_append[of "CHR ''/''" ?auth "escape encodePath path"] f[of "CHR ''/''"] hf by (simp add: slash)
  have c4: "LastCut (CHR ''@'') ?auth = Some (?u @ '':'' @ ?p, host)"
    using LastCut_append[OF hf(2), of "?u @ '':'' @ ?p"] by simp
  have c5: "FirstCut (CHR '':'') (?u @ '':'' @ ?p) = Some (?u, ?p)"
    using FirstCut_append[of "CHR '':''" ?u ?p] f[of "CHR '':''"] by simp
  have c6: "FirstCut (CHR ''='') ?q = Some (escape encodeQueryComponent key, escape encodeQueryComponent val)"
    using FirstCut_append[OF pf(2)] by simp
  have un: "unescape ?u = Some user" "unescape ?p = Some password" "unescape ?path = Some (CHR ''/'' # path)"
    "unescape host = Some host"
    using unescape_escape_all[of encodeHost host] by (simp_all add: unescape_escape_all h)
  have str: "url_String scheme user password host (CHR ''/'' # path) ?q = scheme @ ''://'' @ ?auth @ ?path @ ''?'' @ ?q"
    by (simp add: url_String_def h)
  have t: "take 2 (''//'' @ ?auth @ ?path) = ''//''" "drop 2 (''//'' @ ?auth @ ?path) = ?auth @ ?path"
    by (simp_all add: numeral_2_eq_2)
  show ?thesis
    unfolding str url_Parse_def c1 c2 Option.bind.simps prod.case t c3 c4 c5 c6
    using un by (simp add: unescapeQuery_escape flip: slash)
qed

text \<open>
  C34. The connection string carries the credentials unharmed.  Without a user or a password there is
  none, only ErrMissingCreds.  With them, for a host and a port made of characters that a host may
  contain, the port without a colon, and whatever bytes the user, the password, the database and the
  mode are made of, the string parses back to exactly these parts: no character of a password can end
  it early or change the host, and host and port come apart again, IPv6 addresses included.
\<close>

theorem dsn_roundtrip:
  assumes "scheme = ''postgres'' \<or> scheme = MigrateScheme"
    and "host = stringFromEnv env ''POSTGRES_HOST'' defaultHost" "list_all host_char host"
    and "port = stringFromEnv env ''POSTGRES_PORT'' defaultPort" "list_all host_char port" "CHR '':'' \<notin> set port"
  shows "(if env ''POSTGRES_USER'' = [] \<or> env ''POSTGRES_PASSWORD'' = []
      then DSN env scheme = Inl (Sentinel ErrMissingCreds)
      else \<exists>s u. DSN env scheme = Inr s \<and> url_Parse s = Some u
        \<and> url_Scheme u = scheme \<and> url_User u = env ''POSTGRES_USER'' \<and> url_Password u = env ''POSTGRES_PASSWORD''
        \<and> SplitHostPort (url_Host u) = Some (host, port)
        \<and> url_Path u = ''/'' @ stringFromEnv env ''POSTGRES_DB'' defaultName
        \<and> url_Query u = (''sslmode'', stringFromEnv env ''POSTGRES_SSLMODE'' defaultSSLMode))"
proof -
  have ne: "host \<noteq> []" using assms(2) by (auto simp: stringFromEnv_def defaultHost_def Let_def)
  have sc: "CHR '':'' \<notin> set scheme" using assms(1) by (auto simp: MigrateScheme_def)
  note parse = url_Parse_String[OF sc host_port_plain[OF assms(3,5)], of "''sslmode''"]
  show ?thesis
    using SplitHostPort_JoinHostPort[OF assms(3,5,6) ne] parse
    by (simp add: DSN_def Let_def flip: assms(2,4))
qed

definition sample_environment :: getenv where
  "sample_environment name =
     (if name = ''POSTGRES_USER'' then ''wave:len'' else if name = ''POSTGRES_PASSWORD'' then ''p@ss/w%rd?''
      else if name = ''POSTGRES_HOST'' then ''::1'' else [])"

theorem dsn_roundtrip_witness:
  "\<exists>s u. DSN sample_environment ''postgres'' = Inr s \<and> url_Parse s = Some u \<and> url_Password u = ''p@ss/w%rd?''
    \<and> SplitHostPort (url_Host u) = Some (''::1'', ''5433'')"
proof -
  have h: "''::1'' = stringFromEnv sample_environment ''POSTGRES_HOST'' defaultHost"
    "''5433'' = stringFromEnv sample_environment ''POSTGRES_PORT'' defaultPort"
    by (simp_all add: stringFromEnv_def sample_environment_def defaultPort_def)
  have c: "list_all host_char ''::1''" "list_all host_char ''5433''"
    by (simp_all add: host_char_def shouldEscape_def alnum_def isDigit_def)
  have "sample_environment ''POSTGRES_USER'' \<noteq> []" "sample_environment ''POSTGRES_PASSWORD'' = ''p@ss/w%rd?''"
    by (simp_all add: sample_environment_def)
  then show ?thesis using dsn_roundtrip[OF _ h(1) c(1) h(2) c(2), of "''postgres''"] by auto
qed

end
