(* ===== verification/Dbtrace.thy ===== *)
theory Dbtrace
  imports Go_Errors
begin

text \<open>
  \<^verbatim>\<open>internal/dbtrace/dbtrace.go\<close>: the tracer that logs slow statements and slow acquisitions of a
  connection.  Its state is what it leaves in the context between the two ends of an operation.
  Times are nanoseconds of the monotonic clock.
\<close>

section \<open>The tracer\<close>

definition DefSlowQuery :: int where "DefSlowQuery = 200 * 1000000"
definition DefSlowAcquire :: int where "DefSlowAcquire = 100 * 1000000"

record tracer =
  SlowQuery :: int
  SlowAcquire :: int

record query_data =
  qd_startedAt :: int
  qd_sql :: string

text \<open>The values under \<^verbatim>\<open>queryKey\<close> and \<^verbatim>\<open>acquireKey\<close>.\<close>

record trace_ctx =
  tc_query :: "query_data option"
  tc_acquire :: "int option"

definition Background :: trace_ctx where
  "Background = \<lparr>tc_query = None, tc_acquire = None\<rparr>"

record query_start =
  qs_SQL :: string
  qs_Args :: "string list"

record pool_stat =
  ps_AcquiredConns :: int
  ps_TotalConns :: int
  ps_MaxConns :: int
  ps_NewConnsCount :: int
  ps_EmptyAcquireCount :: int

datatype db_attr = AttrDuration int | AttrText string | AttrInt int | AttrError go_error

record db_log =
  dl_msg :: string
  dl_attrs :: "(string \<times> db_attr) list"

definition TraceQueryStart :: "tracer \<Rightarrow> int \<Rightarrow> query_start \<Rightarrow> trace_ctx \<Rightarrow> trace_ctx" where
  "TraceQueryStart t now data ctx =
     (if SlowQuery t \<le> 0 then ctx
      else ctx\<lparr>tc_query := Some \<lparr>qd_startedAt = now, qd_sql = qs_SQL data\<rparr>\<rparr>)"

definition error_attr :: "go_error option \<Rightarrow> (string \<times> db_attr) list" where
  "error_attr err = (case err of None \<Rightarrow> [] | Some e \<Rightarrow> [(''error'', AttrError e)])"

definition TraceQueryEnd :: "tracer \<Rightarrow> int \<Rightarrow> go_error option \<Rightarrow> trace_ctx \<Rightarrow> db_log list" where
  "TraceQueryEnd t now err ctx =
     (case tc_query ctx of
        None \<Rightarrow> []
      | Some q \<Rightarrow>
          let interval = now - qd_startedAt q in
          if interval < SlowQuery t then []
          else [\<lparr>dl_msg = ''slow query'',
                 dl_attrs = [(''query_duration'', AttrDuration interval), (''sql'', AttrText (qd_sql q))] @ error_attr err\<rparr>])"

definition TraceAcquireStart :: "tracer \<Rightarrow> int \<Rightarrow> trace_ctx \<Rightarrow> trace_ctx" where
  "TraceAcquireStart t now ctx = (if SlowAcquire t \<le> 0 then ctx else ctx\<lparr>tc_acquire := Some now\<rparr>)"

definition TraceAcquireEnd :: "tracer \<Rightarrow> int \<Rightarrow> pool_stat \<Rightarrow> go_error option \<Rightarrow> trace_ctx \<Rightarrow> db_log list" where
  "TraceAcquireEnd t now stat err ctx =
     (case tc_acquire ctx of
        None \<Rightarrow> []
      | Some startedAt \<Rightarrow>
          let interval = now - startedAt in
          if interval < SlowAcquire t then []
          else [\<lparr>dl_msg = ''slow connection acquire'',
                 dl_attrs =
                   [(''acquire_duration'', AttrDuration interval), (''acquired_conns'', AttrInt (ps_AcquiredConns stat)),
                    (''total_conns'', AttrInt (ps_TotalConns stat)), (''max_conns'', AttrInt (ps_MaxConns stat)),
                    (''new_conns'', AttrInt (ps_NewConnsCount stat)),
                    (''empty_acquires'', AttrInt (ps_EmptyAcquireCount stat))] @ error_attr err\<rparr>])"

section \<open>What is logged\<close>

text \<open>The contexts that the operations of a pool with this tracer run in.\<close>

inductive traced :: "tracer \<Rightarrow> trace_ctx \<Rightarrow> bool" for t where
  background: "traced t Background"
| query: "traced t ctx \<Longrightarrow> traced t (TraceQueryStart t now d ctx)"
| acquire: "traced t ctx \<Longrightarrow> traced t (TraceAcquireStart t now ctx)"

lemma traced_off:
  "traced t ctx \<Longrightarrow> (SlowQuery t \<le> 0 \<longrightarrow> tc_query ctx = None) \<and> (SlowAcquire t \<le> 0 \<longrightarrow> tc_acquire ctx = None)"
  by (induction rule: traced.induct) (auto simp: Background_def TraceQueryStart_def TraceAcquireStart_def)

text \<open>
  C35. A statement is logged if and only if its threshold is positive and it took at least that
  long, an acquisition likewise, and the two never disturb each other, however they nest.  What a
  log shows of a statement is its text, its duration and its error: it is the same whatever
  arguments, such as password and token hashes, the statement ran with.
\<close>

theorem slow_logs:
  assumes "traced t ctx"
  shows "TraceQueryEnd t fin err (TraceAcquireStart t now (TraceQueryStart t start d ctx)) =
      (if 0 < SlowQuery t \<and> SlowQuery t \<le> fin - start
       then [\<lparr>dl_msg = ''slow query'', dl_attrs = [(''query_duration'', AttrDuration (fin - start)),
              (''sql'', AttrText (qs_SQL d))] @ error_attr err\<rparr>] else [])
    \<and> map dl_msg (TraceAcquireEnd t fin stat err (TraceQueryStart t now d (TraceAcquireStart t start ctx))) =
      (if 0 < SlowAcquire t \<and> SlowAcquire t \<le> fin - start then [''slow connection acquire''] else [])
    \<and> TraceQueryEnd t fin err (TraceQueryStart t start (d\<lparr>qs_Args := args\<rparr>) ctx)
        = TraceQueryEnd t fin err (TraceQueryStart t start d ctx)"
  using traced_off[OF assms]
  by (auto simp: TraceQueryEnd_def TraceQueryStart_def TraceAcquireStart_def TraceAcquireEnd_def Let_def)

theorem slow_logs_witness:
  "TraceQueryEnd \<lparr>SlowQuery = 5, SlowAcquire = 3\<rparr> 9 None
     (TraceAcquireStart \<lparr>SlowQuery = 5, SlowAcquire = 3\<rparr> 2
       (TraceQueryStart \<lparr>SlowQuery = 5, SlowAcquire = 3\<rparr> 1 \<lparr>qs_SQL = ''SELECT 1'', qs_Args = [''secret'']\<rparr> Background))
   = [\<lparr>dl_msg = ''slow query'', dl_attrs = [(''query_duration'', AttrDuration 8), (''sql'', AttrText ''SELECT 1'')]\<rparr>]"
  using slow_logs[OF traced.background, of "\<lparr>SlowQuery = 5, SlowAcquire = 3\<rparr>" 9 None 2 1
      "\<lparr>qs_SQL = ''SELECT 1'', qs_Args = [''secret'']\<rparr>"] by (simp add: error_attr_def)

end
