(* ===== verification/Config.thy ===== *)
theory Config
  imports Dsn Dbtrace Middleware
begin

text \<open>
  \<^verbatim>\<open>cmd/api/main.go\<close> and \<^verbatim>\<open>internal/server/server.go\<close>: the configuration read from the environment and
  checked, the connection pool, and the life of the server from its start to its last log line.  The
  process is seen by what it does to the world outside: the effects, in order.
\<close>

section \<open>server.go\<close>

definition DefPort :: int where "DefPort = 8080"
definition DefShutdownTimeout :: int where "DefShutdownTimeout = 10 * Second"
definition WriteTimeout :: int where "WriteTimeout = 10 * Second"
definition DefUserColorQuota :: int where "DefUserColorQuota = 100"
definition DefUserCollectionQuota :: int where "DefUserCollectionQuota = 10"
definition DefAuthTokenTTL :: int where "DefAuthTokenTTL = 24 * (3600 * Second)"
definition DefAuthConcurLimit :: int where "DefAuthConcurLimit = 3"
definition DefAuthConcurWait :: int where "DefAuthConcurWait = Second"

record server_config =
  sc_Port :: int
  sc_ShutdownTimeout :: int

record http_server =
  hs_Addr :: string
  hs_IdleTimeout :: int
  hs_ReadTimeout :: int
  hs_WriteTimeout :: int
  hs_MaxHeaderBytes :: nat

record pool_config =
  pc_Host :: string
  pc_Port :: int
  pc_Database :: string
  pc_User :: string
  pc_Password :: string
  pc_TLS :: bool
  pc_MaxConns :: int
  pc_MaxConnIdleTime :: int
  pc_Tracer :: "tracer option"

text \<open>What \<^verbatim>\<open>slog.Info("database config")\<close> shows.\<close>

record database_log =
  db_host :: string
  db_port :: int
  db_database :: string
  db_user :: string
  db_tls :: bool
  db_max_conns :: int
  db_max_conn_idle_time :: int
  db_slow_query :: int
  db_slow_acquire :: int

text \<open>
  What the process does to the world, in the order of its main goroutine.  \<^verbatim>\<open>GoPing\<close> starts the goroutine
  of \<^verbatim>\<open>logDBReachable\<close> and carries what that logs when its ping has been answered.
\<close>

datatype ping_log = PoolReachable | NotReachable go_error

datatype boot =
    LogStarting string                  \<comment> \<open>\<^verbatim>\<open>wavelen starting\<close>\<close>
  | LogWebDir string                    \<comment> \<open>\<^verbatim>\<open>serving web assets from disk\<close>\<close>
  | LogDatabase database_log
  | OpenPool pool_config
  | GoPing ping_log
  | LogServer http_server int           \<comment> \<open>\<^verbatim>\<open>starting server\<close>\<close>
  | ServeOn http_server handler_config
  | LogShutdown int                     \<comment> \<open>\<^verbatim>\<open>shutting down server\<close>\<close>
  | Shutdown int
  | LogStopped                          \<comment> \<open>\<^verbatim>\<open>server stopped\<close>\<close>
  | ClosePool
  | LogFailed go_error                  \<comment> \<open>\<^verbatim>\<open>wavelen failed\<close>\<close>
  | Stderr go_error
  | CloseLog

text \<open>
  Which case of the \<^verbatim>\<open>select\<close> in \<^verbatim>\<open>Start\<close> runs, with what \<^verbatim>\<open>ListenAndServe\<close> or \<^verbatim>\<open>Shutdown\<close> answers.  The
  goroutine keeps \<^verbatim>\<open>http.ErrServerClosed\<close> to itself, so a failure is any other error.
\<close>

datatype lifecycle = ServeFailed go_error | Signalled "go_error option"

definition Start :: "handler_config \<Rightarrow> server_config \<Rightarrow> lifecycle \<Rightarrow> go_error option \<times> boot list" where
  "Start hcfg cfg lc =
     (let srv = \<lparr>hs_Addr = '':'' @ Itoa (sc_Port cfg), hs_IdleTimeout = 60 * Second, hs_ReadTimeout = 10 * Second,
            hs_WriteTimeout = WriteTimeout, hs_MaxHeaderBytes = push_bit 20 1\<rparr>;
          started = [LogServer srv (sc_ShutdownTimeout cfg), ServeOn srv hcfg];
          drain = [LogShutdown (sc_ShutdownTimeout cfg), Shutdown (sc_ShutdownTimeout cfg)] in
      case lc of
        ServeFailed err \<Rightarrow> (Some (Errorf [] [Sentinel ErrServe, err]), started)
      | Signalled None \<Rightarrow> (None, started @ drain @ [LogStopped])
      | Signalled (Some err) \<Rightarrow> (Some (Errorf [] [Sentinel ErrShutdown, err]), started @ drain))"

section \<open>main.go: the configuration\<close>

definition configError :: "string \<Rightarrow> (go_error, 'a) result" where
  "configError msg = Inl (Errorf msg [Sentinel ErrConfig])"

definition serverConfig :: "fenv \<Rightarrow> getenv \<Rightarrow> (go_error, server_config) result" where
  "serverConfig m env =
     (case intFromEnv env ''PORT'' DefPort of
        Inl err \<Rightarrow> Inl err
      | Inr port \<Rightarrow>
          (case durationFromEnv m env ''SHUTDOWN_TIMEOUT'' DefShutdownTimeout of
             Inl err \<Rightarrow> Inl err
           | Inr shutdownTimeout \<Rightarrow>
               if port \<le> 0 \<or> port > 65535 then configError ''PORT should be in 1..65535''
               else if shutdownTimeout \<le> 0 then configError ''SHUTDOWN_TIMEOUT should be positive''
               else Inr \<lparr>sc_Port = port, sc_ShutdownTimeout = shutdownTimeout\<rparr>))"

text \<open>The nil \<^verbatim>\<open>fs.FS\<close> of a \<^verbatim>\<open>HandlerConfig\<close> before \<^verbatim>\<open>run\<close> sets it; nothing is served from it.\<close>

definition nilFS :: "request \<Rightarrow> reply" where
  "nilFS req = Unwritten"

definition handlerConfig :: "fenv \<Rightarrow> getenv \<Rightarrow> (go_error, handler_config) result" where
  "handlerConfig m env =
     (case intFromEnv env ''USER_COLOR_QUOTA'' DefUserColorQuota of
        Inl err \<Rightarrow> Inl err
      | Inr colorQuota \<Rightarrow>
      if colorQuota \<le> 0 then configError ''USER_COLOR_QUOTA should be positive'' else
     (case intFromEnv env ''USER_COLLECTION_QUOTA'' DefUserCollectionQuota of
        Inl err \<Rightarrow> Inl err
      | Inr collectionQuota \<Rightarrow>
      if collectionQuota \<le> 0 then configError ''USER_COLLECTION_QUOTA should be positive'' else
     (case durationFromEnv m env ''AUTH_TOKEN_TTL'' DefAuthTokenTTL of
        Inl err \<Rightarrow> Inl err
      | Inr ttl \<Rightarrow>
      if ttl \<le> 0 then configError ''AUTH_TOKEN_TTL should be positive'' else
     (case intFromEnv env ''AUTH_CONCUR_LIMIT'' DefAuthConcurLimit of
        Inl err \<Rightarrow> Inl err
      | Inr authLimit \<Rightarrow>
      if authLimit < 0 then configError ''AUTH_CONCUR_LIMIT should be >= 0'' else
     (case durationFromEnv m env ''AUTH_CONCUR_WAIT'' DefAuthConcurWait of
        Inl err \<Rightarrow> Inl err
      | Inr authWait \<Rightarrow>
      if authWait < 0 \<or> authWait \<ge> WriteTimeout div 2 then configError ''AUTH_CONCUR_WAIT should be in [0, 5s)'' else
      Inr \<lparr>hc_WebFS = nilFS, hc_UserColorQuota = colorQuota, hc_UserCollectionQuota = collectionQuota,
        hc_AuthTokenTTL = ttl, hc_AuthConcurLimit = authLimit, hc_AuthConcurWait = authWait\<rparr>)))))"

definition tracerConfig :: "fenv \<Rightarrow> getenv \<Rightarrow> (go_error, tracer) result" where
  "tracerConfig m env =
     (case durationFromEnv m env ''DB_SLOW_QUERY'' DefSlowQuery of
        Inl err \<Rightarrow> Inl err
      | Inr slowQuery \<Rightarrow>
      if slowQuery < 0 then configError ''DB_SLOW_QUERY should be >= 0'' else
     (case durationFromEnv m env ''DB_SLOW_ACQUIRE'' DefSlowAcquire of
        Inl err \<Rightarrow> Inl err
      | Inr slowAcquire \<Rightarrow>
      if slowAcquire < 0 then configError ''DB_SLOW_ACQUIRE should be >= 0'' else
      Inr \<lparr>SlowQuery = slowQuery, SlowAcquire = slowAcquire\<rparr>))"

section \<open>main.go: run\<close>

text \<open>
  What the program is handed: the environment, the version of the build, the embedded and the on-disk
  web assets, \<^verbatim>\<open>fs.Stat\<close> of \<^verbatim>\<open>index.html\<close> in a directory, \<^verbatim>\<open>pgxpool.ParseConfig\<close>, \<^verbatim>\<open>NewWithConfig\<close>
  and \<^verbatim>\<open>Ping\<close> with its timeout, and the logger of \<^verbatim>\<open>slogenv\<close>, whose configuration type is its own.
\<close>

record 'cfg os =
  os_Getenv :: getenv
  os_version :: string
  os_Sub :: "(go_error, request \<Rightarrow> reply) result"
  os_DirFS :: "string \<Rightarrow> request \<Rightarrow> reply"
  os_Stat :: "string \<Rightarrow> go_error option"
  os_ParseConfig :: "string \<Rightarrow> (go_error, pool_config) result"
  os_NewWithConfig :: "pool_config \<Rightarrow> go_error option"
  os_Ping :: "int \<Rightarrow> go_error option"
  os_ConfigFromEnv :: "(go_error, 'cfg) result"
  os_Setup :: "'cfg \<Rightarrow> (request \<Rightarrow> (string \<times> string) list) option \<Rightarrow> go_error option"

definition webFS :: "'cfg os \<Rightarrow> (go_error, request \<Rightarrow> reply) result \<times> boot list" where
  "webFS e =
     (let dir = os_Getenv e ''WEB_DIR'' in
      if dir = [] then
        (case os_Sub e of Inl err \<Rightarrow> (Inl (Errorf ''web assets'' [err]), []) | Inr assets \<Rightarrow> (Inr assets, []))
      else if os_version e \<noteq> version_Dev then (configError ''WEB_DIR is dev only'', [])
      else case os_Stat e dir of
             Some err \<Rightarrow> (Inl (Errorf (''WEB_DIR='' @ dir) [Sentinel ErrConfig, err]), [])
           | None \<Rightarrow> (Inr (os_DirFS e dir), [LogWebDir dir]))"

definition maxConns :: int where "maxConns = 25"
definition maxConnIdleTime :: int where "maxConnIdleTime = 15 * (60 * Second)"

definition log_database :: "pool_config \<Rightarrow> tracer \<Rightarrow> database_log" where
  "log_database pc t =
     \<lparr>db_host = pc_Host pc, db_port = pc_Port pc, db_database = pc_Database pc, db_user = pc_User pc,
      db_tls = pc_TLS pc, db_max_conns = pc_MaxConns pc, db_max_conn_idle_time = pc_MaxConnIdleTime pc,
      db_slow_query = SlowQuery t, db_slow_acquire = SlowAcquire t\<rparr>"

definition openPool :: "fenv \<Rightarrow> 'cfg os \<Rightarrow> (go_error, pool_config) result \<times> boot list" where
  "openPool m e =
     (case DSN (os_Getenv e) ''postgres'' of
        Inl err \<Rightarrow> (Inl (Errorf [] [Sentinel ErrConfig, err]), [])
      | Inr dsn \<Rightarrow>
          (case os_ParseConfig e dsn of
             Inl err \<Rightarrow> (Inl (Errorf ''database'' [Sentinel ErrConfig, err]), [])
           | Inr parsed \<Rightarrow>
               let sized = parsed\<lparr>pc_MaxConns := maxConns, pc_MaxConnIdleTime := maxConnIdleTime\<rparr> in
               (case tracerConfig m (os_Getenv e) of
                  Inl err \<Rightarrow> (Inl err, [])
                | Inr t \<Rightarrow>
                    let poolCfg = sized\<lparr>pc_Tracer := Some t\<rparr>; logged = [LogDatabase (log_database poolCfg t)] in
                    (case os_NewWithConfig e poolCfg of
                       Some err \<Rightarrow> (Inl (Errorf ''database pool'' [err]), logged)
                     | None \<Rightarrow> (Inr poolCfg, logged @ [OpenPool poolCfg])))))"

definition pingTimeout :: int where "pingTimeout = 3 * Second"

definition logDBReachable :: "(int \<Rightarrow> go_error option) \<Rightarrow> ping_log" where
  "logDBReachable ping = (case ping pingTimeout of Some err \<Rightarrow> NotReachable err | None \<Rightarrow> PoolReachable)"

definition run_api :: "fenv \<Rightarrow> 'cfg os \<Rightarrow> lifecycle \<Rightarrow> go_error option \<times> boot list" where
  "run_api m e lc =
     (let first = [LogStarting (os_version e)] in
      case serverConfig m (os_Getenv e) of
        Inl err \<Rightarrow> (Some err, first)
      | Inr serverCfg \<Rightarrow>
          (case handlerConfig m (os_Getenv e) of
             Inl err \<Rightarrow> (Some err, first)
           | Inr handlerCfg \<Rightarrow>
               (case webFS e of
                  (Inl err, web) \<Rightarrow> (Some err, first @ web)
                | (Inr assets, web) \<Rightarrow>
                    (case openPool m e of
                       (Inl err, acts) \<Rightarrow> (Some err, first @ web @ acts)
                     | (Inr pool, acts) \<Rightarrow>
                         (case Start (handlerCfg\<lparr>hc_WebFS := assets\<rparr>) serverCfg lc of
                            (res, life) \<Rightarrow>
                              (res, first @ web @ acts @ [GoPing (logDBReachable (os_Ping e))] @ life @ [ClosePool]))))))"

definition setupLogging :: "'cfg os \<Rightarrow> go_error option" where
  "setupLogging e = (case os_ConfigFromEnv e of Inl err \<Rightarrow> Some err | Inr cfg \<Rightarrow> os_Setup e cfg (Some LogAttrs))"

text \<open>
  \<^verbatim>\<open>main\<close>: the exit status and everything the process did.  \<^verbatim>\<open>os.Exit\<close> runs no deferred call, so the
  log is closed by \<^verbatim>\<open>main\<close> only when it returns.
\<close>

definition main_api :: "fenv \<Rightarrow> 'cfg os \<Rightarrow> lifecycle \<Rightarrow> nat \<times> boot list" where
  "main_api m e lc =
     (case setupLogging e of
        Some err \<Rightarrow> (1, [Stderr err])
      | None \<Rightarrow>
          (case run_api m e lc of
             (Some err, acts) \<Rightarrow> (1, acts @ [LogFailed err])
           | (None, acts) \<Rightarrow> (0, acts @ [CloseLog])))"

section \<open>Whatever the environment says\<close>

lemma env_errors:
  "intFromEnv env name d = Inl err \<Longrightarrow> errors_is err ErrConfig"
  "durationFromEnv m env name d = Inl err \<Longrightarrow> errors_is err ErrConfig"
  "configError msg = Inl err \<Longrightarrow> errors_is err ErrConfig"
  by (auto simp: intFromEnv_def durationFromEnv_def configError_def Let_def split: if_splits sum.splits)

lemma ParseDuration_range: "ParseDuration m s = Inr d \<Longrightarrow> - (2 ^ 63) \<le> d \<and> d < 2 ^ 63"
proof -
  have "- (2 ^ 63) \<le> sint x \<and> sint x < 2 ^ 63" for x :: "64 word"
    using sint_greater_eq[of x] sint_less[of x] by simp
  then show "ParseDuration m s = Inr d \<Longrightarrow> - (2 ^ 63) \<le> d \<and> d < 2 ^ 63"
    by (auto simp: ParseDuration_def durationError_def split: prod.splits if_splits sum.splits)
qed

lemma env_ranges:
  "intFromEnv env name d = Inr n \<Longrightarrow> \<bar>d\<bar> < 2 ^ 63 \<Longrightarrow> n < 2 ^ 63"
  "durationFromEnv m env name d = Inr n \<Longrightarrow> \<bar>d\<bar> < 2 ^ 63 \<Longrightarrow> n < 2 ^ 63"
  using Atoi_range[of "env name" n] ParseDuration_range[of m "env name" n]
  by (auto simp: intFromEnv_def durationFromEnv_def Let_def split: if_splits sum.splits)

lemmas default_values = DefPort_def DefShutdownTimeout_def WriteTimeout_def DefUserColorQuota_def
  DefUserCollectionQuota_def DefAuthTokenTTL_def DefAuthConcurLimit_def DefAuthConcurWait_def
  DefSlowQuery_def DefSlowAcquire_def Second_def

definition server_config_ok :: "server_config \<Rightarrow> bool" where
  "server_config_ok c \<longleftrightarrow> 1 \<le> sc_Port c \<and> sc_Port c \<le> 65535 \<and> 0 < sc_ShutdownTimeout c \<and> sc_ShutdownTimeout c < 2 ^ 63"

definition handler_config_ok :: "handler_config \<Rightarrow> bool" where
  "handler_config_ok c \<longleftrightarrow> 0 < hc_UserColorQuota c \<and> hc_UserColorQuota c < 2 ^ 63
     \<and> 0 < hc_UserCollectionQuota c \<and> hc_UserCollectionQuota c < 2 ^ 63
     \<and> 0 < hc_AuthTokenTTL c \<and> hc_AuthTokenTTL c < 2 ^ 63
     \<and> 0 \<le> hc_AuthConcurLimit c \<and> hc_AuthConcurLimit c < 2 ^ 63
     \<and> 0 \<le> hc_AuthConcurWait c \<and> 2 * hc_AuthConcurWait c < WriteTimeout"

lemma serverConfig_cases:
  "case serverConfig m env of Inl err \<Rightarrow> errors_is err ErrConfig | Inr c \<Rightarrow> server_config_ok c"
  using env_errors env_ranges
  by (auto simp: serverConfig_def server_config_ok_def configError_def default_values split: sum.split)

lemma handlerConfig_cases:
  "case handlerConfig m env of Inl err \<Rightarrow> errors_is err ErrConfig | Inr c \<Rightarrow> handler_config_ok c"
  using env_errors env_ranges
  by (auto simp: handlerConfig_def handler_config_ok_def configError_def default_values split: sum.split)

lemma tracerConfig_cases:
  "case tracerConfig m env of Inl err \<Rightarrow> errors_is err ErrConfig | Inr t \<Rightarrow> 0 \<le> SlowQuery t \<and> 0 \<le> SlowAcquire t"
  using env_errors by (auto simp: tracerConfig_def configError_def split: sum.split)

text \<open>A variable that is not set, or is set to a decimal number; a duration in seconds.\<close>

definition int_set :: "getenv \<Rightarrow> string \<Rightarrow> int \<Rightarrow> int \<Rightarrow> bool" where
  "int_set env name d n \<longleftrightarrow> (if env name = [] then n = d else 0 \<le> n \<and> n < 2 ^ 63 \<and> env name = decimal (nat n))"

definition seconds_set :: "getenv \<Rightarrow> string \<Rightarrow> int \<Rightarrow> int \<Rightarrow> bool" where
  "seconds_set env name d n \<longleftrightarrow>
     (if env name = [] then n = d
      else \<exists>k \<le> 9000000000. n = int k * Second \<and> env name = decimal k @ ''s'')"

lemma int_set: "int_set env name d n \<Longrightarrow> intFromEnv env name d = Inr n"
  using Atoi_decimal[of "nat n"] by (auto simp: int_set_def intFromEnv_def Let_def split: if_splits)

lemma seconds_set: "seconds_set env name d n \<Longrightarrow> durationFromEnv m env name d = Inr n"
  by (auto simp: seconds_set_def durationFromEnv_def Let_def ParseDuration_seconds split: if_splits)

text \<open>
  C32. The configuration is checked and read as written.  Whatever bytes the variables hold, reading
  them ends in an error that is ErrConfig or in a configuration within its documented bounds: a port
  that exists, positive quotas and lifetimes, a wait below half the write timeout, thresholds that are
  not negative.  In each of the three, a variable that is not set takes its own default, and one that
  holds a number, or a number of seconds, that number.
\<close>

theorem config_contract:
  fixes m :: fenv and env :: getenv
  shows "(case serverConfig m env of Inl err \<Rightarrow> errors_is err ErrConfig | Inr c \<Rightarrow> server_config_ok c)
    \<and> (case handlerConfig m env of Inl err \<Rightarrow> errors_is err ErrConfig | Inr c \<Rightarrow> handler_config_ok c)
    \<and> (case tracerConfig m env of Inl err \<Rightarrow> errors_is err ErrConfig | Inr t \<Rightarrow> 0 \<le> SlowQuery t \<and> 0 \<le> SlowAcquire t)
    \<and> (\<forall>c. server_config_ok c \<and> int_set env ''PORT'' DefPort (sc_Port c)
          \<and> seconds_set env ''SHUTDOWN_TIMEOUT'' DefShutdownTimeout (sc_ShutdownTimeout c) \<longrightarrow> serverConfig m env = Inr c)
    \<and> (\<forall>c. handler_config_ok c \<and> hc_WebFS c = nilFS
          \<and> int_set env ''USER_COLOR_QUOTA'' DefUserColorQuota (hc_UserColorQuota c)
          \<and> int_set env ''USER_COLLECTION_QUOTA'' DefUserCollectionQuota (hc_UserCollectionQuota c)
          \<and> seconds_set env ''AUTH_TOKEN_TTL'' DefAuthTokenTTL (hc_AuthTokenTTL c)
          \<and> int_set env ''AUTH_CONCUR_LIMIT'' DefAuthConcurLimit (hc_AuthConcurLimit c)
          \<and> seconds_set env ''AUTH_CONCUR_WAIT'' DefAuthConcurWait (hc_AuthConcurWait c) \<longrightarrow> handlerConfig m env = Inr c)
    \<and> (\<forall>t. 0 \<le> SlowQuery t \<and> 0 \<le> SlowAcquire t
          \<and> seconds_set env ''DB_SLOW_QUERY'' DefSlowQuery (SlowQuery t)
          \<and> seconds_set env ''DB_SLOW_ACQUIRE'' DefSlowAcquire (SlowAcquire t) \<longrightarrow> tracerConfig m env = Inr t)"
proof -
  have s: "serverConfig m env = Inr c"
    if "server_config_ok c" "int_set env ''PORT'' DefPort (sc_Port c)"
      "seconds_set env ''SHUTDOWN_TIMEOUT'' DefShutdownTimeout (sc_ShutdownTimeout c)" for c
    using that(1) int_set[OF that(2)] seconds_set[OF that(3)] by (simp add: serverConfig_def server_config_ok_def)
  have h: "handlerConfig m env = Inr c"
    if "handler_config_ok c" "hc_WebFS c = nilFS"
      "int_set env ''USER_COLOR_QUOTA'' DefUserColorQuota (hc_UserColorQuota c)"
      "int_set env ''USER_COLLECTION_QUOTA'' DefUserCollectionQuota (hc_UserCollectionQuota c)"
      "seconds_set env ''AUTH_TOKEN_TTL'' DefAuthTokenTTL (hc_AuthTokenTTL c)"
      "int_set env ''AUTH_CONCUR_LIMIT'' DefAuthConcurLimit (hc_AuthConcurLimit c)"
      "seconds_set env ''AUTH_CONCUR_WAIT'' DefAuthConcurWait (hc_AuthConcurWait c)" for c
    using that(1,2) int_set[OF that(3)] int_set[OF that(4)] seconds_set[OF that(5)] int_set[OF that(6)] seconds_set[OF that(7)]
    by (simp add: handlerConfig_def handler_config_ok_def default_values)
  have t: "tracerConfig m env = Inr t"
    if "0 \<le> SlowQuery t" "0 \<le> SlowAcquire t" "seconds_set env ''DB_SLOW_QUERY'' DefSlowQuery (SlowQuery t)"
      "seconds_set env ''DB_SLOW_ACQUIRE'' DefSlowAcquire (SlowAcquire t)" for t :: tracer
    using that(1,2) seconds_set[OF that(3)] seconds_set[OF that(4)] by (simp add: tracerConfig_def)
  show ?thesis using serverConfig_cases handlerConfig_cases tracerConfig_cases s h t by blast
qed

theorem config_contract_witness:
  "serverConfig binary64_env (\<lambda>name. if name = ''PORT'' then ''9000'' else if name = ''SHUTDOWN_TIMEOUT'' then ''30s'' else [])
    = Inr \<lparr>sc_Port = 9000, sc_ShutdownTimeout = 30000000000\<rparr>"
proof -
  let ?env = "\<lambda>name. if name = ''PORT'' then ''9000'' else if name = ''SHUTDOWN_TIMEOUT'' then ''30s'' else []"
  let ?c = "\<lparr>sc_Port = 9000, sc_ShutdownTimeout = 30000000000\<rparr>"
  have d: "decimal 9000 = ''9000''" "decimal 30 = ''30''"
    by (simp_all add: decimal.simps digit_def char_of_def bit_iff_odd)
  have "int_set ?env ''PORT'' DefPort (sc_Port ?c)" by (simp add: int_set_def d)
  moreover have "seconds_set ?env ''SHUTDOWN_TIMEOUT'' DefShutdownTimeout (sc_ShutdownTimeout ?c)"
    using d(2) by (auto simp: seconds_set_def Second_def intro!: exI[of _ 30])
  moreover have "server_config_ok ?c" by (simp add: server_config_ok_def)
  ultimately show ?thesis using config_contract[of binary64_env ?env] by blast
qed

text \<open>The configuration errors of a start: nothing has been opened.\<close>

definition nothing_opened :: "boot list \<Rightarrow> bool" where
  "nothing_opened acts \<longleftrightarrow> list_all (\<lambda>a. case a of LogStarting _ \<Rightarrow> True | LogWebDir _ \<Rightarrow> True | LogDatabase _ \<Rightarrow> True | _ \<Rightarrow> False) acts"

lemma webFS_cases:
  "webFS e = (r, web) \<Longrightarrow> web = [] \<or> os_version e = version_Dev \<and> (\<exists>dir. web = [LogWebDir dir])"
  by (auto simp: webFS_def Let_def split: if_splits sum.splits option.splits)

lemma openPool_cases:
  "openPool m e = (r, acts) \<Longrightarrow> (case r of
     Inl _ \<Rightarrow> nothing_opened acts
   | Inr pool \<Rightarrow> \<exists>t. acts = [LogDatabase (log_database pool t), OpenPool pool] \<and> pc_MaxConns pool = maxConns
       \<and> pc_MaxConnIdleTime pool = maxConnIdleTime \<and> pc_Tracer pool = Some t)"
  by (auto simp: openPool_def Let_def nothing_opened_def split: sum.splits option.splits)

lemma nothing_opened_simps [simp]:
  "nothing_opened []" "nothing_opened (a @ b) = (nothing_opened a \<and> nothing_opened b)"
  "nothing_opened (LogStarting v # a) = nothing_opened a" "nothing_opened (LogWebDir d # a) = nothing_opened a"
  by (auto simp: nothing_opened_def)

lemma run_api_cases:
  obtains (refused) err acts where "run_api m e lc = (Some err, acts)" "nothing_opened acts"
  | (ready) sc hc assets web pool acts where "serverConfig m (os_Getenv e) = Inr sc" "handlerConfig m (os_Getenv e) = Inr hc"
      "webFS e = (Inr assets, web)" "openPool m e = (Inr pool, acts)"
      "run_api m e lc = (case Start (hc\<lparr>hc_WebFS := assets\<rparr>) sc lc of (res, life) \<Rightarrow>
         (res, [LogStarting (os_version e)] @ web @ acts @ [GoPing (logDBReachable (os_Ping e))] @ life @ [ClosePool]))"
proof -
  obtain w web where w: "webFS e = (w, web)" by fastforce
  obtain p acts where p: "openPool m e = (p, acts)" by fastforce
  have n: "nothing_opened web" using webFS_cases[OF w] by (auto simp: nothing_opened_def)
  have po: "p = Inl err \<Longrightarrow> nothing_opened acts" for err using openPool_cases[OF p] by simp
  show ?thesis
  proof (cases "\<exists>sc hc assets pool. serverConfig m (os_Getenv e) = Inr sc \<and> handlerConfig m (os_Getenv e) = Inr hc
      \<and> w = Inr assets \<and> p = Inr pool")
    case True
    then show ?thesis using w p that(2) by (auto simp: run_api_def Let_def)
  next
    case False
    then have "\<exists>err acts. run_api m e lc = (Some err, acts) \<and> nothing_opened acts"
      using n po w p by (auto simp: run_api_def Let_def split: sum.splits)
    then show ?thesis using that(1) by blast
  qed
qed

definition refuses :: "fenv \<Rightarrow> 'cfg os \<Rightarrow> bool" where
  "refuses m e \<longleftrightarrow> (\<exists>err. serverConfig m (os_Getenv e) = Inl err) \<or> (\<exists>err. handlerConfig m (os_Getenv e) = Inl err)
     \<or> (\<exists>err. fst (webFS e) = Inl err) \<or> (\<exists>err. fst (openPool m e) = Inl err)"

text \<open>How a run ends once it serves: the exit status and the last effects.\<close>

definition ends :: "lifecycle \<Rightarrow> int \<Rightarrow> nat \<Rightarrow> boot list \<Rightarrow> bool" where
  "ends lc d status tail \<longleftrightarrow>
     (case lc of
        ServeFailed _ \<Rightarrow> status = 1 \<and> (\<exists>x. tail = [ClosePool, LogFailed x] \<and> errors_is x ErrServe)
      | Signalled None \<Rightarrow> status = 0 \<and> tail = [LogShutdown d, Shutdown d, LogStopped, ClosePool, CloseLog]
      | Signalled (Some _) \<Rightarrow>
          status = 1 \<and> (\<exists>x. tail = [LogShutdown d, Shutdown d, ClosePool, LogFailed x] \<and> errors_is x ErrShutdown))"

text \<open>
  What of all this depends on the password.  \<^verbatim>\<open>pgxpool.ParseConfig\<close> takes it out of its error
  messages and otherwise carries it to \<^verbatim>\<open>ConnConfig.Password\<close>, and \<^verbatim>\<open>NewWithConfig\<close>, which does not
  dial, does not look at it: that is \<^verbatim>\<open>redacts\<close>, for the environment at hand.
\<close>

definition hide_password :: "pool_config \<Rightarrow> pool_config" where
  "hide_password pc = pc\<lparr>pc_Password := []\<rparr>"

fun masked :: "boot \<Rightarrow> boot" where
  "masked (OpenPool pc) = OpenPool (hide_password pc)"
| "masked a = a"

definition with_password :: "string \<Rightarrow> 'cfg os \<Rightarrow> 'cfg os" where
  "with_password p e = e\<lparr>os_Getenv := (os_Getenv e)(''POSTGRES_PASSWORD'' := p)\<rparr>"

definition redacts :: "'cfg os \<Rightarrow> bool" where
  "redacts e \<longleftrightarrow>
     (\<forall>p d d'. DSN (os_Getenv e) ''postgres'' = Inr d \<and> DSN (os_Getenv (with_password p e)) ''postgres'' = Inr d'
        \<longrightarrow> map_sum id hide_password (os_ParseConfig e d') = map_sum id hide_password (os_ParseConfig e d))
     \<and> (\<forall>pc. os_NewWithConfig e pc = os_NewWithConfig e (hide_password pc))"

lemma other_variable [simp]:
  "name \<noteq> x \<Longrightarrow> intFromEnv (env(x := p)) name d = intFromEnv env name d"
  "name \<noteq> x \<Longrightarrow> durationFromEnv m (env(x := p)) name d = durationFromEnv m env name d"
  by (simp_all add: intFromEnv_def durationFromEnv_def)

lemma with_password_simps [simp]:
  "serverConfig m (os_Getenv (with_password p e)) = serverConfig m (os_Getenv e)"
  "handlerConfig m (os_Getenv (with_password p e)) = handlerConfig m (os_Getenv e)"
  "tracerConfig m (os_Getenv (with_password p e)) = tracerConfig m (os_Getenv e)"
  "webFS (with_password p e) = webFS e" "setupLogging (with_password p e) = setupLogging e"
  "os_version (with_password p e) = os_version e" "os_ParseConfig (with_password p e) = os_ParseConfig e"
  "os_NewWithConfig (with_password p e) = os_NewWithConfig e" "os_Ping (with_password p e) = os_Ping e"
  by (simp_all add: with_password_def serverConfig_def handlerConfig_def tracerConfig_def webFS_def
      setupLogging_def Let_def cong: sum.case_cong option.case_cong if_cong)

lemma openPool_password:
  assumes "redacts e" "p \<noteq> []" "os_Getenv e ''POSTGRES_PASSWORD'' \<noteq> []"
  shows "map_prod (map_sum id hide_password) (map masked) (openPool m (with_password p e))
    = map_prod (map_sum id hide_password) (map masked) (openPool m e)"
proof (cases "DSN (os_Getenv e) ''postgres''")
  case (Inl err)
  then have "DSN (os_Getenv (with_password p e)) ''postgres'' = Inl err"
    using assms(2,3) by (auto simp: DSN_def with_password_def Let_def split: if_splits)
  then show ?thesis using Inl by (simp add: openPool_def)
next
  case (Inr d)
  then obtain d' where d': "DSN (os_Getenv (with_password p e)) ''postgres'' = Inr d'"
    using assms(2) by (auto simp: DSN_def with_password_def Let_def split: if_splits)
  have same: "map_sum id hide_password (os_ParseConfig e d') = map_sum id hide_password (os_ParseConfig e d)"
    using assms(1) Inr d' unfolding redacts_def by blast
  have new: "os_NewWithConfig e pc = os_NewWithConfig e (hide_password pc)" for pc
    using assms(1) unfolding redacts_def by blast
  show ?thesis
  proof (cases "os_ParseConfig e d")
    case (Inl err)
    then show ?thesis using Inr d' same by (cases "os_ParseConfig e d'") (simp_all add: openPool_def)
  next
    case parsed: (Inr pc)
    then obtain pc' where pc': "os_ParseConfig e d' = Inr pc'" "hide_password pc' = hide_password pc"
      using same by (cases "os_ParseConfig e d'") simp_all
    then have "pc' = pc\<lparr>pc_Password := pc_Password pc'\<rparr>" by (cases pc; cases pc') (simp add: hide_password_def)
    then obtain x where x: "pc' = pc\<lparr>pc_Password := x\<rparr>" by blast
    have "os_NewWithConfig e (pc'\<lparr>pc_MaxConns := a, pc_MaxConnIdleTime := b, pc_Tracer := c\<rparr>)
        = os_NewWithConfig e (pc\<lparr>pc_MaxConns := a, pc_MaxConnIdleTime := b, pc_Tracer := c\<rparr>)" for a b c
      by (subst (1 2) new) (simp add: x hide_password_def)
    then show ?thesis
      by (simp add: openPool_def Inr d' parsed pc'(1) Let_def split: sum.split option.split)
        (simp add: x hide_password_def log_database_def)
  qed
qed

lemma main_api_password:
  assumes "redacts e" "p \<noteq> []" "os_Getenv e ''POSTGRES_PASSWORD'' \<noteq> []"
  shows "map_prod id (map masked) (main_api m (with_password p e) lc) = map_prod id (map masked) (main_api m e lc)"
proof -
  obtain r acts where r: "openPool m e = (r, acts)" by fastforce
  obtain r' acts' where r': "openPool m (with_password p e) = (r', acts')" by fastforce
  have same: "map_sum id hide_password r' = map_sum id hide_password r" "map masked acts' = map masked acts"
    using openPool_password[OF assms, of m] by (simp_all add: r r')
  then have "map_prod id (map masked) (run_api m (with_password p e) lc) = map_prod id (map masked) (run_api m e lc)"
    by (cases r; cases r') (simp_all add: run_api_def r r' Let_def split: sum.split prod.split)
  then show ?thesis
    by (cases "run_api m e lc"; cases "run_api m (with_password p e) lc")
      (auto simp: main_api_def split: option.split)
qed

text \<open>
  C33. Nothing starts on a bad configuration, and nothing is left open.  Without a logger the process
  says why on stderr and does nothing else.  With a configuration it refuses, it logs the error and exits
  with 1, having opened nothing.  Otherwise it logs the database it will use, without the password, opens
  one pool of the fixed size with its tracer, does not wait for the database to answer, serves a checked
  configuration on a port that exists, drains for the configured positive time when it is told to stop,
  and closes the pool after that.  It exits with 0 exactly after a clean drain.  The password is in none
  of this but the pool: start with another one, the outside world answering alike, and every effect is
  the same, refusals and their error messages included, except for the password the pool is given.
\<close>

theorem startup_effects:
  assumes "main_api m e lc = (status, acts)"
  shows "(if setupLogging e \<noteq> None then (\<exists>err. acts = [Stderr err]) \<and> status = 1
      else if refuses m e then (\<exists>prior err. nothing_opened prior \<and> acts = prior @ [LogFailed err]) \<and> status = 1
      else \<exists>web l pool t srv h d tail.
        acts = [LogStarting (os_version e)] @ web @ [LogDatabase l, OpenPool pool,
            GoPing (case os_Ping e (3 * Second) of None \<Rightarrow> PoolReachable | Some err \<Rightarrow> NotReachable err),
            LogServer srv d, ServeOn srv h] @ tail
        \<and> (web = [] \<or> os_version e = version_Dev \<and> (\<exists>dir. web = [LogWebDir dir]))
        \<and> (\<forall>x. l = log_database (pool\<lparr>pc_Password := x\<rparr>) t)
        \<and> pc_MaxConns pool = maxConns \<and> pc_MaxConnIdleTime pool = maxConnIdleTime \<and> pc_Tracer pool = Some t
        \<and> handler_config_ok h \<and> (\<exists>p. 1 \<le> p \<and> p \<le> 65535 \<and> hs_Addr srv = '':'' @ decimal p) \<and> d > 0
        \<and> ends lc d status tail)
    \<and> (redacts e \<and> os_Getenv e ''POSTGRES_PASSWORD'' \<noteq> [] \<longrightarrow> (\<forall>p. p \<noteq> [] \<longrightarrow>
        (case main_api m (with_password p e) lc of (status', acts') \<Rightarrow>
           status' = status \<and> map masked acts' = map masked acts)))"
    (is "?effects \<and> ?secret")
proof
  show ?secret
    using main_api_password[of e _ m lc] assms by (fastforce simp: map_prod_def split: prod.splits)
  show ?effects
  proof (cases "setupLogging e")
    case (Some err)
    then show ?thesis using assms by (auto simp: main_api_def)
  next
    case None
    show ?thesis
    proof (cases rule: run_api_cases[of m e lc])
      case (refused err prior)
      then have "refuses m e"
        by (auto simp: refuses_def run_api_def Let_def nothing_opened_def split: sum.splits prod.splits)
      then show ?thesis using assms None refused by (auto simp: main_api_def)
    next
      case (ready sc hc assets web pool acts')
      have nr: "\<not> refuses m e" using ready by (simp add: refuses_def)
      obtain t where p: "acts' = [LogDatabase (log_database pool t), OpenPool pool]" "pc_MaxConns pool = maxConns"
        "pc_MaxConnIdleTime pool = maxConnIdleTime" "pc_Tracer pool = Some t"
        using openPool_cases[OF ready(4)] by auto
      have ok: "server_config_ok sc" "handler_config_ok (hc\<lparr>hc_WebFS := assets\<rparr>)"
        using serverConfig_cases[of m "os_Getenv e"] handlerConfig_cases[of m "os_Getenv e"] ready(1,2)
        by (simp_all add: handler_config_ok_def)
      have port: "\<exists>p. 1 \<le> p \<and> p \<le> 65535 \<and> Itoa (sc_Port sc) = decimal p"
        using ok(1) by (intro exI[of _ "nat (sc_Port sc)"]) (auto simp: server_config_ok_def Itoa_def)
      have log: "log_database (pool\<lparr>pc_Password := x\<rparr>) t = log_database pool t" for x by (simp add: log_database_def)
      have d: "sc_ShutdownTimeout sc > 0" using ok(1) by (simp add: server_config_ok_def)
      have run: "\<exists>srv tail. hs_Addr srv = '':'' @ Itoa (sc_Port sc)
          \<and> acts = [LogStarting (os_version e)] @ web @ [LogDatabase (log_database pool t), OpenPool pool,
              GoPing (case os_Ping e (3 * Second) of None \<Rightarrow> PoolReachable | Some err \<Rightarrow> NotReachable err),
              LogServer srv (sc_ShutdownTimeout sc), ServeOn srv (hc\<lparr>hc_WebFS := assets\<rparr>)] @ tail
          \<and> ends lc (sc_ShutdownTimeout sc) status tail"
        using assms None ready(5) p(1)
        by (cases lc) (auto simp: main_api_def Start_def Let_def logDBReachable_def pingTimeout_def ends_def split: option.splits)
      show ?thesis using None nr run webFS_cases[OF ready(3)] log p(2-4) ok(2) port d by (simp only:) (metis log)
    qed
  qed
qed

text \<open>A \<^verbatim>\<open>ParseConfig\<close> for the examples: the parts of the URL, on one port and without TLS.\<close>

definition sample_parse :: "string \<Rightarrow> (go_error, pool_config) result" where
  "sample_parse d =
     (case url_Parse d of
        None \<Rightarrow> Inl (Foreign ''cannot parse the connection string'')
      | Some u \<Rightarrow> Inr \<lparr>pc_Host = url_Host u, pc_Port = 5433, pc_Database = drop 1 (url_Path u), pc_User = url_User u,
          pc_Password = url_Password u, pc_TLS = False, pc_MaxConns = 4, pc_MaxConnIdleTime = 0, pc_Tracer = None\<rparr>)"

definition sample_os :: "unit os" where
  "sample_os = \<lparr>os_Getenv = sample_environment, os_version = version_Dev, os_Sub = Inr nilFS, os_DirFS = (\<lambda>_. nilFS),
     os_Stat = (\<lambda>_. None), os_ParseConfig = sample_parse, os_NewWithConfig = (\<lambda>_. None), os_Ping = (\<lambda>_. None),
     os_ConfigFromEnv = Inr (), os_Setup = (\<lambda>_ _. None)\<rparr>"

lemma sample_parse_DSN:
  assumes "DSN (sample_environment(''POSTGRES_PASSWORD'' := p)) ''postgres'' = Inr d"
  shows "sample_parse d = Inr \<lparr>pc_Host = ''[::1]:5433'', pc_Port = 5433, pc_Database = ''wavelen'', pc_User = ''wave:len'',
    pc_Password = p, pc_TLS = False, pc_MaxConns = 4, pc_MaxConnIdleTime = 0, pc_Tracer = None\<rparr>"
proof -
  have h: "list_all (\<lambda>c. \<not> shouldEscape c encodeHost) ''[::1]:5433''"
    by (simp add: shouldEscape_def alnum_def isDigit_def)
  have "d = url_String ''postgres'' ''wave:len'' p ''[::1]:5433'' ''/wavelen''
      (escape encodeQueryComponent ''sslmode'' @ ''='' @ escape encodeQueryComponent ''disable'')"
    using assms by (auto simp: DSN_def Let_def sample_environment_def stringFromEnv_def JoinHostPort_def defaultPort_def
        defaultName_def defaultSSLMode_def split: if_splits)
  then show ?thesis
    using url_Parse_String[OF _ h, of "''postgres''" "''sslmode''" "''wave:len''" p "''wavelen''" "''disable''"]
    by (simp add: sample_parse_def)
qed

lemma sample_redacts: "redacts sample_os"
proof -
  have env: "sample_environment(''POSTGRES_PASSWORD'' := ''p@ss/w%rd?'') = sample_environment"
    by (simp add: fun_eq_iff sample_environment_def)
  have "map_sum id hide_password (sample_parse d') = map_sum id hide_password (sample_parse d)"
    if "DSN sample_environment ''postgres'' = Inr d"
      "DSN (sample_environment(''POSTGRES_PASSWORD'' := p)) ''postgres'' = Inr d'" for p d d'
    using sample_parse_DSN[of "''p@ss/w%rd?''" d] sample_parse_DSN[OF that(2)] that(1)
    by (simp add: env hide_password_def)
  then show ?thesis by (auto simp: redacts_def with_password_def sample_os_def)
qed

theorem startup_effects_witness:
  "\<exists>acts. main_api binary64_env sample_os (Signalled None) = (0, acts) \<and> last acts = CloseLog
    \<and> (\<exists>srv h. ServeOn srv h \<in> set acts)
    \<and> map masked (snd (main_api binary64_env (with_password ''rosebud'' sample_os) (Signalled None))) = map masked acts"
proof -
  obtain status acts where r: "main_api binary64_env sample_os (Signalled None) = (status, acts)" by fastforce
  have env: "sample_environment = sample_environment(''POSTGRES_PASSWORD'' := ''p@ss/w%rd?'')"
    by (simp add: fun_eq_iff sample_environment_def)
  obtain d where d: "DSN sample_environment ''postgres'' = Inr d"
    by (auto simp: DSN_def Let_def sample_environment_def)
  then have "\<exists>pc. sample_parse d = Inr pc" using sample_parse_DSN env by metis
  then have "setupLogging sample_os = None" "\<not> refuses binary64_env sample_os"
    using d by (auto simp: setupLogging_def refuses_def serverConfig_def handlerConfig_def tracerConfig_def intFromEnv_def
        durationFromEnv_def sample_os_def sample_environment_def[of "_ # _"] default_values webFS_def openPool_def Let_def)
  then have "status = 0 \<and> last acts = CloseLog \<and> (\<exists>srv h. ServeOn srv h \<in> set acts)"
    using startup_effects[OF r, THEN conjunct1] by (auto simp: ends_def)
  moreover have "os_Getenv sample_os ''POSTGRES_PASSWORD'' \<noteq> []" by (simp add: sample_os_def sample_environment_def)
  then have "case main_api binary64_env (with_password ''rosebud'' sample_os) (Signalled None) of
      (status', acts') \<Rightarrow> status' = status \<and> map masked acts' = map masked acts"
    by (rule startup_effects[OF r, THEN conjunct2, THEN mp, OF conjI[OF sample_redacts], rule_format]) simp
  ultimately show ?thesis using r by (simp add: case_prod_beta)
qed

end
