(* ===== verification/Migrate.thy ===== *)
theory Migrate
  imports Config
begin

text \<open>
  \<^verbatim>\<open>cmd/migrate/main.go\<close>: the command that applies the embedded migrations.  The library
  golang-migrate is a parameter over the database it works on: what \<^verbatim>\<open>Version\<close> reports and what \<^verbatim>\<open>Up\<close>
  answers and leaves.
\<close>

section \<open>The command\<close>

text \<open>\<^verbatim>\<open>Version\<close>: \<^verbatim>\<open>ErrNilVersion\<close>, another error, or the version and whether it is dirty.\<close>

datatype version_answer = NilVersion | VersionError go_error | Version nat bool

text \<open>\<^verbatim>\<open>Up\<close>: nil, \<^verbatim>\<open>ErrNoChange\<close>, or another error.\<close>

datatype up_answer = UpDone | UpNoChange | UpError go_error

text \<open>\<^verbatim>\<open>Close\<close> answers two errors, of the source and of the database.\<close>

record 'db migrator =
  mg_Version :: "'db \<Rightarrow> version_answer"
  mg_Up :: "'db \<Rightarrow> up_answer \<times> 'db"
  mg_Close :: "'db \<Rightarrow> go_error option \<times> go_error option"

text \<open>What the command calls and what it logs, in order.\<close>

datatype migrate_event =
    MigrateStarting string
  | CallOpen string | CallVersion | CallUp | CallClose
  | UpToDate nat | Applied nat nat
  | ClosingFailed "go_error option" "go_error option"
  | MigrateFailed go_error | MigrateStderr go_error | MigrateCloseLog

definition currentVersion :: "'db migrator \<Rightarrow> 'db \<Rightarrow> (go_error, nat) result" where
  "currentVersion mg db =
     (case mg_Version mg db of
        NilVersion \<Rightarrow> Inr 0
      | VersionError err \<Rightarrow> Inl (Errorf ''reading schema version'' [err])
      | Version v dirty \<Rightarrow>
          if dirty then Inl (NewError ''schema version is dirty, a previous migration failed. Needs repair'') else Inr v)"

text \<open>After the library is open.\<close>

definition apply_migrations :: "'db migrator \<Rightarrow> 'db \<Rightarrow> go_error option \<times> migrate_event list \<times> 'db" where
  "apply_migrations mg db =
     (case currentVersion mg db of
        Inl err \<Rightarrow> (Some err, [CallVersion], db)
      | Inr from \<Rightarrow>
          (case mg_Up mg db of
             (UpNoChange, db1) \<Rightarrow> (None, [CallVersion, CallUp, UpToDate from], db1)
           | (UpError err, db1) \<Rightarrow> (Some (Errorf ''applying migrations'' [err]), [CallVersion, CallUp], db1)
           | (UpDone, db1) \<Rightarrow>
               (case currentVersion mg db1 of
                  Inl err \<Rightarrow> (Some err, [CallVersion, CallUp, CallVersion], db1)
                | Inr to \<Rightarrow> (None, [CallVersion, CallUp, CallVersion, Applied from to], db1))))"

definition closeMigrate :: "'db migrator \<Rightarrow> 'db \<Rightarrow> migrate_event list" where
  "closeMigrate mg db =
     (case mg_Close mg db of
        (srcErr, dbErr) \<Rightarrow> CallClose # (if srcErr \<noteq> None \<or> dbErr \<noteq> None then [ClosingFailed srcErr dbErr] else []))"

text \<open>
  What the program is handed beside the library: the environment and the version of the build, the
  logger of \<^verbatim>\<open>slogenv\<close>, the answer of \<^verbatim>\<open>iofs.New\<close> and that of \<^verbatim>\<open>NewWithSourceInstance\<close> for a
  connection string.
\<close>

record 'cfg host =
  mh_Getenv :: getenv
  mh_version :: string
  mh_ConfigFromEnv :: "(go_error, 'cfg) result"
  mh_Setup :: "'cfg \<Rightarrow> (request \<Rightarrow> (string \<times> string) list) option \<Rightarrow> go_error option"
  mh_source :: "go_error option"
  mh_open :: "string \<Rightarrow> go_error option"

definition run_migrate ::
    "'cfg host \<Rightarrow> 'db migrator \<Rightarrow> 'db \<Rightarrow> go_error option \<times> migrate_event list \<times> 'db" where
  "run_migrate e mg db =
     (let first = [MigrateStarting (mh_version e)] in
      case mh_source e of
        Some err \<Rightarrow> (Some (Errorf ''reading embedded migrations'' [err]), first, db)
      | None \<Rightarrow>
          (case DSN (mh_Getenv e) MigrateScheme of
             Inl err \<Rightarrow> (Some err, first, db)
           | Inr dsn \<Rightarrow>
               (case mh_open e dsn of
                  Some err \<Rightarrow> (Some (Errorf ''opening the database'' [err]), first @ [CallOpen dsn], db)
                | None \<Rightarrow>
                    (case apply_migrations mg db of
                       (res, evs, db') \<Rightarrow> (res, first @ [CallOpen dsn] @ evs @ closeMigrate mg db', db')))))"

definition migrate_setupLogging :: "'cfg host \<Rightarrow> go_error option" where
  "migrate_setupLogging e = (case mh_ConfigFromEnv e of Inl err \<Rightarrow> Some err | Inr cfg \<Rightarrow> mh_Setup e cfg None)"

definition main_migrate :: "'cfg host \<Rightarrow> 'db migrator \<Rightarrow> 'db \<Rightarrow> nat \<times> migrate_event list \<times> 'db" where
  "main_migrate e mg db =
     (case migrate_setupLogging e of
        Some err \<Rightarrow> (1, [MigrateStderr err], db)
      | None \<Rightarrow>
          (case run_migrate e mg db of
             (Some err, evs, db') \<Rightarrow> (1, evs @ [MigrateFailed err], db')
           | (None, evs, db') \<Rightarrow> (0, evs @ [MigrateCloseLog], db')))"

definition dirty :: "'db migrator \<Rightarrow> 'db \<Rightarrow> bool" where
  "dirty mg db \<longleftrightarrow> (\<exists>v. mg_Version mg db = Version v True)"

text \<open>A run past its opening is the library's calls between opening and closing.\<close>

lemma main_migrate_cases:
  obtains (early) evs where "main_migrate e mg db = (1, evs, db)" "CallVersion \<notin> set evs" "CallUp \<notin> set evs"
  | (opened) dsn res evs db' where "mh_source e = None" "DSN (mh_Getenv e) MigrateScheme = Inr dsn" "mh_open e dsn = None"
      "migrate_setupLogging e = None" "apply_migrations mg db = (res, evs, db')"
      "main_migrate e mg db = (if res = None then 0 else 1,
         [MigrateStarting (mh_version e), CallOpen dsn] @ evs @ closeMigrate mg db'
           @ [case res of None \<Rightarrow> MigrateCloseLog | Some err \<Rightarrow> MigrateFailed err], db')"
proof (cases "migrate_setupLogging e = None \<and> mh_source e = None \<and>
    (\<exists>dsn. DSN (mh_Getenv e) MigrateScheme = Inr dsn \<and> mh_open e dsn = None)")
  case True
  then obtain dsn where ready: "migrate_setupLogging e = None" "mh_source e = None"
    "DSN (mh_Getenv e) MigrateScheme = Inr dsn" "mh_open e dsn = None" by blast
  obtain res evs db' where a: "apply_migrations mg db = (res, evs, db')" by (metis prod_cases3)
  show ?thesis
    by (rule that(2)[OF ready(2-4,1) a]) (use ready a in \<open>simp add: main_migrate_def run_migrate_def split: option.split\<close>)
next
  case False
  then have "\<exists>evs. main_migrate e mg db = (1, evs, db) \<and> CallVersion \<notin> set evs \<and> CallUp \<notin> set evs"
    by (auto simp: main_migrate_def run_migrate_def Let_def split: option.splits sum.splits)
  then show ?thesis using that(1) by blast
qed

lemma apply_migrations_cases:
  "apply_migrations mg db = (res, evs, db') \<Longrightarrow>
     (case currentVersion mg db of
        Inl err \<Rightarrow> res = Some err \<and> evs = [CallVersion] \<and> db' = db
      | Inr v \<Rightarrow> (res = None \<and> evs = [CallVersion, CallUp, UpToDate v] \<and> mg_Up mg db = (UpNoChange, db'))
          \<or> (\<exists>v'. res = None \<and> evs = [CallVersion, CallUp, CallVersion, Applied v v'] \<and> mg_Up mg db = (UpDone, db')
               \<and> currentVersion mg db' = Inr v')
          \<or> (res \<noteq> None \<and> (evs = [CallVersion, CallUp] \<or> evs = [CallVersion, CallUp, CallVersion])))"
  by (auto simp: apply_migrations_def split: sum.splits prod.splits up_answer.splits)

lemma currentVersion_clean:
  "currentVersion mg db = Inr v \<Longrightarrow> \<not> dirty mg db"
  "dirty mg db \<or> (\<exists>err. mg_Version mg db = VersionError err) \<Longrightarrow> \<exists>err. currentVersion mg db = Inl err"
  by (auto simp: currentVersion_def dirty_def split: version_answer.splits if_splits)

lemma closeMigrate_events [simp]:
  "CallClose \<in> set (closeMigrate mg db)" "CallUp \<notin> set (closeMigrate mg db)" "CallVersion \<notin> set (closeMigrate mg db)"
  "UpToDate v \<notin> set (closeMigrate mg db)" "Applied v w \<notin> set (closeMigrate mg db)"
  "filter (\<lambda>c. c = CallUp) (closeMigrate mg db) = []"
  by (cases "mg_Close mg db"; auto simp: closeMigrate_def)+

text \<open>
  C36. The migration command is safe to run again.  It never runs a migration on a schema whose
  version it cannot read or that an earlier run left dirty, runs \<^verbatim>\<open>Up\<close> at most once and closes what it
  opened; it exits with 0 only when the schema is clean; and since \<^verbatim>\<open>Up\<close> finds nothing to do where it
  has just succeeded, a second run then succeeds too, changes nothing and logs the version the first
  one ended with.
\<close>

theorem migrate_reruns:
  assumes law: "\<And>db db'. mg_Up mg db = (UpDone, db') \<Longrightarrow> mg_Up mg db' = (UpNoChange, db')"
    and noop: "\<And>db db'. mg_Up mg db = (UpNoChange, db') \<Longrightarrow> db' = db"
    and run: "main_migrate e mg db = (status, evs, db')"
  shows "(dirty mg db \<or> (\<exists>err. mg_Version mg db = VersionError err) \<longrightarrow> CallUp \<notin> set evs \<and> db' = db \<and> status = 1)
    \<and> length (filter (\<lambda>c. c = CallUp) evs) \<le> 1
    \<and> (CallVersion \<in> set evs \<longrightarrow> CallClose \<in> set evs)
    \<and> (status = 0 \<longrightarrow> \<not> dirty mg db'
        \<and> (\<exists>v w evs'. (UpToDate v \<in> set evs \<or> Applied w v \<in> set evs)
            \<and> main_migrate e mg db' = (0, evs', db') \<and> UpToDate v \<in> set evs'))"
proof (cases rule: main_migrate_cases[of e mg db])
  case (early evs0)
  then have "filter (\<lambda>c. c = CallUp) evs0 = []" by (auto simp: filter_empty_conv)
  then show ?thesis using run early by auto
next
  case (opened dsn res evs0 db0)
  have again: "\<exists>evs'. main_migrate e mg db' = (0, evs', db') \<and> UpToDate v \<in> set evs'"
    if "currentVersion mg db' = Inr v" "mg_Up mg db' = (UpNoChange, db')" for v
    using that opened(1-4) by (simp add: main_migrate_def run_migrate_def apply_migrations_def)
  have u: "db0 = db'" "status = (if res = None then 0 else 1)" "evs = [MigrateStarting (mh_version e), CallOpen dsn] @ evs0
      @ closeMigrate mg db' @ [case res of None \<Rightarrow> MigrateCloseLog | Some err \<Rightarrow> MigrateFailed err]"
    using run opened(6) by auto
  note ev = u(2,3)
  show ?thesis
  proof (cases "currentVersion mg db")
    case (Inl err)
    then have "res = Some err" "evs0 = [CallVersion]" "db' = db" using apply_migrations_cases[OF opened(5)] u(1) by auto
    then show ?thesis using ev by (auto simp: filter_empty_conv)
  next
    case (Inr v)
    then have nd: "\<not> (dirty mg db \<or> (\<exists>err. mg_Version mg db = VersionError err))" using currentVersion_clean(2) by force
    from apply_migrations_cases[OF opened(5)] Inr u(1) consider
        "res = None" "evs0 = [CallVersion, CallUp, UpToDate v]" "mg_Up mg db = (UpNoChange, db')"
      | v' where "res = None" "evs0 = [CallVersion, CallUp, CallVersion, Applied v v']" "mg_Up mg db = (UpDone, db')"
          "currentVersion mg db' = Inr v'"
      | "res \<noteq> None" "evs0 = [CallVersion, CallUp] \<or> evs0 = [CallVersion, CallUp, CallVersion]" by auto
    then show ?thesis
    proof cases
      case 1
      then have "db' = db" using noop by blast
      then show ?thesis using 1 ev nd Inr again[of v] currentVersion_clean(1) by auto
    next
      case 2
      then have nd': "\<not> dirty mg db'" using currentVersion_clean(1)[of mg db' v'] by simp
      show ?thesis using 2 nd' ev nd again[of v'] law by auto
    next
      case 3
      then show ?thesis using ev nd by auto
    qed
  qed
qed

text \<open>Three migrations; the database is the number of those applied.\<close>

definition sample_migrator :: "nat migrator" where
  "sample_migrator = \<lparr>mg_Version = (\<lambda>n. if n = 0 then NilVersion else Version n False),
     mg_Up = (\<lambda>n. if n < 3 then (UpDone, 3) else (UpNoChange, n)), mg_Close = (\<lambda>_. (None, None))\<rparr>"

definition sample_host :: "unit host" where
  "sample_host = \<lparr>mh_Getenv = sample_environment, mh_version = version_Dev, mh_ConfigFromEnv = Inr (),
     mh_Setup = (\<lambda>_ _. None), mh_source = None, mh_open = (\<lambda>_. None)\<rparr>"

theorem migrate_reruns_witness:
  "\<exists>evs evs'. main_migrate sample_host sample_migrator 1 = (0, evs, 3) \<and> Applied 1 3 \<in> set evs \<and> CallClose \<in> set evs
    \<and> main_migrate sample_host sample_migrator 3 = (0, evs', 3) \<and> UpToDate 3 \<in> set evs'"
proof -
  have r: "\<exists>evs. main_migrate sample_host sample_migrator 1 = (0, evs, 3)
      \<and> CallVersion \<in> set evs \<and> Applied 1 3 \<in> set evs \<and> (\<forall>w v. Applied w v \<in> set evs \<longrightarrow> v = 3) \<and> (\<forall>v. UpToDate v \<notin> set evs)"
    by (auto simp: main_migrate_def migrate_setupLogging_def run_migrate_def DSN_def sample_environment_def Let_def
        apply_migrations_def currentVersion_def closeMigrate_def sample_migrator_def sample_host_def)
  then obtain evs where c: "main_migrate sample_host sample_migrator 1 = (0, evs, 3)" "CallVersion \<in> set evs" "Applied 1 3 \<in> set evs"
    "\<And>w v. Applied w v \<in> set evs \<Longrightarrow> v = 3" "\<And>v. UpToDate v \<notin> set evs" by blast
  have l1: "\<And>x y. mg_Up sample_migrator x = (UpDone, y) \<Longrightarrow> mg_Up sample_migrator y = (UpNoChange, y)"
    and l2: "\<And>x y. mg_Up sample_migrator x = (UpNoChange, y) \<Longrightarrow> y = x"
    by (auto simp: sample_migrator_def split: if_splits)
  have "(\<exists>v w evs'. (UpToDate v \<in> set evs \<or> Applied w v \<in> set evs)
      \<and> main_migrate sample_host sample_migrator 3 = (0, evs', 3) \<and> UpToDate v \<in> set evs') \<and> CallClose \<in> set evs"
    using migrate_reruns[of sample_migrator sample_host 1 0 evs 3] l1 l2 c(1,2) by blast
  then show ?thesis using c by blast
qed

end
