(* ===== verification/Gamut_Fit.thy ===== *)
theory Gamut_Fit
  imports Gamut Binary64
begin

text \<open>
  The searches of \<^verbatim>\<open>internal/color/gamut.go\<close> find what they look for.  The bisection brackets the edge
  of the gamut to within one part in \<^verbatim>\<open>2 ^ 21\<close>, computed without any rounding error; the grid scan
  agrees with its specification, the nearest sample that holds the chroma and the sample that holds
  the most; and what is drawn is one of these.
\<close>

section \<open>The bisection\<close>

definition holds :: "fenv \<Rightarrow> real \<Rightarrow> real \<Rightarrow> real \<Rightarrow> real \<Rightarrow> bool" where
  "holds m lightness cs sn chroma = in_gamut m lightness (fmul m chroma cs) (fmul m chroma sn)"

context ieee
begin

text \<open>Every midpoint is a dyadic fraction with few digits, so no step of the search rounds.\<close>

lemma midpoint_exact:
  assumes "0 \<le> a" "a + 1 \<le> 2 ^ j" "j \<le> 50"
  shows "fdiv m (fadd m (of_int a / 2 ^ j) (of_int (a + 1) / 2 ^ j)) 2 = of_int (2 * a + 1) / 2 ^ Suc j"
proof -
  have e: "(2 :: int) ^ j \<le> 2 ^ 50" using assms(3) by (intro power_increasing) auto
  then have "\<bar>2 * a + 1\<bar> \<le> 2 ^ 53" using assms by simp
  then have "f_rnd m (of_int (2 * a + 1) / 2 ^ j) = of_int (2 * a + 1) / 2 ^ j"
    "f_rnd m (of_int (2 * a + 1) / 2 ^ Suc j) = of_int (2 * a + 1) / 2 ^ Suc j"
    using assms(3) by (intro rnd_dyadic; simp)+
  moreover have "of_int a / 2 ^ j + of_int (a + 1) / 2 ^ j = (of_int (2 * a + 1) / 2 ^ j :: real)"
    by (simp add: field_simps)
  moreover have "of_int (2 * a + 1) / 2 ^ j / 2 = (of_int (2 * a + 1) / 2 ^ Suc j :: real)" by simp
  ultimately show ?thesis by (simp only: fdiv_def fadd_def)
qed

lemma chromaSearch_bracket:
  assumes "0 \<le> a" "a + 1 \<le> 2 ^ j" "j + n \<le> 51"
  shows "\<exists>b. chromaSearch m n l cs sn (of_int a / 2 ^ j) (of_int (a + 1) / 2 ^ j) = of_int b / 2 ^ (j + n)
    \<and> a * 2 ^ n \<le> b \<and> b + 1 \<le> (a + 1) * 2 ^ n
    \<and> (b = a * 2 ^ n \<or> holds m l cs sn (of_int b / 2 ^ (j + n)))
    \<and> (b + 1 = (a + 1) * 2 ^ n \<or> \<not> holds m l cs sn (of_int (b + 1) / 2 ^ (j + n)))"
  using assms
proof (induction n arbitrary: a j)
  case 0
  then show ?case by (intro exI[of _ a]) simp
next
  case (Suc n)
  let ?mid = "of_int (2 * a + 1) / 2 ^ Suc j :: real"
  have mid: "fdiv m (fadd m (of_int a / 2 ^ j) (of_int (a + 1) / 2 ^ j)) 2 = ?mid"
    using Suc.prems by (intro midpoint_exact) auto
  have ends: "of_int a / 2 ^ j = (of_int (2 * a) / 2 ^ Suc j :: real)"
    "of_int (a + 1) / 2 ^ j = (of_int (2 * a + 1 + 1) / 2 ^ Suc j :: real)" by (simp_all add: field_simps)
  have jn: "j + Suc n = Suc j + n" by simp
  show ?case
  proof (cases "holds m l cs sn ?mid")
    case True
    have s: "chromaSearch m (Suc n) l cs sn (of_int a / 2 ^ j) (of_int (a + 1) / 2 ^ j)
        = chromaSearch m n l cs sn (of_int (2 * a + 1) / 2 ^ Suc j) (of_int (2 * a + 1 + 1) / 2 ^ Suc j)"
      using True unfolding holds_def by (simp only: chromaSearch.simps Let_def mid[unfolded ends(2)] if_True ends(2))
    obtain b where b: "chromaSearch m n l cs sn (of_int (2 * a + 1) / 2 ^ Suc j) (of_int (2 * a + 1 + 1) / 2 ^ Suc j)
        = of_int b / 2 ^ (Suc j + n)" "(2 * a + 1) * 2 ^ n \<le> b" "b + 1 \<le> (2 * a + 1 + 1) * 2 ^ n"
      "b = (2 * a + 1) * 2 ^ n \<or> holds m l cs sn (of_int b / 2 ^ (Suc j + n))"
      "b + 1 = (2 * a + 1 + 1) * 2 ^ n \<or> \<not> holds m l cs sn (of_int (b + 1) / 2 ^ (Suc j + n))"
      using Suc.IH[of "2 * a + 1" "Suc j"] Suc.prems by auto
    have "of_int ((2 * a + 1) * 2 ^ n) / 2 ^ (Suc j + n) = ?mid" by (simp add: power_add)
    then have "holds m l cs sn (of_int b / 2 ^ (Suc j + n))" using b(4) True by auto
    moreover have "a * 2 ^ Suc n \<le> (2 * a + 1) * 2 ^ n" by (simp add: algebra_simps)
    ultimately show ?thesis unfolding s jn
      using b(1-3,5) by (intro exI[of _ b]) (simp add: algebra_simps)
  next
    case False
    have s: "chromaSearch m (Suc n) l cs sn (of_int a / 2 ^ j) (of_int (a + 1) / 2 ^ j)
        = chromaSearch m n l cs sn (of_int (2 * a) / 2 ^ Suc j) (of_int (2 * a + 1) / 2 ^ Suc j)"
      using False unfolding holds_def by (simp only: chromaSearch.simps Let_def mid[unfolded ends(1)] if_False ends(1))
    obtain b where b: "chromaSearch m n l cs sn (of_int (2 * a) / 2 ^ Suc j) (of_int (2 * a + 1) / 2 ^ Suc j)
        = of_int b / 2 ^ (Suc j + n)" "(2 * a) * 2 ^ n \<le> b" "b + 1 \<le> (2 * a + 1) * 2 ^ n"
      "b = (2 * a) * 2 ^ n \<or> holds m l cs sn (of_int b / 2 ^ (Suc j + n))"
      "b + 1 = (2 * a + 1) * 2 ^ n \<or> \<not> holds m l cs sn (of_int (b + 1) / 2 ^ (Suc j + n))"
      using Suc.IH[of "2 * a" "Suc j"] Suc.prems by auto
    have "of_int ((2 * a + 1) * 2 ^ n) / 2 ^ (Suc j + n) = ?mid" by (simp add: power_add)
    then have "\<not> holds m l cs sn (of_int (b + 1) / 2 ^ (Suc j + n))" using b(5) False by metis
    moreover have "(2 * a + 1) * 2 ^ n \<le> (a + 1) * 2 ^ Suc n" by (simp add: algebra_simps)
    ultimately show ?thesis unfolding s jn
      using b(1-4) by (intro exI[of _ b]) (simp add: algebra_simps)
  qed
qed

lemma maxChromaAt_bracket:
  "0 \<le> maxChromaAt m l cs sn \<and> maxChromaAt m l cs sn < chromaCeiling
    \<and> (maxChromaAt m l cs sn = 0 \<or> holds m l cs sn (maxChromaAt m l cs sn))
    \<and> (maxChromaAt m l cs sn + 1 / 2 ^ 21 = chromaCeiling \<or> \<not> holds m l cs sn (maxChromaAt m l cs sn + 1 / 2 ^ 21))"
proof -
  obtain b where b: "maxChromaAt m l cs sn = of_int b / 2 ^ 21" "0 \<le> b" "b + 1 \<le> 2 ^ 20"
    "b = 0 \<or> holds m l cs sn (of_int b / 2 ^ 21)" "b + 1 = 2 ^ 20 \<or> \<not> holds m l cs sn (of_int (b + 1) / 2 ^ 21)"
    using chromaSearch_bracket[of 0 1 20 l cs sn] by (auto simp: maxChromaAt_def gamutSteps_def chromaCeiling_def)
  have s: "maxChromaAt m l cs sn + 1 / 2 ^ 21 = of_int (b + 1) / 2 ^ 21" using b(1) by (simp add: add_divide_distrib)
  have c: "chromaCeiling = of_int (2 ^ 20) / 2 ^ 21" by (simp add: chromaCeiling_def)
  have lt: "of_int b < (of_int (2 ^ 20) :: real)" "0 \<le> (of_int b :: real)" using b(2,3) by (simp_all only: of_int_less_iff of_int_0_le_iff)
  then have "of_int b / 2 ^ 21 < (of_int (2 ^ 20) / 2 ^ 21 :: real)" by (intro divide_strict_right_mono) auto
  moreover have "of_int b / 2 ^ 21 = (0 :: real) \<or> holds m l cs sn (of_int b / 2 ^ 21)" using b(4) by auto
  moreover have "of_int (b + 1) / 2 ^ 21 = (of_int (2 ^ 20) / 2 ^ 21 :: real) \<or> \<not> holds m l cs sn (of_int (b + 1) / 2 ^ 21)"
    using b(5) by auto
  moreover have "(0 :: real) \<le> of_int b / 2 ^ 21" using lt(2) by simp
  ultimately show ?thesis unfolding s unfolding b(1) c by blast
qed

end

section \<open>The grid\<close>

definition sample :: "fenv \<Rightarrow> nat \<Rightarrow> real" where
  "sample m i = fdiv m (of_nat i) (of_nat lightnessSamples)"

text \<open>What the scan has found among the samples \<^verbatim>\<open>seen\<close>.\<close>

definition grid_spec :: "fenv \<Rightarrow> real \<Rightarrow> real \<Rightarrow> real \<Rightarrow> real \<Rightarrow> nat set \<Rightarrow> grid \<Rightarrow> bool" where
  "grid_spec m lightness chroma cs sn seen g \<longleftrightarrow>
     (let held = \<lambda>i. maxChromaAt m (sample m i) cs sn; dist = \<lambda>l. \<bar>fsub m l lightness\<bar> in
      (g_fits g \<longleftrightarrow> (\<exists>i \<in> seen. chroma \<le> held i))
      \<and> (g_fits g \<longrightarrow> (\<exists>i \<in> seen. g_nearest g = sample m i \<and> chroma \<le> held i
            \<and> (\<forall>j \<in> seen. chroma \<le> held j \<longrightarrow> dist (g_nearest g) \<le> dist (sample m j))))
      \<and> (if seen = {} then g_peakChroma g = - 1
         else \<exists>i \<in> seen. g_peak g = sample m i \<and> g_peakChroma g = held i \<and> (\<forall>j \<in> seen. held j \<le> held i)))"

context ieee
begin

lemma gridStep_spec:
  assumes "grid_spec m lightness chroma cs sn seen g"
  shows "grid_spec m lightness chroma cs sn (insert i seen) (gridStep m lightness chroma cs sn i g)"
proof -
  have pos: "0 \<le> maxChromaAt m (sample m i) cs sn" using maxChromaAt_bracket by blast
  show ?thesis
    using assms pos
    by (cases "seen = {}"; cases "g_fits g")
      (auto simp: grid_spec_def gridStep_def Let_def not_less not_le simp flip: sample_def; force)+
qed

lemma gridScan_spec:
  "grid_spec m lightness chroma cs sn (set is) (gridScan m lightness chroma cs sn is)"
proof -
  have "grid_spec m lightness chroma cs sn (seen \<union> set is) (fold (gridStep m lightness chroma cs sn) is g)"
    if "grid_spec m lightness chroma cs sn seen g" for seen g
    using that
  proof (induction "is" arbitrary: seen g)
    case (Cons i "is")
    then show ?case using Cons.IH[OF gridStep_spec[OF Cons.prems, of i]] by simp
  qed simp
  from this[of "{}"] show ?thesis by (simp add: gridScan_def grid_spec_def)
qed

end

text \<open>The second bisection only moves to lightnesses that hold the chroma.\<close>

lemma edgeSearch_holds:
  "chroma \<le> maxChromaAt m low cs sn \<Longrightarrow> chroma \<le> maxChromaAt m (edgeSearch m n chroma cs sn low high) cs sn"
  by (induction n arbitrary: low high) (auto simp: Let_def)

definition lightness_grid :: "fenv \<Rightarrow> real set" where
  "lightness_grid m = sample m ` {0..lightnessSamples}"

lemma fitToSRGB_cases:
  fixes m :: fenv
  assumes "ieee m" "cs = f_cos m hue" "sn = f_sin m hue"
  shows "if holds m lightness cs sn chroma then fitToSRGB m lightness chroma hue = colorAt m lightness chroma cs sn
    else if \<forall>l \<in> lightness_grid m. maxChromaAt m l cs sn < chroma
    then \<exists>l \<in> lightness_grid m. (\<forall>l' \<in> lightness_grid m. maxChromaAt m l' cs sn \<le> maxChromaAt m l cs sn)
        \<and> fitToSRGB m lightness chroma hue = colorAt m l (maxChromaAt m l cs sn) cs sn
    else \<exists>near \<in> lightness_grid m. chroma \<le> maxChromaAt m near cs sn
        \<and> (\<forall>l \<in> lightness_grid m. chroma \<le> maxChromaAt m l cs sn \<longrightarrow> \<bar>fsub m near lightness\<bar> \<le> \<bar>fsub m l lightness\<bar>)
        \<and> (let edge = edgeSearch m gamutSteps chroma cs sn near lightness in
            chroma \<le> maxChromaAt m edge cs sn \<and> fitToSRGB m lightness chroma hue = colorAt m edge chroma cs sn)"
proof -
  define g where "g = gridScan m lightness chroma cs sn [0..<lightnessSamples + 1]"
  have seen: "set [0..<lightnessSamples + 1] = {0..lightnessSamples}" "{0..lightnessSamples} \<noteq> {}" by auto
  have spec: "grid_spec m lightness chroma cs sn {0..lightnessSamples} g"
    using ieee.gridScan_spec[OF assms(1), of lightness chroma cs sn "[0..<lightnessSamples + 1]"] unfolding seen g_def .
  have fit: "fitToSRGB m lightness chroma hue =
      (if holds m lightness cs sn chroma then colorAt m lightness chroma cs sn
       else if \<not> g_fits g then colorAt m (g_peak g) (g_peakChroma g) cs sn
       else colorAt m (edgeSearch m gamutSteps chroma cs sn (g_nearest g) lightness) chroma cs sn)"
    unfolding fitToSRGB_def Let_def g_def assms(2,3) holds_def in_gamut_def colorAt_def
    by (simp split: prod.split)
  have fits: "g_fits g \<longleftrightarrow> \<not> (\<forall>l \<in> lightness_grid m. maxChromaAt m l cs sn < chroma)"
    using spec by (auto simp: grid_spec_def Let_def lightness_grid_def not_less)
  show ?thesis
  proof (cases "holds m lightness cs sn chroma \<or> \<not> g_fits g")
    case True
    have "\<exists>l \<in> lightness_grid m. (\<forall>l' \<in> lightness_grid m. maxChromaAt m l' cs sn \<le> maxChromaAt m l cs sn)
        \<and> colorAt m (g_peak g) (g_peakChroma g) cs sn = colorAt m l (maxChromaAt m l cs sn) cs sn"
      using spec seen(2) unfolding grid_spec_def Let_def lightness_grid_def by auto
    then show ?thesis using True unfolding fit fits by auto
  next
    case False
    obtain i where i: "i \<in> {0..lightnessSamples}" "g_nearest g = sample m i" "chroma \<le> maxChromaAt m (g_nearest g) cs sn"
      "\<forall>j \<in> {0..lightnessSamples}. chroma \<le> maxChromaAt m (sample m j) cs sn
        \<longrightarrow> \<bar>fsub m (g_nearest g) lightness\<bar> \<le> \<bar>fsub m (sample m j) lightness\<bar>"
      using False spec unfolding grid_spec_def Let_def by fastforce
    have "g_nearest g \<in> lightness_grid m" using i by (auto simp: lightness_grid_def)
    then show ?thesis using False i(3,4) edgeSearch_holds[OF i(3)] unfolding fit fits Let_def
      by (auto simp: lightness_grid_def)
  qed
qed

text \<open>
  C37. Bringing a colour into sRGB finds the edge of the gamut.  The search for the most chroma a
  lightness and hue hold ends on a chroma that fits, and one step of \<^verbatim>\<open>2 ^ -21\<close> further no longer does
  (or is the ceiling), with no rounding error on the way.  A colour that fits is drawn unchanged.  Any
  other keeps its hue and, where some sampled lightness holds its chroma, its chroma, starting from
  the nearest such sample and staying where the chroma is held; otherwise it becomes the most
  saturated sample of its hue.
\<close>

theorem gamut_fit:
  assumes "ieee m" "cs = f_cos m hue" "sn = f_sin m hue"
  shows "(let c = maxChromaAt m l cs sn in 0 \<le> c \<and> c < chromaCeiling
        \<and> (c = 0 \<or> holds m l cs sn c) \<and> (c + 1 / 2 ^ 21 = chromaCeiling \<or> \<not> holds m l cs sn (c + 1 / 2 ^ 21)))
    \<and> (if holds m lightness cs sn chroma then fitToSRGB m lightness chroma hue = colorAt m lightness chroma cs sn
       else if \<forall>l \<in> lightness_grid m. maxChromaAt m l cs sn < chroma
       then \<exists>l \<in> lightness_grid m. (\<forall>l' \<in> lightness_grid m. maxChromaAt m l' cs sn \<le> maxChromaAt m l cs sn)
           \<and> fitToSRGB m lightness chroma hue = colorAt m l (maxChromaAt m l cs sn) cs sn
       else \<exists>near \<in> lightness_grid m. chroma \<le> maxChromaAt m near cs sn
           \<and> (\<forall>l \<in> lightness_grid m. chroma \<le> maxChromaAt m l cs sn \<longrightarrow> \<bar>fsub m near lightness\<bar> \<le> \<bar>fsub m l lightness\<bar>)
           \<and> (let edge = edgeSearch m gamutSteps chroma cs sn near lightness in
               chroma \<le> maxChromaAt m edge cs sn \<and> fitToSRGB m lightness chroma hue = colorAt m edge chroma cs sn))"
  using fitToSRGB_cases[OF assms] ieee.maxChromaAt_bracket[OF assms(1)] unfolding Let_def by blast

theorem gamut_fit_witness:
  "let cs = f_cos binary64_env 1; sn = f_sin binary64_env 1; c = maxChromaAt binary64_env (1 / 2) cs sn in
    0 \<le> c \<and> c < 1 / 2 \<and> (c = 0 \<or> holds binary64_env (1 / 2) cs sn c)"
  using gamut_fit[OF binary64_ieee refl refl, of "1 / 2" 1 0 0] unfolding Let_def chromaCeiling_def by blast

end
