(* ===== verification/Harmony_Laws.thy ===== *)
theory Harmony_Laws
  imports Harmony Binary64
begin

text \<open>
  What \<^verbatim>\<open>Harmony.Colors\<close> of \<^verbatim>\<open>internal/color/color.go\<close> hands out: how many colours, that each is a
  colour, and which colours have no harmony but themselves.
\<close>

definition harmony_sizes :: "(harmony \<times> nat) list" where
  "harmony_sizes = [(Complement, 1), (SplitComplement, 2), (Triad, 2), (Analogous, 2), (Square, 3),
     (Ramp, rampSteps), (Tones, toneSteps)]"

definition neutral :: "fenv \<Rightarrow> hex \<Rightarrow> bool" where
  "neutral m h = (case hexToOklab m h of (_, a, b) \<Rightarrow> f_hypot m a b < neutralChroma m)"

lemmas harmony_names = Complement_def SplitComplement_def Triad_def Analogous_def Square_def Ramp_def Tones_def

lemma names_eval: "HarmonyNames m = map fst harmony_sizes" "distinct (map fst harmony_sizes)"
  by (simp_all add: HarmonyNames_def harmonies_def harmony_sizes_def harmony_names)

lemma colorsLoop_none: "k \<notin> set (map hr_name rows) \<Longrightarrow> colorsLoop m rows k space h = []"
  by (induction rows) auto

lemma colorsLoop_all:
  "(\<And>r f. r \<in> set rows \<Longrightarrow> hr_of r = Some f \<Longrightarrow> list_all P (f h)) \<Longrightarrow> (\<And>deg. P (rotate m space h deg))
    \<Longrightarrow> list_all P (colorsLoop m rows k space h)"
  by (induction rows) (auto simp: rotations_def list_all_iff split: option.split)

lemma harmonyLoop_iff:
  "harmonyLoop rows s = (if s \<in> set (map hr_name rows) then Inr s else Inl (Errorf s [Sentinel ErrUnknownHarmony]))"
  by (induction rows) auto

lemma Colors_length:
  "length (Colors m k space h) = (case map_of harmony_sizes k of None \<Rightarrow> 0 | Some n \<Rightarrow> n)"
proof (cases "k \<in> set (map fst harmony_sizes)")
  case True
  have ramp: "length (ramp m h) = rampSteps" "length (tones m h) = toneSteps"
    by (simp_all add: ramp_def tones_def Let_def split: prod.split)
  show ?thesis using True
    by (auto simp: harmony_sizes_def Colors_def harmonies_def rotations_def harmony_names ramp)
next
  case False
  then have "map_of harmony_sizes k = None" by (simp add: map_of_eq_None_iff)
  moreover have "k \<notin> set (map hr_name (harmonies m))" using False names_eval(1)[of m] by (simp add: HarmonyNames_def)
  ultimately show ?thesis by (simp add: Colors_def colorsLoop_none)
qed

context ieee
begin

lemma drawn_normal: "normal_hex (colorAt m l c cs sn)" "normal_hex (fitToSRGB m l c hue)" "normal_hex (hslToHex m h s l)"
  by (simp_all add: colorAt_def fitToSRGB_def hslToHex_def linearToHex_def srgbToHex_normal Let_def split: prod.split)

lemma derived_normal:
  assumes "normal_hex h"
  shows "normal_hex (rotate m space h deg)" "list_all normal_hex (ramp m h)" "list_all normal_hex (tones m h)"
  using assms
  by (auto simp: rotate_def rotateOkLCh_def rotateHSL_def ramp_def tones_def drawn_normal list_all_iff Let_def
      split: prod.split)

lemma Colors_normal: "normal_hex h \<Longrightarrow> list_all normal_hex (Colors m k space h)"
  unfolding Colors_def by (intro colorsLoop_all) (auto simp: harmonies_def derived_normal)

end

lemma rotate_neutral:
  "neutral m h \<Longrightarrow> normal_hex h \<Longrightarrow> rotate m space h deg = h"
  by (simp add: rotate_def rotateOkLCh_def rotateHSL_def neutral_def Let_def split: prod.splits)

lemma Colors_neutral:
  assumes "neutral m h" "normal_hex h" "k \<noteq> Ramp"
  shows "set (Colors m k space h) \<subseteq> {h}"
proof -
  have "set (tones m h) \<subseteq> {h}"
    using assms(1,2) by (auto simp: tones_def neutral_def normal_hex_def Let_def split: prod.splits)
  then show ?thesis
    using assms rotate_neutral[OF assms(1,2)] by (auto simp: Colors_def harmonies_def rotations_def split: if_splits)
qed

text \<open>
  C38. A harmony is a list of colours.  The names a client may ask for are exactly the seven listed,
  each once, and any other is ErrUnknownHarmony; a harmony has the number of colours its name
  promises, for every colour and in both spaces; each of them is a valid hex code, ready to be saved;
  and a colour too grey to have a hue is its own rotation, whatever the angle.
\<close>

theorem Colors_shape:
  assumes "ieee m" "normal_hex h"
  shows "ParseHarmony m s = (if s \<in> set (HarmonyNames m) then Inr s else Inl (Errorf s [Sentinel ErrUnknownHarmony]))
    \<and> HarmonyNames m = map fst harmony_sizes \<and> distinct (HarmonyNames m)
    \<and> length (Colors m k space h) = (case map_of harmony_sizes k of None \<Rightarrow> 0 | Some n \<Rightarrow> n)
    \<and> list_all normal_hex (Colors m k space h)
    \<and> (neutral m h \<and> k \<noteq> Ramp \<longrightarrow> set (Colors m k space h) \<subseteq> {h})"
  using names_eval Colors_length[of m k space h] ieee.Colors_normal[OF assms]
    Colors_neutral[OF _ assms(2)] harmonyLoop_iff[of "harmonies m" s]
  by (simp add: ParseHarmony_def HarmonyNames_def)

theorem Colors_shape_witness:
  "length (Colors binary64_env Square SpaceHSL ''#ff8000'') = 3
    \<and> list_all normal_hex (Colors binary64_env Square SpaceHSL ''#ff8000'')"
proof -
  have "normal_hex ''#ff8000''" by (simp add: normal_hex_def HexLen_def is_hex_digit_def hex_digits_def)
  then show ?thesis
    using Colors_shape[OF binary64_ieee, of "''#ff8000''" "[]" Square SpaceHSL]
    by (simp add: harmony_sizes_def harmony_names)
qed

end
