(* ===== verification/Sort_Key_Laws.thy ===== *)
theory Sort_Key_Laws
  imports Sort_Key Color_Bounds
begin

text \<open>
  The stored sort key of \<^verbatim>\<open>internal/color/sortkey.go\<close> packs three components without overlap: the
  order of the keys is the order of the components.
\<close>

text \<open>The components, from the same OkLab coordinates that the rest of the package uses.\<close>

definition key_parts :: "fenv \<Rightarrow> hex \<Rightarrow> int \<times> int \<times> int" where
  "key_parts m h =
     (case hexToOklab m h of (lightness, a, b) \<Rightarrow>
        let chroma = fsqrt m (fadd m (fmul m a a) (fmul m b b)) in
        (hueGroup m chroma a b, go_round (fmul m lightness 1000), min (go_round (fmul m chroma 1000)) chromaMax))"

definition key_neutral :: "fenv \<Rightarrow> hex \<Rightarrow> bool" where
  "key_neutral m h =
     (case hexToOklab m h of (_, a, b) \<Rightarrow> fsqrt m (fadd m (fmul m a a) (fmul m b b)) < neutralChroma m)"

fun pack :: "int \<times> int \<times> int \<Rightarrow> int" where
  "pack (g, l, c) = g * groupStep + l * lightnessStep + c"

fun lex_less :: "int \<times> int \<times> int \<Rightarrow> int \<times> int \<times> int \<Rightarrow> bool" where
  "lex_less (g, l, c) (g', l', c') \<longleftrightarrow> g < g' \<or> g = g' \<and> (l < l' \<or> l = l' \<and> c < c')"

text \<open>
  The twelve buckets are numbered from 1.  A hue just below the origin may round to 360 degrees when it
  is wrapped, which is one group more.
\<close>

fun key_in_range :: "int \<times> int \<times> int \<Rightarrow> bool" where
  "key_in_range (g, l, c) \<longleftrightarrow> 0 \<le> g \<and> g \<le> hueBuckets + 1 \<and> 0 \<le> l \<and> l \<le> 1000 \<and> 0 \<le> c \<and> c \<le> chromaMax"

lemmas key_constants = groupStep_def lightnessStep_def chromaMax_def hueBuckets_def

lemma pack_less:
  assumes "key_in_range p" "key_in_range q"
  shows "pack p < pack q \<longleftrightarrow> lex_less p q"
proof -
  obtain g l c g' l' c' where pq: "p = (g, l, c)" "q = (g', l', c')" by (metis prod_cases3)
  have r: "0 \<le> l" "l \<le> 1000" "0 \<le> c" "c \<le> 999" "0 \<le> l'" "l' \<le> 1000" "0 \<le> c'" "c' \<le> 999"
    using assms by (auto simp: pq key_constants)
  consider "g < g'" | "g' < g" | "g = g'" by linarith
  then show ?thesis
    using r by cases (auto simp: pq key_constants)
qed

lemma pack_fits: "key_in_range p \<Longrightarrow> to_int32 (pack p) = pack p"
  by (cases p) (auto simp: to_int32_def key_constants intro!: signed_take_bit_int_eq_self)

lemma sort_key_parts:
  assumes "length h = HexLen"
  shows "perceptualSortKey m h = to_int32 (pack (key_parts m h))"
  using assms by (simp add: perceptualSortKey_def key_parts_def hexToOklab_def packKey_def Let_def)

context go_math
begin

lemma hueGroup_range: "0 \<le> hueGroup m chroma a b \<and> hueGroup m chroma a b \<le> 13"
  "hueGroup m chroma a b = 0 \<longleftrightarrow> chroma < neutralChroma m"
proof -
  define deg where "deg = fdiv m (fmul m (f_atan2 m b a) 180) (lit m pi)"
  define hue where "hue = fsub m deg (lit m hueOriginDeg)"
  define wrapped where "wrapped = (if hue < 0 then fadd m hue 360 else hue)"
  have p: "\<bar>lit m pi - pi\<bar> \<le> ulp" using pi_less_4 pi_ge_zero by (intro lit_err) simp
  have pb: "1 \<le> lit m pi" "lit m pi \<le> 5" using p pi_ge_two pi_less_4 ulp_small by linarith+
  have a: "\<bar>f_atan2 m b a\<bar> \<le> lit m pi" using atan2_range[of b a] by (simp add: lit_def)
  have e: "\<bar>fmul m (f_atan2 m b a) 180 - f_atan2 m b a * 180\<bar> \<le> ulp" unfolding fmul_def using a pb by (intro err) linarith
  have "\<bar>fmul m (f_atan2 m b a) 180\<bar> \<le> 182 * lit m pi" using a e pb ulp_small by linarith
  then have q: "\<bar>fmul m (f_atan2 m b a) 180 / lit m pi\<bar> \<le> 182" using pb by (simp add: abs_divide divide_le_eq)
  have "\<bar>deg - fmul m (f_atan2 m b a) 180 / lit m pi\<bar> \<le> ulp" unfolding deg_def fdiv_def using q by (intro err) linarith
  then have d: "\<bar>deg\<bar> \<le> 183" using q ulp_small by linarith
  have o: "\<bar>lit m hueOriginDeg - 20\<bar> \<le> ulp" unfolding hueOriginDeg_def by (intro lit_err) simp
  have "\<bar>hue - (deg - lit m hueOriginDeg)\<bar> \<le> ulp" unfolding hue_def fsub_def using d o ulp_small by (intro err) linarith
  then have h: "- 210 \<le> hue" "hue \<le> 210" using d o ulp_small by linarith+
  have w: "0 \<le> wrapped" "wrapped \<le> 360"
  proof -
    have "0 \<le> fadd m hue 360" unfolding fadd_def using h by (intro rnd_nonneg) simp
    then show "0 \<le> wrapped" by (simp add: wrapped_def)
    have "fadd m hue 360 \<le> f_rnd m 360" if "hue < 0" unfolding fadd_def using that by (intro rnd_mono) simp
    then show "wrapped \<le> 360" using h rnd_of_int[of 360] by (simp add: wrapped_def)
  qed
  have b: "(360 :: real) / of_int hueBuckets = 30" by (simp add: hueBuckets_def)
  have "0 \<le> wrapped / 30" "wrapped / 30 \<le> 12" using w by simp_all
  then have "f_rnd m 0 \<le> fdiv m wrapped 30" "fdiv m wrapped 30 \<le> f_rnd m 12" unfolding fdiv_def by (auto intro: rnd_mono simp del: rnd_0)
  then have "0 \<le> fdiv m wrapped 30" "fdiv m wrapped 30 \<le> 12" using rnd_of_int[of 12] by simp_all
  then have t: "0 \<le> go_trunc (fdiv m wrapped 30)" "go_trunc (fdiv m wrapped 30) \<le> 12"
    using go_trunc_mono[of 0 "fdiv m wrapped 30"] go_trunc_mono[of "fdiv m wrapped 30" 12] go_trunc_of_int[of 0] go_trunc_of_int[of 12]
    by simp_all
  have g: "hueGroup m chroma a b = (if neutralChroma m \<le> chroma then 1 + go_trunc (fdiv m wrapped 30) else 0)"
    unfolding hueGroup_def Let_def b wrapped_def hue_def deg_def by simp
  show "0 \<le> hueGroup m chroma a b \<and> hueGroup m chroma a b \<le> 13" "hueGroup m chroma a b = 0 \<longleftrightarrow> chroma < neutralChroma m"
    using t by (auto simp: g)
qed

lemma key_parts_range: "key_in_range (key_parts m h)" "fst (key_parts m h) = 0 \<longleftrightarrow> key_neutral m h"
proof -
  obtain lightness a b where lab: "hexToOklab m h = (lightness, a, b)" using prod_cases3 by blast
  define chroma where "chroma = fsqrt m (fadd m (fmul m a a) (fmul m b b))"
  note L = hexToOklab_lightness[OF lab]
  have "\<bar>fmul m lightness 1000 - lightness * 1000\<bar> \<le> ulp" unfolding fmul_def using L by (intro err) linarith
  then have "- 1 / 4 - ulp \<le> fmul m lightness 1000" "fmul m lightness 1000 \<le> 1000 + 9 / 20 + ulp" using L by linarith+
  moreover have "go_round (- 1 / 3) = 0" "go_round (1000 + 5 / 11) = 1000" by (rule go_round_unique; simp)+
  ultimately have l: "0 \<le> go_round (fmul m lightness 1000)" "go_round (fmul m lightness 1000) \<le> 1000"
    using go_round_mono[of "- 1 / 3" "fmul m lightness 1000"] go_round_mono[of "fmul m lightness 1000" "1000 + 5 / 11"] ulp_small
    by linarith+
  have "0 \<le> fadd m (fmul m a a) (fmul m b b)" unfolding fadd_def fmul_def by (intro rnd_nonneg add_nonneg_nonneg) auto
  then have "0 \<le> chroma" unfolding chroma_def fsqrt_def by (intro rnd_nonneg) simp
  then have "0 \<le> fmul m chroma 1000" unfolding fmul_def by (intro rnd_nonneg) simp
  then have c: "0 \<le> go_round (fmul m chroma 1000)" using go_round_mono[of 0] go_round_of_int[of 0] by fastforce
  show "key_in_range (key_parts m h)" "fst (key_parts m h) = 0 \<longleftrightarrow> key_neutral m h"
    using l c hueGroup_range[of chroma a b]
    by (simp_all add: key_parts_def key_neutral_def lab Let_def key_constants flip: chroma_def)
qed

end

text \<open>
  C40. The stored key of a colour is its place in the order the palette is shown in.  For every two hex
  codes it compares like hue group, then lightness, then chroma, compared one after another: the
  components never run into each other and never leave 32 bits; and the group is 0 exactly for the
  neutral colours, which therefore come first.
\<close>

theorem sort_key_order:
  assumes "go_math m" "length h = HexLen" "length h' = HexLen"
  shows "Feel m h = pack (key_parts m h) \<and> 0 \<le> Feel m h \<and> Feel m h < 2 ^ 31
    \<and> (Feel m h < Feel m h' \<longleftrightarrow> lex_less (key_parts m h) (key_parts m h'))
    \<and> (fst (key_parts m h) = 0 \<longleftrightarrow> key_neutral m h)
    \<and> (key_neutral m h \<and> \<not> key_neutral m h' \<longrightarrow> Feel m h < Feel m h')"
proof -
  note r = go_math.key_parts_range(1)[OF assms(1)]
  note z = go_math.key_parts_range(2)[OF assms(1)]
  have f: "Feel m h = pack (key_parts m h)" "Feel m h' = pack (key_parts m h')"
    using assms(2,3) r by (simp_all add: Feel_def sort_key_parts pack_fits)
  obtain g l c g' l' c' where p: "key_parts m h = (g, l, c)" "key_parts m h' = (g', l', c')" by (metis prod_cases3)
  have "0 \<le> pack (key_parts m h) \<and> pack (key_parts m h) < 2 ^ 31" using r[of h] by (auto simp: p key_constants)
  moreover have "lex_less (key_parts m h) (key_parts m h')" if "key_neutral m h" "\<not> key_neutral m h'"
    using z[of h] z[of h'] r[of h'] that by (auto simp: p)
  ultimately show ?thesis using pack_less[OF r r, of h h'] z[of h] unfolding f by blast
qed

theorem sort_key_order_witness:
  "Feel binary64_env ''#ff8000'' < Feel binary64_env ''#0080ff''
    \<longleftrightarrow> lex_less (key_parts binary64_env ''#ff8000'') (key_parts binary64_env ''#0080ff'')"
proof -
  have "length ''#ff8000'' = HexLen" "length ''#0080ff'' = HexLen" by (simp_all add: HexLen_def)
  from sort_key_order[OF binary64_go_math this] show ?thesis by blast
qed

end
