(* ===== verification/Spec2Isabelle.thy ===== *)
theory Spec2Isabelle
  imports Api_Ledger Session_End Confidentiality Export Palette Shades Cursor Public_Handlers Api_Paging Wire Middleware Concurrency
    Quota_Interleaving Config Migrate Gamut_Fit Harmony_Laws Info_Laws Sort_Key_Laws
begin

text \<open>
  \<^bold>\<open>wavelen\<close> is an HTTP API, with a static web page beside it, that keeps the colours a user saves.  A
  process (\<^verbatim>\<open>cmd/api\<close>) reads its configuration from the environment, opens a pool of PostgreSQL
  connections and serves; a second command (\<^verbatim>\<open>cmd/migrate\<close>) brings the schema up to date.  A request
  passes the middleware, the router, the bearer check or the semaphore of the expensive routes, and a
  handler; the handler checks its parameters and calls a service; the service calls the storage, inside
  a transaction where several statements belong together; what the palettes, the harmonies and the sort
  order show is computed by the colour core.  This theory imports the whole development.

  \<^bold>\<open>The theories.\<close>  Names of definitions are the names of the source; a prefix such as
  \<^verbatim>\<open>colorsvc_\<close> stands for the package where two packages use one name.

  \<^item> \<^theory_text>\<open>Prelude\<close>, \<^theory_text>\<open>Go_Errors\<close>: byte strings, fallible results, error values with \<^verbatim>\<open>errors.Is\<close>.
    What the program uses of Go's standard library is modelled where it is used: \<^theory_text>\<open>Go_Float\<close> and
    \<^theory_text>\<open>Binary64\<close> (\<^verbatim>\<open>float64\<close>, package \<^verbatim>\<open>math\<close>), \<^theory_text>\<open>Base64\<close>, \<^theory_text>\<open>Go_Time\<close> (RFC 3339 instants), \<^theory_text>\<open>Go_Env\<close>
    (\<^verbatim>\<open>strconv.Atoi\<close>, \<^verbatim>\<open>time.ParseDuration\<close>), and in \<^theory_text>\<open>Dsn\<close>, \<^theory_text>\<open>Http\<close>, \<^theory_text>\<open>Routes\<close>, \<^theory_text>\<open>Middleware\<close> parts of
    \<^verbatim>\<open>net/url\<close>, \<^verbatim>\<open>net/http\<close> and \<^verbatim>\<open>strings\<close>.

  \<^item> The colour core, \<^verbatim>\<open>internal/color\<close>: \<^theory_text>\<open>Color_Hex\<close> (\<^verbatim>\<open>hex.go\<close>), \<^theory_text>\<open>Color_Space\<close> (\<^verbatim>\<open>oklab.go\<close>,
    \<^verbatim>\<open>hsl.go\<close>), \<^theory_text>\<open>Sort_Key\<close> (\<^verbatim>\<open>sortkey.go\<close>), \<^theory_text>\<open>Gamut\<close> (\<^verbatim>\<open>gamut.go\<close>), \<^theory_text>\<open>Harmony\<close> (\<^verbatim>\<open>derive.go\<close>, \<^verbatim>\<open>color.go\<close>),
    \<^theory_text>\<open>Color_Info\<close> (\<^verbatim>\<open>contrast.go\<close>, \<^verbatim>\<open>info.go\<close>).  Their laws are in \<^theory_text>\<open>Color_Bounds\<close> (error bounds of the float
    expressions), \<^theory_text>\<open>Sort_Key_Laws\<close> (the key orders as its components do and fits 32 bits), \<^theory_text>\<open>Gamut_Fit\<close> (the
    searches find the edge of the gamut), \<^theory_text>\<open>Harmony_Laws\<close> and \<^theory_text>\<open>Info_Laws\<close> (what is handed out is well
    formed).  \<^theory_text>\<open>Palette\<close> and \<^theory_text>\<open>Shades\<close> hold the built-in tables of \<^verbatim>\<open>internal/palette\<close> and
    \<^verbatim>\<open>internal/shades\<close>.

  \<^item> \<^theory_text>\<open>Domain\<close>: users, collections, icons, ids (\<^verbatim>\<open>internal/user\<close>, \<^verbatim>\<open>clt\<close>, \<^verbatim>\<open>icon\<close>).

  \<^item> The state: \<^theory_text>\<open>Database\<close> has the tables of \<^verbatim>\<open>migrations/\<close> as a record of row lists, one function for
    every SQL statement with the constraints and cascades it meets, the connection, which may lose any
    round trip before or after it took effect, and transactions.  \<^theory_text>\<open>Storage\<close> and \<^theory_text>\<open>Color_Listing\<close> are
    \<^verbatim>\<open>internal/storage\<close>, operation by operation; \<^theory_text>\<open>Services\<close> is \<^verbatim>\<open>colorsvc\<close>, \<^verbatim>\<open>collectionsvc\<close> and
    \<^verbatim>\<open>usersvc\<close>, \<^theory_text>\<open>Auth\<close> is \<^verbatim>\<open>internal/auth\<close> and \<^verbatim>\<open>authsvc\<close>.  Every operation takes the environment of the
    database and the state and returns its result or error and the next state.

  \<^item> What holds of the services: \<^theory_text>\<open>Sessions\<close> has the locale \<^verbatim>\<open>session_rel\<close> with the rules for relations that
    every statement sequence preserves; \<^theory_text>\<open>Integrity\<close>, \<^theory_text>\<open>Isolation\<close> and \<^theory_text>\<open>System\<close> interpret it for the schema
    invariant, for one account's view and for the quotas.  \<^theory_text>\<open>Service_Contracts\<close> and \<^theory_text>\<open>Account_Contracts\<close>
    say what each service answers and writes on every branch.  \<^theory_text>\<open>Ledger\<close> is the abstract specification,
    accounts, shelves of colours and sessions with one guarded step per call, and \<^theory_text>\<open>Ledger_Refinement\<close>
    shows that the services implement it and are atomic when round trips are lost.  \<^theory_text>\<open>Paging\<close> (locale
    \<^verbatim>\<open>keyset_listing\<close>) shows that keyset paging loses and repeats nothing, \<^theory_text>\<open>Export\<close> that the export loop groups
    the joined rows rightly, \<^theory_text>\<open>Quota_Interleaving\<close> runs the three transactions that insert counted rows
    (\<^verbatim>\<open>AddColor\<close>, \<^verbatim>\<open>CreateCollection\<close> and signing up with its default collection) statement by statement,
    interleaved with each other and with the writing statements of the other operations, under the row
    locks and the unique nickname; each of them, run without interruption, is the service's own.

  \<^item> The API: \<^theory_text>\<open>Http\<close>, \<^theory_text>\<open>Public_Handlers\<close>, \<^theory_text>\<open>Account_Handlers\<close>, \<^theory_text>\<open>Color_Handlers\<close> and \<^theory_text>\<open>Cursor\<close> are
    \<^verbatim>\<open>internal/handlers\<close>; \<^theory_text>\<open>Routes\<close> is the route table, the bearer check and the limited routes of
    \<^verbatim>\<open>internal/server\<close>.  \<^theory_text>\<open>Requests\<close> shows that serving a request is a short sequence of service calls, from
    which \<^theory_text>\<open>Api_Contracts\<close> (invariant, isolation, authentication), \<^theory_text>\<open>Session_End\<close> (a token that was
    logged out stays refused, whatever is served afterwards), \<^theory_text>\<open>Api_Errors\<close> (no 5xx while the
    database answers) and \<^theory_text>\<open>Api_Paging\<close> (a client that follows the cursors) lift the results to requests.
    \<^theory_text>\<open>Api_Ledger\<close> joins them to the ledger: a second table says what each route asks for, and the API does
    that, as one step of the ledger, and answers with the status of the step's verdict.
    \<^theory_text>\<open>Confidentiality\<close> compares two servers whose databases agree on one account (locale \<^verbatim>\<open>two_runs\<close> of
    \<^theory_text>\<open>Two_Runs\<close>, statement by statement): a session of that account cannot tell them apart.
    \<^theory_text>\<open>Json\<close> (\<^verbatim>\<open>encoding/json\<close> and a reader of RFC 8259), \<^theory_text>\<open>Float_Text\<close> (\<^verbatim>\<open>strconv\<close> of floats) and \<^theory_text>\<open>Wire\<close>
    (the tags of the response structs) give the bytes of a reply's document, which determine the reply.
    \<^theory_text>\<open>Concurrency\<close> is the semaphore of \<^verbatim>\<open>limit.go\<close> as a step relation over any number of requests, with the
    limit of 0 or less that removes the cap;
    \<^theory_text>\<open>Middleware\<close> is \<^verbatim>\<open>middleware.go\<close> and \<^verbatim>\<open>requestid\<close>.

  \<^item> The processes: \<^theory_text>\<open>Dsn\<close> (\<^verbatim>\<open>dbconfig\<close>), \<^theory_text>\<open>Dbtrace\<close>, \<^theory_text>\<open>Config\<close> (\<^verbatim>\<open>cmd/api/main.go\<close>, \<^verbatim>\<open>server.go\<close>) and
    \<^theory_text>\<open>Migrate\<close> (\<^verbatim>\<open>cmd/migrate/main.go\<close>).  A process is the list of its effects and its exit status;
    another database password changes none of them but the configuration handed to the pool.

  \<^bold>\<open>Parameters.\<close>  Code that is not in the repository is an argument: \<^verbatim>\<open>strvalid\<close> (the validation module),
  \<^verbatim>\<open>crypto\<close> (bcrypt, SHA-256, the random source, the clock), \<^verbatim>\<open>http_lib\<close> (the decoding of a request body
  and of integer parameters), \<^verbatim>\<open>pg_env\<close> (what the database server and the network decide), \<^verbatim>\<open>os\<close> and
  \<^verbatim>\<open>host\<close> (the process's surroundings, pgx and slogenv), \<^verbatim>\<open>migrator\<close> (golang-migrate), \<^verbatim>\<open>fenv\<close> (rounding
  and the elementary functions).  Hypotheses about them are named in the theorems: \<^verbatim>\<open>delivered\<close> (no round
  trip is lost and no statement refused unread, as PostgreSQL refuses a text with a zero byte),
  \<^verbatim>\<open>redacts\<close> (pgx keeps the password out of its errors), freshness of ids and tokens, the laws \<^verbatim>\<open>ieee\<close> and \<^verbatim>\<open>go_math\<close> of the float environment,
  the idempotence of \<^verbatim>\<open>Up\<close>.  Each such theorem has a witness at a concrete environment; the float laws are
  interpreted on \<^verbatim>\<open>binary64_env\<close>, binary64 rounding over the reals with correctly rounded functions.

  \<^bold>\<open>Bounds and fuel.\<close>  Go's \<^verbatim>\<open>int\<close> and \<^verbatim>\<open>time.Duration\<close> are \<^verbatim>\<open>int\<close>s whose range is written out where the
  source parses or multiplies them (\<^theory_text>\<open>Go_Env\<close> computes on 64-bit words); the stored sort key is wrapped to 32
  bits and shown not to wrap.  The loops of the source end by construction and are structural or measured
  recursions; the bisections run the source's fixed number of steps.  Fuel appears only for a client that
  follows cursors: it makes one request for each page, and one more than the number of colours is
  enough, which the theorems prove as a result \<^verbatim>\<open>Some\<close>.  A \<^verbatim>\<open>float64\<close> is a real number: overflow,
  infinities, NaN and the sign of zero are left out; the bounds of \<^theory_text>\<open>Color_Bounds\<close> keep the conversions
  that the sort key and the descriptions are made of far from them.

  \<^bold>\<open>Not modelled.\<close>  The text of error documents, which \<^verbatim>\<open>httputils\<close> writes, and of log lines (their content is a value), durations in
  the request log, the goroutine that logs a signal and restores its default handling, the timeout of the
  readiness probe, TLS and HTTP framing, \<^verbatim>\<open>http.ServeContent\<close>; \<^verbatim>\<open>embed.go\<close>, whose files are an argument;
  \<^verbatim>\<open>storage/interface.go\<close>, which only declares method sets; \<^verbatim>\<open>storagetest\<close>, the harness of the integration
  tests; the web page, deployment files and shell scripts.  The SQL of \<^verbatim>\<open>migrations/\<close> appears as the
  invariant \<^verbatim>\<open>schema_ok\<close> and in the statements that can violate it.
\<close>

end
